(* ===== verification/Prelude.thy ===== *)
theory Prelude
  imports Main "HOL-Library.AList" "HOL-Library.Word" "HOL-Library.Char_ord"
    "HOL-Library.List_Lexorder"
begin

text \<open>
  What every component shares: Go maps and sets as lists without repeated keys, the
  wrap-around of \<open>int64\<close>, and the two interfaces that several components implement
  (a \<open>sync.Once\<close> guard, and a machine whose steps keep an invariant).

  A Go map is an association list with distinct keys. The list order is the order in which
  a \<open>range\<close> loop visits the map. Go leaves that order open, so no definition sorts or
  normalises a map, and a theorem about all association lists with distinct keys is a
  theorem about every visiting order.
\<close>

named_theorems map_simps \<open>lookups, keys and sizes of updated maps\<close>
named_theorems upd_simps \<open>projections of updated heaps\<close>

section \<open>Maps\<close>

abbreviation get :: "('k \<times> 'v) list \<Rightarrow> 'k \<Rightarrow> 'v option" where
  "get m k \<equiv> map_of m k"

abbreviation put :: "'k \<Rightarrow> 'v \<Rightarrow> ('k \<times> 'v) list \<Rightarrow> ('k \<times> 'v) list" where
  "put k v m \<equiv> AList.update k v m"

abbreviation del :: "'k \<Rightarrow> ('k \<times> 'v) list \<Rightarrow> ('k \<times> 'v) list" where
  "del k m \<equiv> AList.delete k m"

abbreviation keys :: "('k \<times> 'v) list \<Rightarrow> 'k list" where
  "keys m \<equiv> map fst m"

abbreviation wf_map :: "('k \<times> 'v) list \<Rightarrow> bool" where
  "wf_map m \<equiv> distinct (keys m)"

lemma get_put [map_simps, simp]: "get (put k v m) k' = (if k' = k then Some v else get m k')"
  by (simp add: update_conv')

lemma get_del [map_simps, simp]: "get (del k m) k' = (if k' = k then None else get m k')"
  by (simp add: delete_conv')

lemma wf_map_put [simp, intro]: "wf_map m \<Longrightarrow> wf_map (put k v m)"
  by (rule distinct_update)

lemma wf_map_del [simp, intro]: "wf_map m \<Longrightarrow> wf_map (del k m)"
  by (rule distinct_delete)

lemma keys_put: "set (keys (put k v m)) = insert k (set (keys m))"
  by (simp add: dom_update)

lemma keys_del: "set (keys (del k m)) = set (keys m) - {k}"
  by (simp add: delete_keys)

lemma get_in_keys: "get m k = Some v \<Longrightarrow> k \<in> set (keys m)"
  by (force dest: map_of_SomeD)

lemma get_None_keys: "get m k = None \<longleftrightarrow> k \<notin> set (keys m)"
  by (simp add: map_of_eq_None_iff)

lemma get_Some_mem: "wf_map m \<Longrightarrow> (get m k = Some v) = ((k, v) \<in> set m)"
  by (rule map_of_eq_Some_iff)

lemma length_put:
  "length (put k v m) = (if k \<in> set (keys m) then length m else Suc (length m))"
  by (induction m) auto

lemma put_new: "k \<notin> set (keys m) \<Longrightarrow> put k v m = m @ [(k, v)]"
  by (induction m) auto

lemma length_del: "wf_map m \<Longrightarrow> k \<in> set (keys m) \<Longrightarrow> Suc (length (del k m)) = length m"
  by (induction m) auto

lemma set_put: "wf_map m \<Longrightarrow> set (put k v m) = insert (k, v) {p \<in> set m. fst p \<noteq> k}"
  by (induction m) (auto simp: image_iff)

lemma set_put_subset: "set (put k v m) \<subseteq> insert (k, v) (set m)"
  by (induction m) auto

lemma set_del: "set (del k m) = {p \<in> set m. fst p \<noteq> k}"
  by (induction m) auto

text \<open>A sum over the values of a map changes by the difference of the updated entry.\<close>

abbreviation msum :: "('v \<Rightarrow> int) \<Rightarrow> ('k \<times> 'v) list \<Rightarrow> int" where
  "msum f m \<equiv> sum_list (map (\<lambda>p. f (snd p)) m)"

lemma msum_put_new: "get m k = None \<Longrightarrow> msum f (put k v m) = msum f m + f v"
  by (induction m) (auto split: if_splits)

lemma msum_put_old:
  "get m k = Some u \<Longrightarrow> msum f (put k v m) = msum f m - f u + f v"
  by (induction m) (auto split: if_splits)

lemma msum_del: "wf_map m \<Longrightarrow> get m k = Some u \<Longrightarrow> msum f (del k m) = msum f m - f u"
  by (induction m) (auto split: if_splits simp: get_None_keys)

lemma msum_filter_zero:
  "(\<And>p. p \<in> set m \<Longrightarrow> \<not> P p \<Longrightarrow> f (snd p) = 0) \<Longrightarrow> msum f (filter P m) = msum f m"
  by (induction m) auto

lemma msum_nonneg: "(\<And>p. p \<in> set m \<Longrightarrow> 0 \<le> f (snd p)) \<Longrightarrow> 0 \<le> msum f m"
  by (induction m) (auto intro!: add_nonneg_nonneg)

lemma msum_member: 
  "(k, v) \<in> set m \<Longrightarrow> (\<And>p. p \<in> set m \<Longrightarrow> 0 \<le> f (snd p)) \<Longrightarrow> f v \<le> msum f m"
proof (induction m)
  case (Cons p m)
  have "0 \<le> msum f m" using Cons.prems by (intro msum_nonneg) auto
  with Cons show ?case by fastforce
qed simp

lemma wf_map_filter [simp, intro]: "wf_map m \<Longrightarrow> wf_map (filter P m)"
  by (simp add: distinct_map_filter)

section \<open>Sets\<close>

definition sadd :: "'a \<Rightarrow> 'a list \<Rightarrow> 'a list" where
  "sadd x xs = (if x \<in> set xs then xs else xs @ [x])"

lemma set_sadd [simp]: "set (sadd x xs) = insert x (set xs)"
  by (auto simp: sadd_def)

lemma distinct_sadd [simp, intro]: "distinct xs \<Longrightarrow> distinct (sadd x xs)"
  by (simp add: sadd_def)

lemma length_sadd: "length (sadd x xs) = (if x \<in> set xs then length xs else Suc (length xs))"
  by (simp add: sadd_def)

section \<open>Machine integers\<close>

text \<open>\<open>int64\<close> values are kept as \<open>int\<close>; where an operation of the code can leave the range,
  the two's complement wrap-around is written out.\<close>

definition wrap64 :: "int \<Rightarrow> int" where
  "wrap64 i = (i + 2 ^ 63) mod 2 ^ 64 - 2 ^ 63"

lemma wrap64_id: "- (2 ^ 63) \<le> i \<Longrightarrow> i < 2 ^ 63 \<Longrightarrow> wrap64 i = i"
  by (simp add: wrap64_def)

lemma wrap64_range: "- (2 ^ 63) \<le> wrap64 i \<and> wrap64 i < 2 ^ 63"
proof -
  have "0 \<le> (i + 2 ^ 63) mod 2 ^ 64" "(i + 2 ^ 63) mod 2 ^ 64 < (2::int) ^ 64" by simp_all
  then show ?thesis unfolding wrap64_def by (simp add: algebra_simps)
qed

text \<open>The largest integer every protocol peer can represent, \<open>2 ^ 53 - 1\<close>.\<close>

abbreviation max_safe_integer :: int where
  "max_safe_integer \<equiv> 9007199254740991"

section \<open>Interfaces\<close>

text \<open>An operation guarded by \<open>sync.Once\<close>: once its flag is set it changes nothing, and
  running it sets the flag.\<close>

locale once_guard =
  fixes fired :: "'s \<Rightarrow> bool" and act :: "'s \<Rightarrow> 's"
  assumes fired_act: "fired (act s)"
    and act_fired: "fired s \<Longrightarrow> act s = s"
begin

lemma act_twice: "act (act s) = act s"
  by (rule act_fired [OF fired_act])

lemma act_many: "(act ^^ Suc n) s = act s"
  by (induction n) (simp_all add: act_twice)

end

text \<open>A machine driven by a list of events, each of which keeps an invariant.\<close>

locale event_machine =
  fixes inv :: "'s \<Rightarrow> bool" and step :: "'e \<Rightarrow> 's \<Rightarrow> 's"
  assumes step_inv: "inv s \<Longrightarrow> inv (step e s)"
begin

lemma run_inv: "inv s \<Longrightarrow> inv (fold step es s)"
  by (induction es arbitrary: s) (auto intro: step_inv)

end

end
