(* ===== verification/Frames.thy ===== *)
theory Frames
  imports Prelude
begin

text \<open>
  Wire values, frames and errors (\<open>internal/relay/errors.go\<close>).

  The codec (\<open>github.com/miakapp/miakapp-v3/protocol/go\<close>) is not part of the repository. What
  the relay uses of it is the record \<open>protocol\<close>, an argument of every definition that
  encodes a frame or reads one of its limits. A decoded frame carries its opcode and its
  payload; the payload is a list of dynamically typed values, as \<open>[]any\<close> is.
\<close>

section \<open>Values and frames\<close>

type_synonym byte = "8 word"

text \<open>\<open>VOpaque\<close> stands for the values the relay only forwards and compares (floats, maps).\<close>

datatype "value" =
  VNil
| VBool bool
| VInt int
| VString string
| VBytes "byte list"
| VArray "value list"
| VOpaque string

text \<open>The opcodes the relay names, and every other byte the codec lets through.\<close>

datatype opcode =
  OpcodeHello | OpcodeWelcome | OpcodeFatal | OpcodeError | OpcodeGoaway
| OpcodeReauth | OpcodeReauthOK
| OpcodeStateSync | OpcodeStateSyncOK | OpcodeStateSet | OpcodeStateSetOK
| OpcodeStateACLSync | OpcodeStateACLOK | OpcodeStateResync
| OpcodeStateDict | OpcodeStateSnapshot | OpcodeStatePatch
| OpcodeEventSync | OpcodeEventSyncOK | OpcodeEventACLSync | OpcodeEventACLOK
| OpcodeSubscribe | OpcodeSubscribeOK | OpcodeUnsubscribe | OpcodeUnsubscribeOK
| OpcodeEvent | OpcodeTopicDict
| OpcodeFunctionSync | OpcodeFunctionSyncOK | OpcodeFunctionDict
| OpcodeCall | OpcodeCallDispatch | OpcodeCallAccepted | OpcodeCallResult
| OpcodeCallError | OpcodeCallCancel | OpcodeCallCredit
| OpcodePresenceSnapshot | OpcodePresenceChange | OpcodeHomeStatus
| OpcodeUnnamed byte

record frame =
  Opcode :: opcode
  Payload :: "value list"

text \<open>What the relay takes from the codec package. \<open>opcodeByte\<close> is the numbering of the
  opcodes, \<open>EncodeFrame\<close> is \<open>None\<close> where the Go function returns an error.\<close>

record protocol =
  EncodeFrame :: "frame \<Rightarrow> byte list option"
  opcodeByte :: "opcode \<Rightarrow> int"
  MaxFrameBytes :: int
  MaxInflightCalls :: int
  MaxSubscriptions :: int
  MaxStreamCredit :: int
  MaxStatePathsPerHome :: int

text \<open>The codec never produces a frame longer than its own limit: an encoding beyond it is
  one of its errors (\<open>ErrFrameTooLarge\<close>), and the limit is a positive constant.\<close>

definition codec_bounded :: "protocol \<Rightarrow> bool" where
  "codec_bounded P \<longleftrightarrow>
     0 < MaxFrameBytes P \<and> (\<forall>f b. EncodeFrame P f = Some b \<longrightarrow> int (length b) \<le> MaxFrameBytes P)"

section \<open>Reading a payload\<close>

text \<open>The Go accessors panic on a value of another type, and an index out of range panics
  too: both are \<open>None\<close>.\<close>

fun integer :: "value \<Rightarrow> int option" where
  "integer (VInt i) = Some i"
| "integer _ = None"

fun stringValue :: "value \<Rightarrow> string option" where
  "stringValue (VString s) = Some s"
| "stringValue _ = None"

fun arrayValue :: "value \<Rightarrow> value list option" where
  "arrayValue (VArray xs) = Some xs"
| "arrayValue _ = None"

fun bytesValue :: "value \<Rightarrow> byte list option" where
  "bytesValue (VBytes b) = Some b"
| "bytesValue _ = None"

definition payload_at :: "'a list \<Rightarrow> nat \<Rightarrow> 'a option" where
  "payload_at xs i = (if i < length xs then Some (xs ! i) else None)"

lemma payload_at_Cons [simp]:
  "payload_at (x # xs) 0 = Some x" "payload_at (x # xs) (Suc i) = payload_at xs i"
  by (simp_all add: payload_at_def)

lemma payload_at_Nil [simp]: "payload_at [] i = None"
  by (simp add: payload_at_def)

lemma payload_at_numeral [simp]:
  "payload_at (x # xs) (numeral n) = payload_at xs (pred_numeral n)"
  by (simp add: numeral_eq_Suc)

text \<open>A list of optional results, \<open>None\<close> as soon as one element is.\<close>

fun all_some :: "'a option list \<Rightarrow> 'a list option" where
  "all_some [] = Some []"
| "all_some (x # xs) =
     (case x of None \<Rightarrow> None | Some y \<Rightarrow> map_option (\<lambda>ys. y # ys) (all_some xs))"

lemma all_some_Some: "all_some xs = Some ys \<longleftrightarrow> xs = map Some ys"
  by (induction xs arbitrary: ys) (auto split: option.splits)

section \<open>Errors\<close>

definition codeMalformedFrame :: int where [simp]: "codeMalformedFrame = 1000"
definition codeUnsupportedVersion :: int where [simp]: "codeUnsupportedVersion = 1001"
definition codeUnexpectedFrame :: int where [simp]: "codeUnexpectedFrame = 1002"
definition codeFrameTooLarge :: int where [simp]: "codeFrameTooLarge = 1003"
definition codeLimitExceeded :: int where [simp]: "codeLimitExceeded = 1004"
definition codeInvalidValue :: int where [simp]: "codeInvalidValue = 1005"
definition codeUnauthenticated :: int where [simp]: "codeUnauthenticated = 1100"
definition codeTokenExpired :: int where [simp]: "codeTokenExpired = 1101"
definition codeInvalidAudience :: int where [simp]: "codeInvalidAudience = 1102"
definition codeForbidden :: int where [simp]: "codeForbidden = 1200"
definition codeNotEnrolled :: int where [simp]: "codeNotEnrolled = 1201"
definition codeNotDeclared :: int where [simp]: "codeNotDeclared = 1202"
definition codeWrongDirection :: int where [simp]: "codeWrongDirection = 1203"
definition codeConflict :: int where [simp]: "codeConflict = 1300"
definition codeDuplicateRequest :: int where [simp]: "codeDuplicateRequest = 1301"
definition codeOwnershipCollision :: int where [simp]: "codeOwnershipCollision = 1302"
definition codeStaleEpoch :: int where [simp]: "codeStaleEpoch = 1303"
definition codeRevisionMismatch :: int where [simp]: "codeRevisionMismatch = 1304"
definition codeGenerationReplaced :: int where [simp]: "codeGenerationReplaced = 1305"
definition codeUnavailable :: int where [simp]: "codeUnavailable = 1400"
definition codeNoCoordinator :: int where [simp]: "codeNoCoordinator = 1401"
definition codeSlowConsumer :: int where [simp]: "codeSlowConsumer = 1402"
definition codeDeadlineExceeded :: int where [simp]: "codeDeadlineExceeded = 1403"
definition codeOutcomeUnknown :: int where [simp]: "codeOutcomeUnknown = 1404"
definition codeCancelled :: int where [simp]: "codeCancelled = 1405"
definition codeInternal :: int where [simp]: "codeInternal = 1500"

definition closeProtocol :: int where [simp]: "closeProtocol = 4400"
definition closeAuth :: int where [simp]: "closeAuth = 4401"
definition closeAuthorization :: int where [simp]: "closeAuthorization = 4403"
definition closeTimeout :: int where [simp]: "closeTimeout = 4408"
definition closeConflict :: int where [simp]: "closeConflict = 4409"
definition closeLimit :: int where [simp]: "closeLimit = 4429"
definition closeInternal :: int where [simp]: "closeInternal = 4500"
definition closeUnavailable :: int where [simp]: "closeUnavailable = 4503"

text \<open>Close statuses of RFC 6455 that the code uses by name.\<close>

abbreviation StatusNormalClosure :: int where "StatusNormalClosure \<equiv> 1000"
abbreviation StatusInternalError :: int where "StatusInternalError \<equiv> 1011"
abbreviation StatusServiceRestart :: int where "StatusServiceRestart \<equiv> 1012"

record relayError =
  err_code :: int
  retryable :: bool
  message :: string
  closeCode :: int
  fatal :: bool

definition applicationError :: "int \<Rightarrow> bool \<Rightarrow> string \<Rightarrow> int \<Rightarrow> relayError" where
  "applicationError c r m close =
     \<lparr>err_code = c, retryable = r, message = m, closeCode = close, fatal = False\<rparr>"

definition fatalError :: "int \<Rightarrow> bool \<Rightarrow> string \<Rightarrow> int \<Rightarrow> relayError" where
  "fatalError c r m close = (applicationError c r m close)\<lparr>fatal := True\<rparr>"

lemma applicationError_simps [simp]:
  "err_code (applicationError c r m close) = c"
  "retryable (applicationError c r m close) = r"
  "message (applicationError c r m close) = m"
  "closeCode (applicationError c r m close) = close"
  "\<not> fatal (applicationError c r m close)"
  by (simp_all add: applicationError_def)

lemma fatalError_simps [simp]:
  "err_code (fatalError c r m close) = c"
  "retryable (fatalError c r m close) = r"
  "message (fatalError c r m close) = m"
  "closeCode (fatalError c r m close) = close"
  "fatal (fatalError c r m close)"
  by (simp_all add: fatalError_def)

lemma application_not_fatal [simp]:
  "applicationError c r m close \<noteq> fatalError c' r' m' close'"
  "fatalError c r m close \<noteq> applicationError c' r' m' close'"
  by (metis applicationError_simps(5) fatalError_simps(5))+

text \<open>The kinds of codec errors \<open>protocolFailure\<close> distinguishes; \<open>ForeignError\<close> is an error
  that is not a \<open>ProtocolError\<close>.\<close>

datatype protocolError =
  ErrFrameTooLarge | ErrLimit | ErrInvalidValue | ErrInvalidFrame
| ErrUnknownOpcode | ErrMalformed | ErrNonCanonical | ErrOtherKind | ForeignError

fun protocolFailure :: "protocolError \<Rightarrow> relayError" where
  "protocolFailure ForeignError =
     fatalError codeInternal True ''internal relay failure'' closeInternal"
| "protocolFailure ErrFrameTooLarge =
     fatalError codeFrameTooLarge False ''frame exceeds the negotiated limit'' closeLimit"
| "protocolFailure ErrLimit =
     fatalError codeLimitExceeded False ''frame exceeds a protocol limit'' closeLimit"
| "protocolFailure ErrInvalidValue =
     fatalError codeInvalidValue False ''frame contains an invalid value'' closeProtocol"
| "protocolFailure ErrInvalidFrame =
     fatalError codeInvalidValue False ''frame contains an invalid value'' closeProtocol"
| "protocolFailure ErrUnknownOpcode =
     fatalError codeMalformedFrame False ''malformed protocol frame'' closeProtocol"
| "protocolFailure ErrMalformed =
     fatalError codeMalformedFrame False ''malformed protocol frame'' closeProtocol"
| "protocolFailure ErrNonCanonical =
     fatalError codeMalformedFrame False ''malformed protocol frame'' closeProtocol"
| "protocolFailure ErrOtherKind =
     fatalError codeMalformedFrame False ''malformed protocol frame'' closeProtocol"

lemma protocolFailure_fatal: "fatal (protocolFailure e)"
  by (cases e) simp_all

text \<open>The source opcode of an error is a byte; \<open>0\<close> where no frame is to blame.\<close>

definition errorFrame :: "int \<Rightarrow> int \<Rightarrow> relayError \<Rightarrow> frame" where
  "errorFrame correlationID sourceOpcode failure =
     \<lparr>Opcode = OpcodeError,
      Payload = [VInt correlationID, VInt sourceOpcode, VInt (err_code failure),
                 VBool (retryable failure), VString (message failure)]\<rparr>"

definition fatalFrame :: "int \<Rightarrow> relayError \<Rightarrow> frame" where
  "fatalFrame sourceOpcode failure =
     \<lparr>Opcode = OpcodeFatal,
      Payload = [VInt sourceOpcode, VInt (err_code failure),
                 VBool (retryable failure), VString (message failure)]\<rparr>"

definition callFailureFrame :: "int \<Rightarrow> int \<Rightarrow> bool \<Rightarrow> string \<Rightarrow> value \<Rightarrow> frame" where
  "callFailureFrame callID c r m details =
     \<lparr>Opcode = OpcodeCallError,
      Payload = [VInt callID, VInt c, VBool r, VString m, details]\<rparr>"

lemma opcode_of_error_frames [simp]:
  "Opcode (errorFrame i op e) = OpcodeError"
  "Opcode (fatalFrame op e) = OpcodeFatal"
  "Opcode (callFailureFrame i c r m d) = OpcodeCallError"
  by (simp_all add: errorFrame_def fatalFrame_def callFailureFrame_def)

text \<open>What a handler leaves behind: nothing to report, an error for the peer, or a panic.\<close>

datatype outcome = Handled | Failed relayError | Panicked

definition outcome_of :: "relayError option \<Rightarrow> outcome" where
  "outcome_of e = (case e of None \<Rightarrow> Handled | Some f \<Rightarrow> Failed f)"

section \<open>Frames that must be encodable\<close>

definition validateFrame :: "protocol \<Rightarrow> frame \<Rightarrow> string \<Rightarrow> relayError option" where
  "validateFrame P f m =
     (if EncodeFrame P f = None then Some (applicationError codeLimitExceeded False m closeLimit)
      else None)"

definition validateEncodable :: "protocol \<Rightarrow> frame \<Rightarrow> relayError option" where
  "validateEncodable P f =
     validateFrame P f ''update would make a required complete frame unencodable''"

definition validateRoutableFrame :: "protocol \<Rightarrow> frame \<Rightarrow> relayError option" where
  "validateRoutableFrame P f =
     validateFrame P f ''forwarded frame would exceed protocol limits''"

lemma validate_None [simp]:
  "validateEncodable P f = None \<longleftrightarrow> EncodeFrame P f \<noteq> None"
  "validateRoutableFrame P f = None \<longleftrightarrow> EncodeFrame P f \<noteq> None"
  by (auto simp: validateEncodable_def validateRoutableFrame_def validateFrame_def)

end
