(* ===== verification/Config.thy ===== *)
theory Config
  imports Frames
begin

text \<open>
  Process configuration (\<open>internal/config/config.go\<close>): defaults, the environment loader and
  the validation that every server passes before it accepts a connection.

  Durations are \<open>int64\<close> nanoseconds, sizes and counts are Go \<open>int\<close>; both are kept as
  \<open>int\<close>. \<open>net/url.Parse\<close>, \<open>time.ParseDuration\<close> and the process environment are the
  arguments \<open>url_parse\<close>, \<open>parse_duration\<close> and \<open>env\<close>.
\<close>

section \<open>Strings\<close>

text \<open>\<open>strings.TrimSpace\<close> on the bytes of a string: white space is ASCII white space or the
  UTF-8 encoding of a Unicode space.\<close>

definition space1 :: "char \<Rightarrow> bool" where
  "space1 c \<longleftrightarrow> (let n = (of_char c :: nat) in (9 \<le> n \<and> n \<le> 13) \<or> n = 32)"

definition space2 :: "char \<Rightarrow> char \<Rightarrow> bool" where
  "space2 c d \<longleftrightarrow> (of_char c :: nat) = 0xC2 \<and> (of_char d :: nat) \<in> {0x85, 0xA0}"

definition space3 :: "char \<Rightarrow> char \<Rightarrow> char \<Rightarrow> bool" where
  "space3 c d e \<longleftrightarrow>
     (let x = (of_char c :: nat); y = (of_char d :: nat); z = (of_char e :: nat) in
        (x = 0xE1 \<and> y = 0x9A \<and> z = 0x80) \<or>
        (x = 0xE2 \<and> y = 0x80 \<and> (0x80 \<le> z \<and> z \<le> 0x8A \<or> z \<in> {0xA8, 0xA9, 0xAF})) \<or>
        (x = 0xE2 \<and> y = 0x81 \<and> z = 0x9F) \<or>
        (x = 0xE3 \<and> y = 0x80 \<and> z = 0x80))"

fun trimLeft :: "string \<Rightarrow> string" where
  "trimLeft [] = []"
| "trimLeft [c] = (if space1 c then [] else [c])"
| "trimLeft [c, d] =
     (if space1 c then trimLeft [d] else if space2 c d then [] else [c, d])"
| "trimLeft (c # d # e # s) =
     (if space1 c then trimLeft (d # e # s)
      else if space2 c d then trimLeft (e # s)
      else if space3 c d e then trimLeft s
      else c # d # e # s)"

fun trimRightRev :: "string \<Rightarrow> string" where
  "trimRightRev [] = []"
| "trimRightRev [c] = (if space1 c then [] else [c])"
| "trimRightRev [c, d] =
     (if space1 c then trimRightRev [d] else if space2 d c then [] else [c, d])"
| "trimRightRev (c # d # e # s) =
     (if space1 c then trimRightRev (d # e # s)
      else if space2 d c then trimRightRev (e # s)
      else if space3 e d c then trimRightRev s
      else c # d # e # s)"

definition TrimSpace :: "string \<Rightarrow> string" where
  "TrimSpace s = rev (trimRightRev (rev (trimLeft s)))"

text \<open>\<open>strings.Split\<close> with a one-byte separator: always at least one part.\<close>

fun splitOn :: "char \<Rightarrow> string \<Rightarrow> string list" where
  "splitOn sep [] = [[]]"
| "splitOn sep (c # s) =
     (if c = sep then [] # splitOn sep s
      else (case splitOn sep s of [] \<Rightarrow> [[c]] | p # ps \<Rightarrow> (c # p) # ps))"

lemma splitOn_nonempty [simp]: "splitOn sep s \<noteq> []"
  by (induction s) (auto split: list.splits)

lemma splitOn_no_sep: "p \<in> set (splitOn sep s) \<Longrightarrow> sep \<notin> set p"
proof (induction s arbitrary: p)
  case (Cons c s)
  then show ?case by (cases "splitOn sep s") (auto split: if_splits)
qed simp

lemma splitOn_id: "sep \<notin> set s \<Longrightarrow> splitOn sep s = [s]"
  by (induction s) auto

section \<open>Configuration\<close>

definition second :: int where "second = 1000000000"

definition defaultMaxQueuedBytes :: int where "defaultMaxQueuedBytes = 1048576"
definition maximumConnections :: int where "maximumConnections = 4096"
definition maximumConnectionAttemptsPerMinute :: int where
  "maximumConnectionAttemptsPerMinute = 65536"
definition maximumTrackedIPs :: int where "maximumTrackedIPs = 65536"
definition maximumHomes :: int where "maximumHomes = 4096"
definition maximumAggregateQueuedBytes :: int where
  "maximumAggregateQueuedBytes = 512 * 1048576"

lemmas config_limits =
  defaultMaxQueuedBytes_def maximumConnections_def maximumConnectionAttemptsPerMinute_def
  maximumTrackedIPs_def maximumHomes_def maximumAggregateQueuedBytes_def

record config =
  ListenAddress :: string
  AllowedOrigins :: "string list"
  Handshake :: int
  WriteTimeout :: int
  PingInterval :: int
  PongTimeout :: int
  DeclarationTTL :: int
  DisconnectGrace :: int
  ShutdownTimeout :: int
  MaxQueuedBytes :: int
  MaxConnections :: int
  MaxConnectionsPerIP :: int
  ConnectionAttemptsPerMinute :: int
  MaxTrackedIPs :: int
  MaxHomes :: int
  MaxAggregateQueuedBytes :: int

definition Default :: config where
  "Default = \<lparr>
     ListenAddress = '':3000'',
     AllowedOrigins = [],
     Handshake = 5 * second,
     WriteTimeout = 5 * second,
     PingInterval = 30 * second,
     PongTimeout = 10 * second,
     DeclarationTTL = 30 * second,
     DisconnectGrace = 30 * second,
     ShutdownTimeout = 10 * second,
     MaxQueuedBytes = defaultMaxQueuedBytes,
     MaxConnections = 256,
     MaxConnectionsPerIP = 32,
     ConnectionAttemptsPerMinute = 120,
     MaxTrackedIPs = 4096,
     MaxHomes = 1024,
     MaxAggregateQueuedBytes = 64 * 1048576 \<rparr>"

text \<open>Each error of the package, with the value its text names.\<close>

datatype configError =
  EmptyListenAddress
| NotPositive string
| QueueLimit | ConnectionLimit | PerIPLimit | AttemptLimit
| TrackedIPLimit | HomeLimit | AggregateLimit
| InvalidOrigin string | NonOriginURL string | NonCanonicalOrigin string
| InvalidAllowedOrigin string
| EnvDuration string
| EnvInteger string

text \<open>The fields of a parsed URL that the code reads; \<open>url_String\<close> is its \<open>String()\<close>.\<close>

record url =
  Scheme :: string
  User :: bool
  Host :: string
  Path :: string
  RawQuery :: string
  Fragment :: string
  RawPath :: string
  Hostname :: string
  Port :: string
  url_String :: string

fun parseOriginParts ::
  "(string \<Rightarrow> url option) \<Rightarrow> string list \<Rightarrow> string list \<Rightarrow> configError + string list" where
  "parseOriginParts url_parse [] origins = Inr origins"
| "parseOriginParts url_parse (part # parts) origins =
     (let candidate = TrimSpace part in
      if candidate = [] then parseOriginParts url_parse parts origins
      else case url_parse candidate of
        None \<Rightarrow> Inl (InvalidOrigin candidate)
      | Some u \<Rightarrow>
          if (Scheme u \<noteq> ''http'' \<and> Scheme u \<noteq> ''https'') \<or> Host u = []
          then Inl (InvalidOrigin candidate)
          else if User u \<or> Path u \<noteq> [] \<or> RawQuery u \<noteq> [] \<or> Fragment u \<noteq> []
          then Inl (NonOriginURL candidate)
          else if url_String u \<noteq> candidate then Inl (NonCanonicalOrigin candidate)
          else parseOriginParts url_parse parts (sadd candidate origins))"

definition parseOrigins :: "(string \<Rightarrow> url option) \<Rightarrow> string \<Rightarrow> configError + string list" where
  "parseOrigins url_parse raw = parseOriginParts url_parse (splitOn CHR '','' raw) []"

text \<open>The checks of \<open>Validate\<close>, in its order; the first that fails is the error.\<close>

fun firstNotPositive :: "(string \<times> int) list \<Rightarrow> configError option" where
  "firstNotPositive [] = None"
| "firstNotPositive ((name, v) # ds) =
     (if v \<le> 0 then Some (NotPositive name) else firstNotPositive ds)"

definition configDurations :: "config \<Rightarrow> (string \<times> int) list" where
  "configDurations cfg =
     [(''handshake timeout'', Handshake cfg), (''write timeout'', WriteTimeout cfg),
      (''ping interval'', PingInterval cfg), (''pong timeout'', PongTimeout cfg),
      (''declaration timeout'', DeclarationTTL cfg),
      (''disconnect grace'', DisconnectGrace cfg),
      (''shutdown timeout'', ShutdownTimeout cfg)]"

fun firstInvalidOrigin :: "(string \<Rightarrow> url option) \<Rightarrow> string list \<Rightarrow> configError option" where
  "firstInvalidOrigin url_parse [] = None"
| "firstInvalidOrigin url_parse (origin # origins) =
     (case parseOrigins url_parse origin of
        Inl _ \<Rightarrow> Some (InvalidAllowedOrigin origin)
      | Inr parsed \<Rightarrow>
          if length parsed \<noteq> 1 then Some (InvalidAllowedOrigin origin)
          else firstInvalidOrigin url_parse origins)"

definition Validate ::
  "protocol \<Rightarrow> (string \<Rightarrow> url option) \<Rightarrow> config \<Rightarrow> configError option" where
  "Validate P url_parse cfg =
     (if TrimSpace (ListenAddress cfg) = [] then Some EmptyListenAddress
      else case firstNotPositive (configDurations cfg) of Some e \<Rightarrow> Some e | None \<Rightarrow>
      if MaxQueuedBytes cfg < MaxFrameBytes P \<or> MaxQueuedBytes cfg > defaultMaxQueuedBytes
      then Some QueueLimit
      else if MaxConnections cfg < 1 \<or> MaxConnections cfg > maximumConnections
      then Some ConnectionLimit
      else if MaxConnectionsPerIP cfg < 1 \<or> MaxConnectionsPerIP cfg > MaxConnections cfg
      then Some PerIPLimit
      else if ConnectionAttemptsPerMinute cfg < MaxConnectionsPerIP cfg \<or>
              ConnectionAttemptsPerMinute cfg > maximumConnectionAttemptsPerMinute
      then Some AttemptLimit
      else if MaxTrackedIPs cfg < 1 \<or> MaxTrackedIPs cfg > maximumTrackedIPs
      then Some TrackedIPLimit
      else if MaxHomes cfg < 1 \<or> MaxHomes cfg > maximumHomes then Some HomeLimit
      else if MaxAggregateQueuedBytes cfg < MaxQueuedBytes cfg \<or>
              MaxAggregateQueuedBytes cfg > maximumAggregateQueuedBytes
      then Some AggregateLimit
      else firstInvalidOrigin url_parse (AllowedOrigins cfg))"

section \<open>The environment\<close>

text \<open>\<open>strconv.ParseInt(s, 10, 64)\<close>, which is also \<open>strconv.Atoi\<close> where an \<open>int\<close> has 64 bits: an optional
  sign, digits, and the range of \<open>int64\<close>.\<close>

fun parseDigits :: "string \<Rightarrow> int \<Rightarrow> int option" where
  "parseDigits [] acc = Some acc"
| "parseDigits (c # s) acc =
     (let n = (of_char c :: int) in
      if 0x30 \<le> n \<and> n \<le> 0x39 then parseDigits s (acc * 10 + (n - 0x30)) else None)"

definition ParseInt :: "string \<Rightarrow> int option" where
  "ParseInt s =
     (let negative = (s \<noteq> [] \<and> hd s = CHR ''-'');
          digits = (if s \<noteq> [] \<and> (hd s = CHR ''-'' \<or> hd s = CHR ''+'') then tl s else s)
      in if digits = [] then None
         else case parseDigits digits 0 of None \<Rightarrow> None | Some n \<Rightarrow>
           let v = (if negative then - n else n) in
           if - (2 ^ 63) \<le> v \<and> v < 2 ^ 63 then Some v else None)"

text \<open>\<open>env\<close> is \<open>os.LookupEnv\<close>; \<open>os.Getenv\<close> is the empty string where it finds nothing.\<close>

definition environment :: "(string \<Rightarrow> string option) \<Rightarrow> string \<Rightarrow> string \<Rightarrow> string" where
  "environment env name fallback = (case env name of None \<Rightarrow> fallback | Some v \<Rightarrow> v)"

definition env_duration ::
  "(string \<Rightarrow> string option) \<Rightarrow> (string \<Rightarrow> int option) \<Rightarrow> string \<Rightarrow> int \<Rightarrow> configError + int" where
  "env_duration env parse_duration name fallback =
     (case env name of None \<Rightarrow> Inr fallback | Some raw \<Rightarrow>
      case parse_duration raw of None \<Rightarrow> Inl (EnvDuration name) | Some v \<Rightarrow>
        if v \<le> 0 then Inl (EnvDuration name) else Inr v)"

definition env_integer ::
  "(string \<Rightarrow> string option) \<Rightarrow> string \<Rightarrow> int \<Rightarrow> int \<Rightarrow> int \<Rightarrow> configError + int" where
  "env_integer env name fallback minimum maximum =
     (case env name of None \<Rightarrow> Inr fallback | Some raw \<Rightarrow>
      case ParseInt raw of None \<Rightarrow> Inl (EnvInteger name) | Some v \<Rightarrow>
        if v < minimum \<or> v > maximum then Inl (EnvInteger name) else Inr v)"

text \<open>The early return of the first error.\<close>

definition on_success :: "'e + 'a \<Rightarrow> ('a \<Rightarrow> 'e + 'b) \<Rightarrow> 'e + 'b" where
  "on_success x k = (case x of Inl e \<Rightarrow> Inl e | Inr v \<Rightarrow> k v)"

definition load_durations ::
  "(string \<Rightarrow> string option) \<Rightarrow> (string \<Rightarrow> int option) \<Rightarrow> config \<Rightarrow> configError + config" where
  "load_durations env parse_duration cfg =
     (let dur = env_duration env parse_duration in
      on_success (dur ''MIAKAPP_HANDSHAKE_TIMEOUT'' (Handshake cfg)) (\<lambda>handshake.
      on_success (dur ''MIAKAPP_WRITE_TIMEOUT'' (WriteTimeout cfg)) (\<lambda>write.
      on_success (dur ''MIAKAPP_PING_INTERVAL'' (PingInterval cfg)) (\<lambda>interval.
      on_success (dur ''MIAKAPP_PONG_TIMEOUT'' (PongTimeout cfg)) (\<lambda>pong.
      on_success (dur ''MIAKAPP_DECLARATION_TIMEOUT'' (DeclarationTTL cfg)) (\<lambda>declaration.
      on_success (dur ''MIAKAPP_DISCONNECT_GRACE'' (DisconnectGrace cfg)) (\<lambda>grace.
      on_success (dur ''MIAKAPP_SHUTDOWN_TIMEOUT'' (ShutdownTimeout cfg)) (\<lambda>shutdown.
        Inr (cfg\<lparr>Handshake := handshake, WriteTimeout := write, PingInterval := interval,
          PongTimeout := pong, DeclarationTTL := declaration, DisconnectGrace := grace,
          ShutdownTimeout := shutdown\<rparr>)))))))))"

definition load_limits ::
  "protocol \<Rightarrow> (string \<Rightarrow> string option) \<Rightarrow> config \<Rightarrow> configError + config" where
  "load_limits P env cfg =
     (let num = env_integer env in
      on_success (num ''MIAKAPP_MAX_QUEUED_BYTES'' (MaxQueuedBytes cfg)
        (MaxFrameBytes P) defaultMaxQueuedBytes) (\<lambda>queued.
      on_success (num ''MIAKAPP_MAX_CONNECTIONS'' (MaxConnections cfg) 1 maximumConnections) (\<lambda>total.
      on_success (num ''MIAKAPP_MAX_CONNECTIONS_PER_IP'' (MaxConnectionsPerIP cfg)
        1 maximumConnections) (\<lambda>each.
      on_success (num ''MIAKAPP_CONNECTION_ATTEMPTS_PER_MINUTE'' (ConnectionAttemptsPerMinute cfg)
        1 maximumConnectionAttemptsPerMinute) (\<lambda>rate.
      on_success (num ''MIAKAPP_MAX_TRACKED_IPS'' (MaxTrackedIPs cfg) 1 maximumTrackedIPs) (\<lambda>tracked.
      on_success (num ''MIAKAPP_MAX_HOMES'' (MaxHomes cfg) 1 maximumHomes) (\<lambda>homes.
      on_success (num ''MIAKAPP_MAX_AGGREGATE_QUEUED_BYTES'' (MaxAggregateQueuedBytes cfg)
        (MaxFrameBytes P) maximumAggregateQueuedBytes) (\<lambda>aggregate.
        Inr (cfg\<lparr>MaxQueuedBytes := queued, MaxConnections := total, MaxConnectionsPerIP := each,
          ConnectionAttemptsPerMinute := rate, MaxTrackedIPs := tracked, MaxHomes := homes,
          MaxAggregateQueuedBytes := aggregate\<rparr>)))))))))"

definition Load ::
  "protocol \<Rightarrow> (string \<Rightarrow> url option) \<Rightarrow> (string \<Rightarrow> int option) \<Rightarrow> (string \<Rightarrow> string option)
     \<Rightarrow> configError + config" where
  "Load P url_parse parse_duration env =
     (let cfg = Default\<lparr>ListenAddress :=
            environment env ''MIAKAPP_LISTEN_ADDRESS'' (ListenAddress Default)\<rparr>
      in on_success (parseOrigins url_parse (environment env ''MIAKAPP_ALLOWED_ORIGINS'' [])) (\<lambda>origins.
         on_success (load_durations env parse_duration (cfg\<lparr>AllowedOrigins := origins\<rparr>)) (\<lambda>cfg.
         on_success (load_limits P env cfg) (\<lambda>cfg.
           case Validate P url_parse cfg of Some e \<Rightarrow> Inl e | None \<Rightarrow> Inr cfg))))"

lemma on_success_Inr [simp]: "on_success x k = Inr b \<longleftrightarrow> (\<exists>a. x = Inr a \<and> k a = Inr b)"
  by (simp add: on_success_def split: sum.split)

lemma Load_Validate: "Load P url_parse parse_duration env = Inr cfg \<Longrightarrow> Validate P url_parse cfg = None"
  by (auto simp: Load_def Let_def split: option.splits)

text \<open>Without any variable set the configuration is the default one.\<close>

lemma Load_defaults:
  assumes "\<And>name. env name = None" "MaxFrameBytes P \<le> defaultMaxQueuedBytes"
  shows "Load P url_parse parse_duration env = Inr Default"
proof -
  have d: "Default\<lparr>AllowedOrigins := []\<rparr> = Default" "Default\<lparr>ListenAddress := '':3000''\<rparr> = Default"
    "ListenAddress Default = '':3000''" by (simp_all add: Default_def)
  have v: "Validate P url_parse Default = None"
    using assms(2) by (simp add: Validate_def Default_def configDurations_def second_def config_limits
        TrimSpace_def space1_def space2_def space3_def)
  have o: "parseOrigins url_parse [] = Inr []" by (simp add: parseOrigins_def TrimSpace_def)
  show ?thesis
    by (simp add: Load_def load_durations_def load_limits_def env_duration_def env_integer_def
        environment_def on_success_def assms(1) d o v)
qed

text \<open>An origin that \<open>parseOrigins\<close> accepts: absolute, nothing but scheme and host, in its canonical
  form.\<close>

definition canonical_origin :: "(string \<Rightarrow> url option) \<Rightarrow> string \<Rightarrow> bool" where
  "canonical_origin url_parse origin \<longleftrightarrow> origin \<noteq> [] \<and>
     (case url_parse origin of None \<Rightarrow> False
      | Some u \<Rightarrow> (Scheme u = ''http'' \<or> Scheme u = ''https'') \<and> Host u \<noteq> [] \<and> \<not> User u \<and>
          Path u = [] \<and> RawQuery u = [] \<and> Fragment u = [] \<and> url_String u = origin)"

lemma parseOriginParts_canonical:
  "parseOriginParts url_parse parts origins = Inr parsed \<Longrightarrow>
   \<forall>origin \<in> set origins. canonical_origin url_parse origin \<Longrightarrow>
   \<forall>origin \<in> set parsed. canonical_origin url_parse origin"
proof (induction parts arbitrary: origins)
  case (Cons part parts)
  show ?case
  proof (cases "TrimSpace part = []")
    case True
    then show ?thesis using Cons by simp
  next
    case False
    then obtain u where u: "url_parse (TrimSpace part) = Some u" "canonical_origin url_parse (TrimSpace part)"
      "parseOriginParts url_parse parts (sadd (TrimSpace part) origins) = Inr parsed"
      using Cons.prems(1) by (auto simp: canonical_origin_def Let_def split: option.splits if_splits)
    show ?thesis by (rule Cons.IH [OF u(3)]) (use u(2) Cons.prems(2) in auto)
  qed
qed simp

lemma parseOrigins_canonical:
  "parseOrigins url_parse raw = Inr parsed \<Longrightarrow> \<forall>origin \<in> set parsed. canonical_origin url_parse origin"
  unfolding parseOrigins_def by (erule parseOriginParts_canonical) simp

lemma load_durations_origins:
  "load_durations env parse_duration cfg = Inr cfg' \<Longrightarrow> AllowedOrigins cfg' = AllowedOrigins cfg"
  by (auto simp: load_durations_def Let_def)

lemma load_limits_origins:
  "load_limits P env cfg = Inr cfg' \<Longrightarrow> AllowedOrigins cfg' = AllowedOrigins cfg"
  by (auto simp: load_limits_def Let_def)

lemma Load_origins:
  assumes "Load P url_parse parse_duration env = Inr cfg"
  shows "\<forall>origin \<in> set (AllowedOrigins cfg). canonical_origin url_parse origin"
proof -
  obtain origins c1 where o: "parseOrigins url_parse (environment env ''MIAKAPP_ALLOWED_ORIGINS'' []) = Inr origins"
    "load_durations env parse_duration (Default\<lparr>ListenAddress :=
       environment env ''MIAKAPP_LISTEN_ADDRESS'' (ListenAddress Default), AllowedOrigins := origins\<rparr>) = Inr c1"
    "load_limits P env c1 = Inr cfg"
    using assms by (auto simp: Load_def Let_def split: option.splits)
  from load_durations_origins [OF o(2)] load_limits_origins [OF o(3)] parseOrigins_canonical [OF o(1)]
  show ?thesis by simp
qed

section \<open>What validation guarantees\<close>

text \<open>What a validated configuration guarantees to the rest of the relay.\<close>

definition config_ok :: "protocol \<Rightarrow> config \<Rightarrow> bool" where
  "config_ok P cfg \<longleftrightarrow>
     MaxFrameBytes P \<le> MaxQueuedBytes cfg \<and>
     MaxQueuedBytes cfg \<le> MaxAggregateQueuedBytes cfg \<and>
     1 \<le> MaxConnectionsPerIP cfg \<and> MaxConnectionsPerIP cfg \<le> MaxConnections cfg \<and>
     MaxConnectionsPerIP cfg \<le> ConnectionAttemptsPerMinute cfg \<and>
     1 \<le> MaxTrackedIPs cfg \<and> 1 \<le> MaxHomes cfg"

lemma Validate_ok: "Validate P url_parse cfg = None \<Longrightarrow> config_ok P cfg"
  by (auto simp: Validate_def config_ok_def split: option.splits if_splits)

lemma firstNotPositive_None: "firstNotPositive ds = None \<longleftrightarrow> (\<forall>d \<in> set ds. 0 < snd d)"
  by (induction ds rule: firstNotPositive.induct) auto

lemma Validate_durations:
  "Validate P url_parse cfg = None \<Longrightarrow> \<forall>d \<in> set (configDurations cfg). 0 < snd d"
  by (auto simp: Validate_def firstNotPositive_None split: option.splits if_splits)

end
