(* ===== verification/Admission.thy ===== *)
theory Admission
  imports Config
begin

text \<open>
  Process admission (\<open>internal/relay/admission.go\<close>): the active-connection and
  attempt-per-minute ceilings of one source address, the process-wide connection and tracked
  source ceilings, and the shared budget of queued bytes.

  The controller is a record, each method a function on it, with the clock reading \<open>now\<close> (in
  nanoseconds) as an argument. \<open>net.SplitHostPort\<close> and \<open>netip.ParseAddr\<close> are the arguments
  \<open>split_host_port\<close> and \<open>parse_addr\<close>; what the code does with the parsed address (the zone
  test and \<open>Unmap\<close>) is written out.
\<close>

section \<open>Source addresses\<close>

datatype addr = IPv4 "32 word" | IPv6 "128 word" string

fun Zone :: "addr \<Rightarrow> string" where
  "Zone (IPv4 _) = []"
| "Zone (IPv6 _ z) = z"

text \<open>\<open>Unmap\<close> turns an IPv4-mapped IPv6 address into the IPv4 address.\<close>

fun Unmap :: "addr \<Rightarrow> addr" where
  "Unmap (IPv4 a) = IPv4 a"
| "Unmap (IPv6 a z) = (if drop_bit 32 a = 0xFFFF then IPv4 (ucast a) else IPv6 a z)"

datatype admissionError =
  errInvalidSourceAddress | errConnectionRate | errConnectionCapacity

record netlib =
  split_host_port :: "string \<Rightarrow> (string \<times> string) option"
  parse_addr :: "string \<Rightarrow> addr option"

definition canonicalRemoteIP :: "netlib \<Rightarrow> string \<Rightarrow> admissionError + addr" where
  "canonicalRemoteIP N remoteAddress =
     (case split_host_port N remoteAddress of
        None \<Rightarrow> Inl errInvalidSourceAddress
      | Some (host, _) \<Rightarrow>
          (case parse_addr N host of
             None \<Rightarrow> Inl errInvalidSourceAddress
           | Some a \<Rightarrow>
               if Zone a \<noteq> [] then Inl errInvalidSourceAddress else Inr (Unmap a)))"

section \<open>The controller\<close>

definition connectionAttemptWindow :: int where
  "connectionAttemptWindow = 60 * second"

record sourceAdmission =
  windowStartedAt :: int
  attempts :: int
  src_active :: int

record admissionController =
  sources :: "(addr \<times> sourceAdmission) list"
  activeConnections :: int
  adm_queuedBytes :: int

definition newAdmissionController :: admissionController where
  "newAdmissionController = \<lparr>sources = [], activeConnections = 0, adm_queuedBytes = 0\<rparr>"

definition pruneSourcesLocked :: "int \<Rightarrow> admissionController \<Rightarrow> admissionController" where
  "pruneSourcesLocked now A =
     A\<lparr>sources := filter (\<lambda>(_, cur).
        \<not> (src_active cur = 0 \<and> \<not> now < windowStartedAt cur + connectionAttemptWindow))
        (sources A)\<rparr>"

text \<open>Lines 88-100 of \<open>acquireConnection\<close>: the entry of the source, created if there is room.\<close>

definition trackSource ::
  "config \<Rightarrow> int \<Rightarrow> addr \<Rightarrow> admissionController
     \<Rightarrow> sourceAdmission option \<times> admissionController" where
  "trackSource cfg now source A =
     (case get (sources A) source of
        Some cur \<Rightarrow> (Some cur, A)
      | None \<Rightarrow>
          let A' = (if int (length (sources A)) \<ge> MaxTrackedIPs cfg
                    then pruneSourcesLocked now A else A)
          in if int (length (sources A')) \<ge> MaxTrackedIPs cfg then (None, A')
             else let cur = \<lparr>windowStartedAt = now, attempts = 0, src_active = 0\<rparr>
                  in (Some cur, A'\<lparr>sources := put source cur (sources A')\<rparr>))"

text \<open>Lines 101-105: a new window when the minute is over, or the clock went back.\<close>

definition rollWindow :: "int \<Rightarrow> sourceAdmission \<Rightarrow> sourceAdmission" where
  "rollWindow now cur =
     (if now < windowStartedAt cur \<or> \<not> now < windowStartedAt cur + connectionAttemptWindow
      then cur\<lparr>windowStartedAt := now, attempts := 0\<rparr> else cur)"

definition setSource ::
  "addr \<Rightarrow> sourceAdmission \<Rightarrow> admissionController \<Rightarrow> admissionController" where
  "setSource source cur A = A\<lparr>sources := put source cur (sources A)\<rparr>"

definition acquireConnection ::
  "config \<Rightarrow> netlib \<Rightarrow> int \<Rightarrow> string \<Rightarrow> admissionController
     \<Rightarrow> (admissionError + addr) \<times> admissionController" where
  "acquireConnection cfg N now remoteAddress A =
     (case canonicalRemoteIP N remoteAddress of
        Inl e \<Rightarrow> (Inl e, A)
      | Inr source \<Rightarrow>
          (case trackSource cfg now source A of
             (None, A1) \<Rightarrow> (Inl errConnectionCapacity, A1)
           | (Some cur0, A1) \<Rightarrow>
               let cur = rollWindow now cur0 in
               if attempts cur \<ge> ConnectionAttemptsPerMinute cfg
               then (Inl errConnectionRate, setSource source cur A1)
               else let cur = cur\<lparr>attempts := attempts cur + 1\<rparr> in
               if src_active cur \<ge> MaxConnectionsPerIP cfg \<or>
                  activeConnections A1 \<ge> MaxConnections cfg
               then (Inl errConnectionCapacity, setSource source cur A1)
               else (Inr source,
                     (setSource source (cur\<lparr>src_active := src_active cur + 1\<rparr>) A1)
                       \<lparr>activeConnections := activeConnections A1 + 1\<rparr>)))"

definition releaseConnection :: "int \<Rightarrow> addr \<Rightarrow> admissionController \<Rightarrow> admissionController" where
  "releaseConnection now source A =
     (case get (sources A) source of
        None \<Rightarrow> A
      | Some cur \<Rightarrow>
          if src_active cur \<le> 0 \<or> activeConnections A \<le> 0 then A
          else let cur = cur\<lparr>src_active := src_active cur - 1\<rparr>;
                   A = A\<lparr>activeConnections := activeConnections A - 1\<rparr>
               in if src_active cur = 0 \<and> \<not> now < windowStartedAt cur + connectionAttemptWindow
                  then A\<lparr>sources := del source (sources A)\<rparr>
                  else setSource source cur A)"

text \<open>The admission token of one connection, released at most once.\<close>

record connectionAdmission =
  token_source :: addr
  token_once :: bool

definition release ::
  "int \<Rightarrow> connectionAdmission \<times> admissionController
     \<Rightarrow> connectionAdmission \<times> admissionController" where
  "release now s =
     (case s of (t, A) \<Rightarrow>
        if token_once t then (t, A)
        else (t\<lparr>token_once := True\<rparr>, releaseConnection now (token_source t) A))"

definition reserveQueuedBytes ::
  "config \<Rightarrow> int \<Rightarrow> admissionController \<Rightarrow> bool \<times> admissionController" where
  "reserveQueuedBytes cfg n A =
     (if n < 0 then (False, A)
      else if n > MaxAggregateQueuedBytes cfg - adm_queuedBytes A then (False, A)
      else (True, A\<lparr>adm_queuedBytes := adm_queuedBytes A + n\<rparr>))"

definition releaseQueuedBytes ::
  "int \<Rightarrow> admissionController \<Rightarrow> bool \<times> admissionController" where
  "releaseQueuedBytes n A =
     (if n < 0 \<or> n > adm_queuedBytes A then (False, A)
      else (True, A\<lparr>adm_queuedBytes := adm_queuedBytes A - n\<rparr>))"

section \<open>The invariant\<close>

definition source_ok :: "config \<Rightarrow> sourceAdmission \<Rightarrow> bool" where
  "source_ok cfg cur \<longleftrightarrow>
     0 \<le> attempts cur \<and> attempts cur \<le> ConnectionAttemptsPerMinute cfg \<and>
     0 \<le> src_active cur \<and> src_active cur \<le> MaxConnectionsPerIP cfg"

definition admission_inv :: "config \<Rightarrow> admissionController \<Rightarrow> bool" where
  "admission_inv cfg A \<longleftrightarrow>
     wf_map (sources A) \<and>
     int (length (sources A)) \<le> MaxTrackedIPs cfg \<and>
     (\<forall>p \<in> set (sources A). source_ok cfg (snd p)) \<and>
     activeConnections A = msum src_active (sources A) \<and>
     activeConnections A \<le> MaxConnections cfg \<and>
     0 \<le> adm_queuedBytes A \<and> adm_queuedBytes A \<le> MaxAggregateQueuedBytes cfg"

lemma admission_inv_source:
  "admission_inv cfg A \<Longrightarrow> get (sources A) s = Some cur \<Longrightarrow> source_ok cfg cur"
  by (force simp: admission_inv_def dest: map_of_SomeD)

lemma admission_inv_active_nonneg: "admission_inv cfg A \<Longrightarrow> 0 \<le> activeConnections A"
  by (auto simp: admission_inv_def source_ok_def intro!: msum_nonneg)

lemma admission_inv_new: "config_ok P cfg \<Longrightarrow> 0 \<le> MaxFrameBytes P \<Longrightarrow>
    admission_inv cfg newAdmissionController"
  by (simp add: admission_inv_def newAdmissionController_def config_ok_def)

lemma prune_inv: "admission_inv cfg A \<Longrightarrow> admission_inv cfg (pruneSourcesLocked now A)"
proof -
  let ?keep = "\<lambda>(_, cur).
     \<not> (src_active cur = 0 \<and> \<not> now < windowStartedAt cur + connectionAttemptWindow)"
  assume inv: "admission_inv cfg A"
  have "msum src_active (filter ?keep (sources A)) = msum src_active (sources A)"
    by (rule msum_filter_zero) auto
  moreover have "int (length (filter ?keep (sources A))) \<le> MaxTrackedIPs cfg"
    using inv length_filter_le [of ?keep "sources A"]
    by (auto simp: admission_inv_def simp del: length_filter_le)
  ultimately show ?thesis using inv
    by (auto simp: admission_inv_def pruneSourcesLocked_def)
qed

lemma trackSource_inv:
  assumes "trackSource cfg now s A = (r, A')" "admission_inv cfg A"
    and "0 \<le> ConnectionAttemptsPerMinute cfg" "0 \<le> MaxConnectionsPerIP cfg"
  shows "admission_inv cfg A'"
proof (cases "get (sources A) s")
  case None
  let ?B = "if int (length (sources A)) \<ge> MaxTrackedIPs cfg then pruneSourcesLocked now A else A"
  have B: "admission_inv cfg ?B" using assms(2) by (simp add: prune_inv)
  have fresh: "get (sources ?B) s = None"
    using None by (auto simp: get_None_keys pruneSourcesLocked_def)
  show ?thesis
  proof (cases "int (length (sources ?B)) \<ge> MaxTrackedIPs cfg")
    case True
    then show ?thesis using assms(1) None B by (simp add: trackSource_def Let_def)
  next
    case False
    let ?cur = "\<lparr>windowStartedAt = now, attempts = 0, src_active = 0\<rparr>"
    have A': "A' = ?B\<lparr>sources := put s ?cur (sources ?B)\<rparr>"
      using assms(1) None False by (simp add: trackSource_def Let_def)
    have "\<forall>p \<in> set (put s ?cur (sources ?B)). source_ok cfg (snd p)"
      using B assms(3,4) set_put_subset [of s ?cur "sources ?B"]
      by (force simp: admission_inv_def source_ok_def)
    moreover have "msum src_active (put s ?cur (sources ?B)) = msum src_active (sources ?B)"
      using fresh by (simp add: msum_put_new)
    ultimately show ?thesis using B False fresh unfolding A'
      by (auto simp: admission_inv_def length_put get_None_keys simp del: set_map)
  qed
qed (use assms in \<open>simp add: trackSource_def\<close>)

lemma trackSource_get: "trackSource cfg now s A = (Some cur, A') \<Longrightarrow> get (sources A') s = Some cur"
  by (auto simp: trackSource_def Let_def split: option.splits if_splits)

lemma trackSource_active:
  "trackSource cfg now s A = (r, A') \<Longrightarrow> activeConnections A' = activeConnections A"
  by (auto simp: trackSource_def pruneSourcesLocked_def Let_def split: option.splits if_splits)

text \<open>Replacing the entry of a tracked source by one with \<open>d\<close> more active connections.\<close>

lemma setSource_inv:
  assumes "admission_inv cfg A" "get (sources A) s = Some old" "source_ok cfg cur"
    and "src_active cur = src_active old + d" "activeConnections A + d \<le> MaxConnections cfg"
  shows "admission_inv cfg ((setSource s cur A)\<lparr>activeConnections := activeConnections A + d\<rparr>)"
proof -
  have "\<forall>p \<in> set (put s cur (sources A)). source_ok cfg (snd p)"
    using assms(1,3) set_put_subset [of s cur "sources A"] by (force simp: admission_inv_def)
  moreover have "s \<in> set (keys (sources A))" using assms(2) by (rule get_in_keys)
  ultimately show ?thesis using assms(1,2,4,5)
    by (auto simp: admission_inv_def setSource_def length_put msum_put_old simp del: set_map)
qed

lemma setSource_inv0:
  assumes "admission_inv cfg A" "get (sources A) s = Some old" "source_ok cfg cur"
    and "src_active cur = src_active old"
  shows "admission_inv cfg (setSource s cur A)"
  using setSource_inv [OF assms(1-3), where d = 0] assms(1,4)
  by (simp add: admission_inv_def setSource_def)

lemma rollWindow_simps [simp]: "src_active (rollWindow now cur) = src_active cur"
  by (simp add: rollWindow_def)

lemma rollWindow_ok:
  "source_ok cfg cur \<Longrightarrow> 0 \<le> ConnectionAttemptsPerMinute cfg \<Longrightarrow> source_ok cfg (rollWindow now cur)"
  by (simp add: rollWindow_def source_ok_def)

lemma acquire_inv:
  assumes inv: "admission_inv cfg A"
    and cfg: "0 \<le> ConnectionAttemptsPerMinute cfg" "0 \<le> MaxConnectionsPerIP cfg"
  shows "admission_inv cfg (snd (acquireConnection cfg N now remote A))"
proof (cases "canonicalRemoteIP N remote")
  case (Inr s)
  obtain r A1 where t: "trackSource cfg now s A = (r, A1)" by (meson surj_pair)
  have inv1: "admission_inv cfg A1" using trackSource_inv [OF t inv cfg] .
  show ?thesis
  proof (cases r)
    case (Some cur0)
    have g: "get (sources A1) s = Some cur0" using t Some by (simp add: trackSource_get)
    have ok: "source_ok cfg (rollWindow now cur0)"
      using admission_inv_source [OF inv1 g] cfg(1) by (rule rollWindow_ok)
    note set0 = setSource_inv0 [OF inv1 g]
    note set1 = setSource_inv [OF inv1 g, where d = 1]
    show ?thesis using ok
      by (auto simp: acquireConnection_def Inr t Some Let_def source_ok_def
          intro!: set0 set1)
  qed (simp add: acquireConnection_def Inr t inv1)
qed (simp add: acquireConnection_def inv)

lemma releaseConnection_inv:
  assumes inv: "admission_inv cfg A"
  shows "admission_inv cfg (releaseConnection now s A)"
proof (cases "get (sources A) s")
  case (Some cur)
  let ?cur = "cur\<lparr>src_active := src_active cur - 1\<rparr>"
  have ok: "source_ok cfg cur" by (rule admission_inv_source [OF inv Some])
  show ?thesis
  proof (cases "src_active cur \<le> 0 \<or> activeConnections A \<le> 0")
    case False
    have set: "admission_inv cfg ((setSource s ?cur A)\<lparr>activeConnections := activeConnections A + (-1)\<rparr>)"
      using inv ok False by (intro setSource_inv [OF inv Some]) (auto simp: source_ok_def admission_inv_def)
    have wf: "wf_map (sources A)" using inv by (simp add: admission_inv_def)
    have del: "msum src_active (del s (sources A)) = msum src_active (sources A) - src_active cur"
      using wf Some by (rule msum_del)
    have sub: "set (del s (sources A)) \<subseteq> set (sources A)" by (auto simp: set_del)
    show ?thesis
      using inv set False del sub length_delete_le [of s "sources A"]
      by (auto simp: releaseConnection_def Some Let_def admission_inv_def setSource_def wf
          simp del: set_map)
  qed (use inv in \<open>auto simp: releaseConnection_def Some\<close>)
qed (use inv in \<open>simp add: releaseConnection_def\<close>)

lemma reserve_inv: "admission_inv cfg A \<Longrightarrow> admission_inv cfg (snd (reserveQueuedBytes cfg n A))"
  by (auto simp: reserveQueuedBytes_def admission_inv_def)

lemma releaseBytes_inv: "admission_inv cfg A \<Longrightarrow> admission_inv cfg (snd (releaseQueuedBytes n A))"
  by (auto simp: releaseQueuedBytes_def admission_inv_def)

section \<open>Histories\<close>

text \<open>What callers do to the controller: connections arrive and leave, queues grow and
  shrink.\<close>

datatype admissionEvent =
  Acquire int string | ReleaseConn int addr | Reserve int | ReleaseBytes int

fun adm_step :: "config \<Rightarrow> netlib \<Rightarrow> admissionEvent \<Rightarrow> admissionController \<Rightarrow> admissionController"
where
  "adm_step cfg N (Acquire now remote) A = snd (acquireConnection cfg N now remote A)"
| "adm_step cfg N (ReleaseConn now s) A = releaseConnection now s A"
| "adm_step cfg N (Reserve n) A = snd (reserveQueuedBytes cfg n A)"
| "adm_step cfg N (ReleaseBytes n) A = snd (releaseQueuedBytes n A)"

definition admission_ok :: "config \<Rightarrow> admissionController \<Rightarrow> bool" where
  "admission_ok cfg A \<longleftrightarrow>
     0 \<le> ConnectionAttemptsPerMinute cfg \<and> 0 \<le> MaxConnectionsPerIP cfg \<and> admission_inv cfg A"

lemma adm_step_ok: "admission_ok cfg A \<Longrightarrow> admission_ok cfg (adm_step cfg N e A)"
  by (cases e)
    (simp_all add: admission_ok_def acquire_inv releaseConnection_inv reserve_inv releaseBytes_inv)

interpretation adm: event_machine "admission_ok cfg" "adm_step cfg N" for cfg N
  by unfold_locales (rule adm_step_ok)

interpretation adm_release: once_guard "\<lambda>s. token_once (fst s)" "release now" for now
  by unfold_locales (auto simp: release_def split: prod.splits)

subsection \<open>One window of one source\<close>

fun eventTime :: "admissionEvent \<Rightarrow> int option" where
  "eventTime (Acquire now _) = Some now"
| "eventTime (ReleaseConn now _) = Some now"
| "eventTime _ = None"

definition inWindow :: "int \<Rightarrow> admissionEvent \<Rightarrow> bool" where
  "inWindow t0 e \<longleftrightarrow>
     (case eventTime e of None \<Rightarrow> True | Some t \<Rightarrow> t0 \<le> t \<and> t < t0 + connectionAttemptWindow)"

text \<open>How many acquisitions of \<open>s\<close> a history grants.\<close>

fun granted :: "config \<Rightarrow> netlib \<Rightarrow> addr \<Rightarrow> admissionEvent list \<Rightarrow> admissionController \<Rightarrow> nat" where
  "granted cfg N s [] A = 0"
| "granted cfg N s (e # es) A =
     (case e of Acquire now remote \<Rightarrow>
        if fst (acquireConnection cfg N now remote A) = Inr s then 1 else 0
      | _ \<Rightarrow> 0) + granted cfg N s es (adm_step cfg N e A)"

text \<open>The entry of a source whose window is not over stays, and only its own acquisitions
  count against it.\<close>

lemma prune_keeps:
  assumes "wf_map (sources A)" "get (sources A) s = Some cur"
    and "now < windowStartedAt cur + connectionAttemptWindow"
  shows "get (sources (pruneSourcesLocked now A)) s = Some cur"
proof -
  have "(s, cur) \<in> set (sources (pruneSourcesLocked now A))"
    using assms by (auto simp: pruneSourcesLocked_def dest: map_of_SomeD)
  moreover have "wf_map (sources (pruneSourcesLocked now A))"
    using assms(1) by (auto simp: pruneSourcesLocked_def)
  ultimately show ?thesis by simp
qed

lemma trackSource_keeps:
  assumes "trackSource cfg now s' A = (r, A')" "wf_map (sources A)"
    and "get (sources A) s = Some cur" "now < windowStartedAt cur + connectionAttemptWindow"
  shows "get (sources A') s = Some cur"
  using assms prune_keeps [OF assms(2-4)]
  by (auto simp: trackSource_def Let_def split: option.splits if_splits)

lemma acquire_in_window:
  assumes wf: "wf_map (sources A)" and cur: "get (sources A) s = Some cur"
    and win: "windowStartedAt cur \<le> now" "now < windowStartedAt cur + connectionAttemptWindow"
  shows "\<exists>cur'. get (sources (snd (acquireConnection cfg N now remote A))) s = Some cur' \<and>
      windowStartedAt cur' = windowStartedAt cur \<and> attempts cur \<le> attempts cur' \<and>
      (fst (acquireConnection cfg N now remote A) = Inr s \<longrightarrow>
         attempts cur' = attempts cur + 1 \<and> attempts cur < ConnectionAttemptsPerMinute cfg)"
proof (cases "canonicalRemoteIP N remote")
  case (Inr s')
  obtain r A1 where t: "trackSource cfg now s' A = (r, A1)" by (meson surj_pair)
  have keep: "get (sources A1) s = Some cur" by (rule trackSource_keeps [OF t wf cur win(2)])
  show ?thesis
  proof (cases r)
    case (Some c)
    show ?thesis
    proof (cases "s' = s")
      case True
      have "c = cur" using trackSource_get t Some keep True by fastforce
      then show ?thesis using win
        by (auto simp: acquireConnection_def Inr [unfolded True] t [unfolded True Some] Let_def
            setSource_def rollWindow_def)
    next
      case False
      then show ?thesis using keep
        by (auto simp: acquireConnection_def Inr t Some Let_def setSource_def)
    qed
  qed (simp add: acquireConnection_def Inr t keep)
qed (simp add: acquireConnection_def cur)

lemma release_in_window:
  assumes "get (sources A) s = Some cur" "now < windowStartedAt cur + connectionAttemptWindow"
  shows "\<exists>cur'. get (sources (releaseConnection now s' A)) s = Some cur' \<and>
      windowStartedAt cur' = windowStartedAt cur \<and> attempts cur' = attempts cur"
  using assms by (auto simp: releaseConnection_def Let_def setSource_def split: option.splits)

lemma granted_bound:
  assumes "admission_ok cfg A" "get (sources A) s = Some cur"
    and "\<forall>e \<in> set es. inWindow (windowStartedAt cur) e"
  shows "int (granted cfg N s es A) \<le> ConnectionAttemptsPerMinute cfg - attempts cur"
  using assms
proof (induction es arbitrary: A cur)
  case Nil
  then show ?case using admission_inv_source [of cfg A s cur]
    by (auto simp: admission_ok_def source_ok_def)
next
  case (Cons e es)
  have wf: "wf_map (sources A)" using Cons.prems(1) by (simp add: admission_ok_def admission_inv_def)
  have ok: "admission_ok cfg (adm_step cfg N e A)" using Cons.prems(1) by (rule adm_step_ok)
  have win: "inWindow (windowStartedAt cur) e" using Cons.prems(3) by simp
  have IH: "int (granted cfg N s es (adm_step cfg N e A))
      \<le> ConnectionAttemptsPerMinute cfg - attempts cur'"
    if "get (sources (adm_step cfg N e A)) s = Some cur'" "windowStartedAt cur' = windowStartedAt cur"
    for cur'
    using Cons.IH [OF ok that(1)] Cons.prems(3) that(2) by simp
  show ?case
  proof (cases e)
    case (Acquire now remote)
    obtain cur' where "get (sources (adm_step cfg N e A)) s = Some cur'"
        "windowStartedAt cur' = windowStartedAt cur" "attempts cur \<le> attempts cur'"
        "fst (acquireConnection cfg N now remote A) = Inr s \<longrightarrow> attempts cur' = attempts cur + 1"
      using acquire_in_window [OF wf Cons.prems(2), of now cfg N remote] win Acquire
      by (auto simp: inWindow_def)
    with IH [of cur'] show ?thesis by (auto simp: Acquire)
  next
    case (ReleaseConn now s')
    obtain cur' where "get (sources (adm_step cfg N e A)) s = Some cur'"
        "windowStartedAt cur' = windowStartedAt cur" "attempts cur' = attempts cur"
      using release_in_window [OF Cons.prems(2), of now s'] win ReleaseConn
      by (auto simp: inWindow_def)
    with IH [of cur'] show ?thesis by (simp add: ReleaseConn)
  next
    case (Reserve n)
    with IH [of cur] Cons.prems(2) show ?thesis by (simp add: reserveQueuedBytes_def)
  next
    case (ReleaseBytes n)
    with IH [of cur] Cons.prems(2) show ?thesis by (simp add: releaseQueuedBytes_def)
  qed
qed

text \<open>Acquiring a slot and releasing it later in the same window gives the counters back.\<close>

lemma acquire_release_counts:
  assumes inv: "admission_inv cfg A" and acq: "acquireConnection cfg N now remote A = (Inr s, A')"
  shows "activeConnections (releaseConnection now' s A') = activeConnections A"
proof -
  obtain c where c: "get (sources A') s = Some c" "0 < src_active c"
      and n: "activeConnections A' = activeConnections A + 1"
  proof -
    obtain s' r A1 where s': "canonicalRemoteIP N remote = Inr s'"
        and t: "trackSource cfg now s' A = (r, A1)" and r: "r \<noteq> None"
      using acq by (auto simp: acquireConnection_def split: sum.splits option.splits prod.splits)
    then obtain cur0 where r: "r = Some cur0" by blast
    have cur0: "get (sources A1) s' = Some cur0" using t r by (simp add: trackSource_get)
    have "source_ok cfg cur0"
    proof (cases "get (sources A) s'")
      case None
      then show ?thesis using t r inv acq
        by (auto simp: trackSource_def Let_def source_ok_def acquireConnection_def s' rollWindow_def
            split: if_splits)
    next
      case (Some u)
      then show ?thesis using t r inv admission_inv_source by (auto simp: trackSource_def)
    qed
    then have "0 \<le> src_active cur0" by (simp add: source_ok_def)
    with acq t r that show ?thesis using trackSource_active [OF t]
      by (auto simp: acquireConnection_def s' Let_def setSource_def split: if_splits)
  qed
  have "0 \<le> activeConnections A" by (rule admission_inv_active_nonneg [OF inv])
  with c n show ?thesis by (auto simp: releaseConnection_def Let_def setSource_def)
qed

end
