(* ===== verification/Identity.thy ===== *)
theory Identity
  imports Frames
begin

text \<open>
  The authentication boundary (\<open>internal/auth/auth.go\<close>): the request a connection makes, the
  identity a verifier returns for it, and \<open>ValidateBinding\<close>, which ties the two together
  before the relay believes the identity.

  Instants are nanoseconds since the Unix epoch. A Go string is its bytes, so lengths count
  bytes; \<open>decode_runes\<close> is the UTF-8 decoding of the standard library (\<open>None\<close> where
  \<open>utf8.ValidString\<close> is false).
\<close>

section \<open>UTF-8\<close>

definition cont :: "nat \<Rightarrow> bool" where "cont b \<longleftrightarrow> 0x80 \<le> b \<and> b \<le> 0xBF"

fun second_ok :: "nat \<Rightarrow> nat \<Rightarrow> bool" where
  "second_ok b c =
     (if b = 0xE0 then 0xA0 \<le> c \<and> c \<le> 0xBF
      else if b = 0xED then 0x80 \<le> c \<and> c \<le> 0x9F
      else if b = 0xF0 then 0x90 \<le> c \<and> c \<le> 0xBF
      else if b = 0xF4 then 0x80 \<le> c \<and> c \<le> 0x8F
      else cont c)"

fun decode_runes :: "nat list \<Rightarrow> nat list option" where
  "decode_runes [] = Some []"
| "decode_runes (b # bs) =
     (if b < 0x80 then map_option (\<lambda>rs. b # rs) (decode_runes bs)
      else case bs of
        [] \<Rightarrow> None
      | c # cs \<Rightarrow>
          if 0xC2 \<le> b \<and> b \<le> 0xDF then
            (if cont c
             then map_option (\<lambda>rs. ((b - 0xC0) * 0x40 + (c - 0x80)) # rs) (decode_runes cs)
             else None)
          else (case cs of
            [] \<Rightarrow> None
          | d # ds \<Rightarrow>
              if 0xE0 \<le> b \<and> b \<le> 0xEF then
                (if second_ok b c \<and> cont d
                 then map_option
                   (\<lambda>rs. ((b - 0xE0) * 0x1000 + (c - 0x80) * 0x40 + (d - 0x80)) # rs)
                   (decode_runes ds)
                 else None)
              else (case ds of
                [] \<Rightarrow> None
              | e # es \<Rightarrow>
                  if 0xF0 \<le> b \<and> b \<le> 0xF4 \<and> second_ok b c \<and> cont d \<and> cont e
                  then map_option
                    (\<lambda>rs. ((b - 0xF0) * 0x40000 + (c - 0x80) * 0x1000 +
                           (d - 0x80) * 0x40 + (e - 0x80)) # rs)
                    (decode_runes es)
                  else None)))"

definition runes :: "string \<Rightarrow> nat list option" where
  "runes s = decode_runes (map of_char s)"

definition IsControl :: "nat \<Rightarrow> bool" where
  "IsControl r \<longleftrightarrow> r < 0x20 \<or> (0x7F \<le> r \<and> r < 0xA0)"

definition validIdentityValue :: "string \<Rightarrow> nat \<Rightarrow> bool" where
  "validIdentityValue v maximumBytes =
     (if v = [] \<or> length v > maximumBytes then False
      else case runes v of None \<Rightarrow> False | Some rs \<Rightarrow> \<not> list_ex IsControl rs)"

section \<open>Requests and identities\<close>

definition RoleUser :: int where [simp]: "RoleUser = 1"
definition RoleCoordinator :: int where [simp]: "RoleCoordinator = 2"
definition RoleCLI :: int where [simp]: "RoleCLI = 3"

record request =
  req_Role :: int
  Token :: string
  req_HomeID :: string
  req_CoordinatorName :: string

record identity =
  Role :: int
  HomeID :: string
  ID :: string
  ClientID :: string
  CoordinatorName :: string
  VerifiedEmail :: string
  ExpiresAt :: int
  Scopes :: "string list"

text \<open>The tuple the relay forwards in place of anything the peer says about itself.\<close>

definition Principal :: "identity \<Rightarrow> int \<Rightarrow> value" where
  "Principal i sessionID =
     VArray [VInt (Role i), VString (ID i), VInt sessionID,
             if CoordinatorName i = [] then VNil else VString (CoordinatorName i),
             if VerifiedEmail i = [] then VNil else VString (VerifiedEmail i)]"

datatype errorKind = ErrRejected | ErrExpired | ErrAudience | ErrTemporary

text \<open>An error of a verifier: one of the package's own, or any other.\<close>

datatype authError = AuthFailure errorKind | OtherFailure

fun Kind :: "authError \<Rightarrow> errorKind" where
  "Kind (AuthFailure k) = k"
| "Kind OtherFailure = ErrTemporary"

text \<open>\<open>time.Time.UnixMilli\<close> of an instant in nanoseconds: an \<open>int64\<close>.\<close>

definition UnixMilli :: "int \<Rightarrow> int" where
  "UnixMilli t = wrap64 (t div 1000000)"

definition expectedScope :: "int \<Rightarrow> string option" where
  "expectedScope r =
     (if r = RoleUser then Some ''relay:user''
      else if r = RoleCoordinator then Some ''relay:coordinator''
      else if r = RoleCLI then Some ''relay:cli''
      else None)"

definition ValidateBinding :: "request \<Rightarrow> identity \<Rightarrow> int \<Rightarrow> authError option" where
  "ValidateBinding q i now =
     (let rejected = Some (AuthFailure ErrRejected) in
      if Role i \<noteq> req_Role q then rejected
      else if \<not> validIdentityValue (HomeID i) 128 \<or> \<not> validIdentityValue (ID i) 128
      then rejected
      else case expectedScope (Role i) of
        None \<Rightarrow> rejected
      | Some scope \<Rightarrow>
      if scope \<notin> set (Scopes i) \<or> length (Scopes i) \<noteq> 1 then rejected
      else if Role i = RoleUser \<and> ClientID i \<noteq> [] then rejected
      else if Role i = RoleUser \<and> (req_HomeID q = [] \<or> HomeID i \<noteq> req_HomeID q) then rejected
      else if Role i \<noteq> RoleUser \<and> \<not> validIdentityValue (ClientID i) 128 then rejected
      else if Role i \<noteq> RoleUser \<and> req_HomeID q \<noteq> [] \<and> HomeID i \<noteq> req_HomeID q then rejected
      else if Role i \<noteq> RoleUser \<and> VerifiedEmail i \<noteq> [] then rejected
      else if req_Role q = RoleCoordinator \<and> CoordinatorName i \<noteq> req_CoordinatorName q
      then rejected
      else if req_Role q \<noteq> RoleCoordinator \<and> CoordinatorName i \<noteq> [] then rejected
      else if \<not> now < ExpiresAt i then Some (AuthFailure ErrExpired)
      else if UnixMilli (ExpiresAt i) \<le> 0 \<or> UnixMilli (ExpiresAt i) > max_safe_integer
      then rejected
      else if VerifiedEmail i \<noteq> [] \<and> \<not> validIdentityValue (VerifiedEmail i) 320 then rejected
      else None)"

text \<open>What an accepted binding establishes.\<close>

definition bound_identity :: "request \<Rightarrow> identity \<Rightarrow> int \<Rightarrow> bool" where
  "bound_identity q i now \<longleftrightarrow>
     Role i = req_Role q \<and> Role i \<in> {RoleUser, RoleCoordinator, RoleCLI} \<and>
     validIdentityValue (HomeID i) 128 \<and> validIdentityValue (ID i) 128 \<and>
     (\<exists>scope. expectedScope (Role i) = Some scope \<and> Scopes i = [scope]) \<and>
     (if Role i = RoleUser
      then ClientID i = [] \<and> req_HomeID q \<noteq> [] \<and> HomeID i = req_HomeID q
      else validIdentityValue (ClientID i) 128 \<and> (req_HomeID q = [] \<or> HomeID i = req_HomeID q) \<and>
           VerifiedEmail i = []) \<and>
     CoordinatorName i = (if Role i = RoleCoordinator then req_CoordinatorName q else []) \<and>
     now < ExpiresAt i \<and> 0 < UnixMilli (ExpiresAt i) \<and> UnixMilli (ExpiresAt i) \<le> max_safe_integer \<and>
     (VerifiedEmail i = [] \<or> validIdentityValue (VerifiedEmail i) 320)"

lemma singleton_iff: "x \<in> set xs \<and> length xs = 1 \<longleftrightarrow> xs = [x]"
  by (cases xs) auto

lemma guard_None: "(if b then Some x else r) = None \<longleftrightarrow> \<not> b \<and> r = None"
  by simp

lemma scope_None:
  "(case e of None \<Rightarrow> Some x | Some s \<Rightarrow> r s) = None \<longleftrightarrow> (\<exists>s. e = Some s \<and> r s = None)"
  by (cases e) simp_all

lemma expectedScope_iff: "(\<exists>s. expectedScope r = Some s \<and> Q s) \<longleftrightarrow>
    r = RoleUser \<and> Q ''relay:user'' \<or> r = RoleCoordinator \<and> Q ''relay:coordinator'' \<or>
    r = RoleCLI \<and> Q ''relay:cli''"
  by (simp add: expectedScope_def)

lemma ValidateBinding_None: "ValidateBinding q i now = None \<longleftrightarrow> bound_identity q i now"
proof -
  consider "Role i = 1" | "Role i = 2" | "Role i = 3" | "Role i \<noteq> 1" "Role i \<noteq> 2" "Role i \<noteq> 3"
    by blast
  then show ?thesis
    unfolding ValidateBinding_def bound_identity_def Let_def guard_None scope_None
      expectedScope_iff singleton_iff [symmetric]
    by cases auto
qed

end
