(* ===== verification/Relay_State.thy ===== *)
theory Relay_State
  imports Admission Identity
begin

text \<open>
  The state of one relay process: connections, call routes, homes and the process-wide
  admission controller (the struct types of \<open>connection.go\<close>, \<open>declarations.go\<close>, \<open>home.go\<close>,
  \<open>calls.go\<close> and \<open>server.go\<close>).

  Go shares connections, routes and homes by pointer. The model keeps each kind in a heap, a
  function from references (natural numbers) to records; \<open>slot.connection == peer\<close> compares
  references. A nil pointer is \<open>None\<close>. Timers are flags or the generation they captured: when
  one fires is up to the environment. An instant is in nanoseconds, and \<open>clock\<close> is the reading
  of \<open>time.Now()\<close> in the critical section that is running.
\<close>

section \<open>Connections\<close>

datatype connectionPhase = phaseAwaitHello | phaseActive | phaseDraining | phaseClosed

text \<open>The phases in the order of the Go constants.\<close>

fun phase_number :: "connectionPhase \<Rightarrow> nat" where
  "phase_number phaseAwaitHello = 0"
| "phase_number phaseActive = 1"
| "phase_number phaseDraining = 2"
| "phase_number phaseClosed = 3"

lemma phase_number_inj: "phase_number p = phase_number q \<Longrightarrow> p = q"
  by (cases p; cases q) simp_all

instantiation connectionPhase :: linorder
begin

definition less_eq_connectionPhase :: "connectionPhase \<Rightarrow> connectionPhase \<Rightarrow> bool" where
  "less_eq_connectionPhase p q \<longleftrightarrow> phase_number p \<le> phase_number q"

definition less_connectionPhase :: "connectionPhase \<Rightarrow> connectionPhase \<Rightarrow> bool" where
  "less_connectionPhase p q \<longleftrightarrow> phase_number p < phase_number q"

instance
  by intro_classes
    (auto simp: less_eq_connectionPhase_def less_connectionPhase_def intro: phase_number_inj)

end

lemma phase_top [simp]: "p \<le> phaseClosed"
  by (cases p) (simp_all add: less_eq_connectionPhase_def)

lemma phase_top_iff [simp]: "phaseClosed \<le> p \<longleftrightarrow> p = phaseClosed"
  by (cases p) (simp_all add: less_eq_connectionPhase_def)

lemma phase_active_draining [simp]: "phaseActive \<le> phaseDraining"
  by (simp add: less_eq_connectionPhase_def)

text \<open>\<open>afterWrite\<close> is the request identifier the closure passes to \<open>endRequest\<close>.\<close>

record outboundMessage =
  msg_bytes :: "byte list"
  droppableStream :: bool
  closeStatus :: int
  msg_closeReason :: string
  afterWrite :: "int option"

definition emptyMessage :: outboundMessage where
  "emptyMessage = \<lparr>msg_bytes = [], droppableStream = False, closeStatus = 0,
     msg_closeReason = [], afterWrite = None\<rparr>"

abbreviation msg_len :: "outboundMessage \<Rightarrow> int" where
  "msg_len m \<equiv> int (length (msg_bytes m))"

record eventAccess =
  publish :: "string list"
  subscribe_patterns :: "string list"

record coordinatorConfig =
  ownedState :: "string list"
  cfg_state :: "(string \<times> value) list"
  cfg_stateACL :: "(string \<times> string list) list"
  cfg_events :: "(string \<times> int) list"
  cfg_eventACL :: "(string \<times> eventAccess) list"
  cfg_functions :: "string list"

text \<open>\<open>stage_ref\<close> is the pointer identity that \<open>expireStage\<close> compares.\<close>

record declarationStage =
  stage_ref :: nat
  expected :: opcode
  stg_state :: "(string \<times> value) list"
  stg_stateACL :: "(string \<times> string list) list"
  stg_events :: "(string \<times> int) list"
  stg_eventACL :: "(string \<times> eventAccess) list"
  stg_functions :: "string list"
  pathIDs :: "(string \<times> int) list"
  topicIDs :: "(string \<times> int) list"
  functionIDs :: "(string \<times> int) list"
  stage_timer :: bool

text \<open>
  \<open>cancelled\<close> is the cancelled context; \<open>socketClosed\<close> the arguments of the call to
  \<open>socket.Close\<close>, once made; \<open>detaching\<close> says that a goroutine running \<open>detach\<close> was started.
  \<open>leaseTimer\<close> holds the generation the armed timer captured, and \<open>leaseDeadline = None\<close> is the
  zero time.
\<close>

record connection =
  sessionID :: int
  cancelled :: bool
  phase :: connectionPhase
  bootstrapped :: bool
  conn_identity :: identity
  conn_home :: "nat option"
  generation :: int
  queue :: "outboundMessage list"
  queuedBytes :: int
  queueClosed :: bool
  closeQueued :: bool
  closeOnce :: bool
  fatalOnce :: bool
  detachOnce :: bool
  drainOnce :: bool
  leaseTimer :: "nat option"
  leaseDeadline :: "int option"
  leaseGeneration :: nat
  leaseExpired :: bool
  requestIDs :: "int list"
  eventIDs :: "int list"
  subscriptions :: "int list"
  stage :: "declarationStage option"
  calls :: "(int \<times> nat) list"
  nextCallID :: int
  lastStateRevision :: int
  socketClosed :: "(int \<times> string) option"
  detaching :: bool

definition noIdentity :: identity where
  "noIdentity = \<lparr>Role = 0, HomeID = [], ID = [], ClientID = [], CoordinatorName = [],
     VerifiedEmail = [], ExpiresAt = 0, Scopes = []\<rparr>"

definition newConnection :: "int \<Rightarrow> connection" where
  "newConnection session = \<lparr>
     sessionID = session, cancelled = False, phase = phaseAwaitHello, bootstrapped = False,
     conn_identity = noIdentity, conn_home = None, generation = 0,
     queue = [], queuedBytes = 0, queueClosed = False, closeQueued = False,
     closeOnce = False, fatalOnce = False, detachOnce = False, drainOnce = False,
     leaseTimer = None, leaseDeadline = None, leaseGeneration = 0, leaseExpired = False,
     requestIDs = [], eventIDs = [], subscriptions = [], stage = None,
     calls = [], nextCallID = 0, lastStateRevision = 0,
     socketClosed = None, detaching = False \<rparr>"

section \<open>Routes, homes and the process\<close>

record callRoute =
  caller :: nat
  callee :: nat
  callerID :: int
  calleeID :: int
  credit :: int
  accepted :: bool
  terminal :: bool
  deadline :: int
  route_timer :: bool

text \<open>\<open>grace\<close> is the generation captured by the armed grace timer.\<close>

record coordinatorSlot =
  slot_generation :: int
  slot_connection :: "nat option"
  ready :: bool
  active :: "coordinatorConfig option"
  grace :: "int option"

definition newSlot :: coordinatorSlot where
  "newSlot = \<lparr>slot_generation = 0, slot_connection = None, ready = False, active = None,
     grace = None\<rparr>"

record home =
  home_id :: string
  epoch :: "byte list"
  references :: int
  home_closed :: bool
  revision :: int
  policy :: int
  connections :: "(int \<times> nat) list"
  users :: "(int \<times> nat) list"
  coordinators :: "(string \<times> coordinatorSlot) list"
  pathsByName :: "(string \<times> int) list"
  pathsByID :: "(int \<times> string) list"
  nextPathID :: int
  topicsByName :: "(string \<times> int) list"
  topicsByID :: "(int \<times> string) list"
  nextTopicID :: int
  functionsByName :: "(string \<times> int) list"
  functionsByID :: "(int \<times> string) list"
  nextFunctionID :: int
  stateOwners :: "(string \<times> string) list"
  topicOwners :: "(string \<times> string) list"
  functionOwners :: "(string \<times> string) list"
  state :: "(string \<times> value) list"

text \<open>The random epoch is an argument.\<close>

definition newHome :: "byte list \<Rightarrow> string \<Rightarrow> home" where
  "newHome random name = \<lparr>
     home_id = name, epoch = random, references = 0, home_closed = False,
     revision = 1, policy = 1, connections = [], users = [], coordinators = [],
     pathsByName = [], pathsByID = [], nextPathID = 1,
     topicsByName = [], topicsByID = [], nextTopicID = 1,
     functionsByName = [], functionsByID = [], nextFunctionID = 1,
     stateOwners = [], topicOwners = [], functionOwners = [], state = [] \<rparr>"

text \<open>\<open>upgrades\<close> are the admission tokens of the requests whose upgrade is under way, \<open>serving\<close> those of
  the requests that run a connection, by that connection: the local variable \<open>admission\<close> of every
  \<open>serveWebSocket\<close> that has not returned.\<close>

record relay =
  cfg :: config
  admission :: admissionController
  clock :: int
  conns :: "nat \<Rightarrow> connection"
  nconns :: nat
  routes :: "nat \<Rightarrow> callRoute"
  nroutes :: nat
  homes :: "nat \<Rightarrow> home"
  nhomes :: nat
  nstages :: nat
  registry :: "(string \<times> nat) list"
  registryClosed :: bool
  closed :: bool
  draining :: bool
  live :: "nat list"
  drainRetryAfterMs :: int
  drainReasonCode :: int
  nextSession :: int
  upgrades :: "connectionAdmission list"
  serving :: "(nat \<times> connectionAdmission) list"

record sendAction =
  act_connection :: nat
  act_frame :: frame
  act_priority :: bool

abbreviation roleOf :: "connection \<Rightarrow> int" where "roleOf C \<equiv> Role (conn_identity C)"
abbreviation userOf :: "connection \<Rightarrow> string" where "userOf C \<equiv> ID (conn_identity C)"
abbreviation nameOf :: "connection \<Rightarrow> string" where "nameOf C \<equiv> CoordinatorName (conn_identity C)"

section \<open>Heap updates\<close>

definition updConn :: "nat \<Rightarrow> (connection \<Rightarrow> connection) \<Rightarrow> relay \<Rightarrow> relay" where
  "updConn c g w = w\<lparr>conns := (conns w)(c := g (conns w c))\<rparr>"

definition updHome :: "nat \<Rightarrow> (home \<Rightarrow> home) \<Rightarrow> relay \<Rightarrow> relay" where
  "updHome h g w = w\<lparr>homes := (homes w)(h := g (homes w h))\<rparr>"

definition updRoute :: "nat \<Rightarrow> (callRoute \<Rightarrow> callRoute) \<Rightarrow> relay \<Rightarrow> relay" where
  "updRoute r g w = w\<lparr>routes := (routes w)(r := g (routes w r))\<rparr>"

lemma updConn_simps [simp, upd_simps]:
  "conns (updConn c g w) = (conns w)(c := g (conns w c))"
  "cfg (updConn c g w) = cfg w" "admission (updConn c g w) = admission w"
  "clock (updConn c g w) = clock w" "nconns (updConn c g w) = nconns w"
  "routes (updConn c g w) = routes w" "nroutes (updConn c g w) = nroutes w"
  "homes (updConn c g w) = homes w" "nhomes (updConn c g w) = nhomes w"
  "nstages (updConn c g w) = nstages w" "registry (updConn c g w) = registry w"
  "registryClosed (updConn c g w) = registryClosed w" "closed (updConn c g w) = closed w"
  "draining (updConn c g w) = draining w" "live (updConn c g w) = live w"
  "upgrades (updConn c g w) = upgrades w" "serving (updConn c g w) = serving w"
  by (simp_all add: updConn_def)

lemma updHome_simps [simp, upd_simps]:
  "homes (updHome h f w) = (homes w)(h := f (homes w h))"
  "cfg (updHome h f w) = cfg w" "admission (updHome h f w) = admission w"
  "clock (updHome h f w) = clock w" "nconns (updHome h f w) = nconns w"
  "conns (updHome h f w) = conns w" "routes (updHome h f w) = routes w"
  "nroutes (updHome h f w) = nroutes w" "nhomes (updHome h f w) = nhomes w"
  "nstages (updHome h f w) = nstages w" "registry (updHome h f w) = registry w"
  "registryClosed (updHome h f w) = registryClosed w" "closed (updHome h f w) = closed w"
  "draining (updHome h f w) = draining w" "live (updHome h f w) = live w"
  "upgrades (updHome h f w) = upgrades w" "serving (updHome h f w) = serving w"
  by (simp_all add: updHome_def)

lemma updRoute_simps [simp, upd_simps]:
  "routes (updRoute r f w) = (routes w)(r := f (routes w r))"
  "cfg (updRoute r f w) = cfg w" "admission (updRoute r f w) = admission w"
  "clock (updRoute r f w) = clock w" "nconns (updRoute r f w) = nconns w"
  "conns (updRoute r f w) = conns w" "homes (updRoute r f w) = homes w"
  "nroutes (updRoute r f w) = nroutes w" "nhomes (updRoute r f w) = nhomes w"
  "nstages (updRoute r f w) = nstages w" "registry (updRoute r f w) = registry w"
  "registryClosed (updRoute r f w) = registryClosed w" "closed (updRoute r f w) = closed w"
  "draining (updRoute r f w) = draining w" "live (updRoute r f w) = live w"
  "upgrades (updRoute r f w) = upgrades w" "serving (updRoute r f w) = serving w"
  by (simp_all add: updRoute_def)

end
