(* ===== verification/Outbound.thy ===== *)
theory Outbound
  imports Relay_State
begin

text \<open>
  The outbound half of a connection (\<open>connection.go\<close>, lines 391-540, 561-601, 622-696 and
  763-771): the byte-bounded queue, the eviction of droppable stream messages, the shared byte
  budget, request identifiers in flight, and the two ways a connection ends, \<open>fail\<close> (a FATAL
  frame, then close) and \<open>stop\<close> (close at once).

  Every function takes the connection by reference and returns the new process state. A nil
  error is \<open>True\<close>. \<open>queueWake\<close>, which only wakes a writer that found the queue empty, is not
  modelled: a writer step is possible whenever the queue is not empty.
\<close>

section \<open>Requests in flight\<close>

definition beginRequest :: "int \<Rightarrow> nat \<Rightarrow> relay \<Rightarrow> relayError option \<times> relay" where
  "beginRequest requestID c w =
     (if requestID \<in> set (requestIDs (conns w c))
      then (Some (applicationError codeDuplicateRequest False
              ''request identifier is already in flight'' closeConflict), w)
      else (None, updConn c (\<lambda>C. C\<lparr>requestIDs := sadd requestID (requestIDs C)\<rparr>) w))"

definition endRequest :: "int \<Rightarrow> nat \<Rightarrow> relay \<Rightarrow> relay" where
  "endRequest requestID c w =
     updConn c (\<lambda>C. C\<lparr>requestIDs := removeAll requestID (requestIDs C)\<rparr>) w"

definition claimEventID :: "int \<Rightarrow> nat \<Rightarrow> relay \<Rightarrow> relayError option \<times> relay" where
  "claimEventID eventID c w =
     (if eventID \<in> set (eventIDs (conns w c))
      then (Some (applicationError codeDuplicateRequest False
              ''event identifier was already used'' closeConflict), w)
      else (None, updConn c (\<lambda>C. C\<lparr>eventIDs := sadd eventID (eventIDs C)\<rparr>) w))"

text \<open>The frames that carry a request identifier as their first field, and the responses that
  end a request.\<close>

definition requestOpcodes :: "opcode list" where
  "requestOpcodes =
     [OpcodeReauth, OpcodeStateSync, OpcodeStateSet, OpcodeStateACLSync, OpcodeStateResync,
      OpcodeEventSync, OpcodeEventACLSync, OpcodeSubscribe, OpcodeUnsubscribe,
      OpcodeFunctionSync]"

definition responseOpcodes :: "opcode list" where
  "responseOpcodes =
     [OpcodeReauthOK, OpcodeStateSyncOK, OpcodeStateSetOK, OpcodeStateACLOK, OpcodeEventSyncOK,
      OpcodeEventACLOK, OpcodeSubscribeOK, OpcodeUnsubscribeOK, OpcodeFunctionSyncOK]"

definition firstInteger :: "frame \<Rightarrow> int option" where
  "firstInteger f = Option.bind (payload_at (Payload f) 0) integer"

text \<open>\<open>None\<close>: the frame is not a response. The relay builds its responses with an integer
  first, so the accessor cannot panic here.\<close>

definition responseRequestIdentifier :: "frame \<Rightarrow> int option" where
  "responseRequestIdentifier f =
     (if Opcode f \<in> set responseOpcodes then firstInteger f else None)"

section \<open>Leaving\<close>

definition stopLease :: "nat \<Rightarrow> relay \<Rightarrow> relay" where
  "stopLease c w =
     updConn c (\<lambda>C. C\<lparr>leaseGeneration := leaseGeneration C + 1, leaseTimer := None\<rparr>) w"

text \<open>Give the bytes of a connection back to the shared budget.\<close>

definition refund :: "int \<Rightarrow> relay \<Rightarrow> relay" where
  "refund n w = w\<lparr>admission := snd (releaseQueuedBytes n (admission w))\<rparr>"

definition stop :: "int \<Rightarrow> string \<Rightarrow> nat \<Rightarrow> relay \<Rightarrow> relay" where
  "stop status reason c w =
     (if closeOnce (conns w c) then w
      else
        let w1 = updConn c (\<lambda>C. C\<lparr>closeOnce := True, phase := phaseClosed\<rparr>) w;
            w2 = stopLease c w1;
            w3 = updConn c (\<lambda>C. C\<lparr>cancelled := True\<rparr>) w2;
            releasedBytes = queuedBytes (conns w3 c);
            w4 = updConn c (\<lambda>C. C\<lparr>queue := [], queuedBytes := 0, queueClosed := True\<rparr>) w3;
            w5 = refund releasedBytes w4
        in updConn c (\<lambda>C. C\<lparr>socketClosed := Some (status, reason)\<rparr>) w5)"

section \<open>The queue\<close>

text \<open>The eviction loop: droppable messages go, from the oldest, while the required bytes do
  not fit. It returns the retained messages, the bytes still queued and the bytes released.\<close>

fun evictLoop ::
  "int \<Rightarrow> int \<Rightarrow> outboundMessage list \<Rightarrow> int \<Rightarrow> outboundMessage list \<times> int \<times> int" where
  "evictLoop limit required [] queued = ([], queued, 0)"
| "evictLoop limit required (m # ms) queued =
     (if droppableStream m \<and> queued + required > limit
      then (case evictLoop limit required ms (queued - msg_len m) of
              (retained, queued', released) \<Rightarrow> (retained, queued', released + msg_len m))
      else (case evictLoop limit required ms queued of
              (retained, queued', released) \<Rightarrow> (m # retained, queued', released)))"

definition evictStreamsLocked :: "int \<Rightarrow> nat \<Rightarrow> relay \<Rightarrow> relay" where
  "evictStreamsLocked required c w =
     (let C = conns w c; limit = MaxQueuedBytes (cfg w) in
      if queuedBytes C + required \<le> limit then w
      else case evictLoop limit required (queue C) (queuedBytes C) of
        (retained, queued, released) \<Rightarrow>
          refund released (updConn c (\<lambda>C. C\<lparr>queue := retained, queuedBytes := queued\<rparr>) w))"

definition enqueueBytes :: "outboundMessage \<Rightarrow> bool \<Rightarrow> nat \<Rightarrow> relay \<Rightarrow> bool \<times> relay" where
  "enqueueBytes m priority c w =
     (if queueClosed (conns w c) \<or> closeQueued (conns w c) then (False, w)
      else
        let w1 = (if priority then evictStreamsLocked (msg_len m) c w else w) in
        if queuedBytes (conns w1 c) + msg_len m > MaxQueuedBytes (cfg w1) then (False, w1)
        else case reserveQueuedBytes (cfg w1) (msg_len m) (admission w1) of
          (False, _) \<Rightarrow> (False, w1)
        | (True, A) \<Rightarrow>
            (True,
             updConn c (\<lambda>C. C\<lparr>queuedBytes := queuedBytes C + msg_len m,
                              closeQueued := (closeStatus m \<noteq> 0 \<or> closeQueued C),
                              queue := queue C @ [m]\<rparr>) (w1\<lparr>admission := A\<rparr>)))"

definition closeReason :: "int \<Rightarrow> string" where
  "closeReason c =
     (if c = closeAuth then ''authentication_failed''
      else if c = closeAuthorization then ''authorization_failed''
      else if c = closeTimeout then ''timeout''
      else if c = closeConflict then ''conflict''
      else if c = closeLimit then ''limit_exceeded''
      else if c = closeUnavailable then ''temporarily_unavailable''
      else if c = closeInternal then ''internal_failure''
      else ''protocol_error'')"

text \<open>Lines 642-665 of \<open>fail\<close>: the queue is emptied to make room for the FATAL message. The
  result says whether the message was queued.\<close>

definition failMakeRoom :: "outboundMessage \<Rightarrow> nat \<Rightarrow> relay \<Rightarrow> bool \<times> relay" where
  "failMakeRoom m c w =
     (if queueClosed (conns w c) then (False, w)
      else
        let w1 = refund (queuedBytes (conns w c))
                   (updConn c (\<lambda>C. C\<lparr>queue := [], queuedBytes := 0\<rparr>) w)
        in case reserveQueuedBytes (cfg w1) (msg_len m) (admission w1) of
             (True, A) \<Rightarrow>
               (True, updConn c (\<lambda>C. C\<lparr>queue := [m], queuedBytes := msg_len m,
                                       closeQueued := True\<rparr>) (w1\<lparr>admission := A\<rparr>))
           | (False, _) \<Rightarrow> (False, updConn c (\<lambda>C. C\<lparr>queueClosed := True\<rparr>) w1))"

definition fatalMessage :: "byte list \<Rightarrow> relayError \<Rightarrow> outboundMessage" where
  "fatalMessage bytes failure =
     emptyMessage\<lparr>msg_bytes := bytes, closeStatus := closeCode failure,
                  msg_closeReason := closeReason (closeCode failure)\<rparr>"

definition fail :: "protocol \<Rightarrow> int \<Rightarrow> relayError \<Rightarrow> nat \<Rightarrow> relay \<Rightarrow> relay" where
  "fail P sourceOpcode failure c w =
     (if fatalOnce (conns w c) then w
      else
        let w1 = updConn c
              (\<lambda>C. C\<lparr>fatalOnce := True, phase := phaseClosed, detaching := True\<rparr>) w in
        case EncodeFrame P (fatalFrame sourceOpcode failure) of
          None \<Rightarrow> stop closeInternal ''internal_failure'' c w1
        | Some bytes \<Rightarrow>
            (case enqueueBytes (fatalMessage bytes failure) True c w1 of
               (True, w2) \<Rightarrow> w2
             | (False, w2) \<Rightarrow>
                 (case failMakeRoom (fatalMessage bytes failure) c w2 of
                    (True, w3) \<Rightarrow> w3
                  | (False, w3) \<Rightarrow> stop closeInternal ''aggregate_queue_exhausted'' c w3)))"

definition slowConsumer :: relayError where
  "slowConsumer =
     fatalError codeSlowConsumer True ''outbound queue limit exceeded'' closeLimit"

lemma slowConsumer_simps [simp]: "fatal slowConsumer" "err_code slowConsumer = codeSlowConsumer"
  by (simp_all add: slowConsumer_def)

text \<open>\<open>enqueueFrame\<close> with the message whose bytes it fills in.\<close>

definition enqueueMessage ::
  "protocol \<Rightarrow> frame \<Rightarrow> outboundMessage \<Rightarrow> bool \<Rightarrow> nat \<Rightarrow> relay \<Rightarrow> bool \<times> relay" where
  "enqueueMessage P f m priority c w =
     (case EncodeFrame P f of
        None \<Rightarrow> (False, stop closeInternal ''internal_failure'' c w)
      | Some bytes \<Rightarrow>
          (case enqueueBytes (m\<lparr>msg_bytes := bytes\<rparr>) priority c w of
             (True, w1) \<Rightarrow> (True, w1)
           | (False, w1) \<Rightarrow> (False, fail P 0 slowConsumer c w1)))"

definition enqueueRequestTerminal ::
  "protocol \<Rightarrow> frame \<Rightarrow> int \<Rightarrow> bool \<Rightarrow> nat \<Rightarrow> relay \<Rightarrow> bool \<times> relay" where
  "enqueueRequestTerminal P f requestID priority c w =
     enqueueMessage P f (emptyMessage\<lparr>afterWrite := Some requestID\<rparr>) priority c w"

definition enqueue :: "protocol \<Rightarrow> frame \<Rightarrow> bool \<Rightarrow> nat \<Rightarrow> relay \<Rightarrow> bool \<times> relay" where
  "enqueue P f priority c w =
     (case responseRequestIdentifier f of
        Some requestID \<Rightarrow> enqueueRequestTerminal P f requestID priority c w
      | None \<Rightarrow> enqueueMessage P f emptyMessage priority c w)"

definition enqueueStream :: "protocol \<Rightarrow> frame \<Rightarrow> nat \<Rightarrow> relay \<Rightarrow> bool \<times> relay" where
  "enqueueStream P f c w =
     enqueueMessage P f (emptyMessage\<lparr>droppableStream := True\<rparr>) False c w"

text \<open>Lines 580-589 of \<open>nextMessage\<close>: the oldest message leaves the queue.\<close>

definition nextMessage :: "nat \<Rightarrow> relay \<Rightarrow> outboundMessage option \<times> relay" where
  "nextMessage c w =
     (case queue (conns w c) of
        [] \<Rightarrow> (None, w)
      | m # ms \<Rightarrow>
          (Some m, refund (msg_len m)
             (updConn c (\<lambda>C. C\<lparr>queue := ms, queuedBytes := queuedBytes C - msg_len m\<rparr>) w)))"

text \<open>One round of \<open>writeLoop\<close>; \<open>written\<close> says whether the socket took the bytes.\<close>

definition writeStep :: "bool \<Rightarrow> nat \<Rightarrow> relay \<Rightarrow> relay" where
  "writeStep written c w =
     (case nextMessage c w of
        (None, w1) \<Rightarrow> w1
      | (Some m, w1) \<Rightarrow>
          if \<not> written then stop StatusInternalError ''write_failed'' c w1
          else
            let w2 = (case afterWrite m of None \<Rightarrow> w1 | Some r \<Rightarrow> endRequest r c w1) in
            if closeStatus m \<noteq> 0 then stop (closeStatus m) (msg_closeReason m) c w2 else w2)"

fun dispatch :: "protocol \<Rightarrow> sendAction list \<Rightarrow> relay \<Rightarrow> relay" where
  "dispatch P [] w = w"
| "dispatch P (a # as) w =
     dispatch P as (snd (enqueue P (act_frame a) (act_priority a) (act_connection a) w))"

end
