(* ===== verification/Outbound_Inv.thy ===== *)
theory Outbound_Inv
  imports Outbound
begin

text \<open>
  Properties of the outbound half: what it leaves alone (\<open>only_queues\<close>), what it keeps
  (\<open>queues_ok\<close>: every queue within its ceiling, and the shared budget equal to the sum of the
  queues), and the locale \<open>relay_invariant\<close>, the contract between the outbound operations and
  the handlers built on them: a predicate kept by the outbound operations and blind to
  everything else is kept by every handler. Further, what a failing connection is left with
  (\<open>fail_exact\<close>), and what a list of frames does to each queue (\<open>dispatch_delivers\<close>,
  \<open>dispatch_room\<close>).
\<close>

section \<open>What the outbound operations leave alone\<close>

definition quiet :: "connection \<Rightarrow> connection" where
  "quiet C = C\<lparr>queue := [], queuedBytes := 0, queueClosed := False, closeQueued := False,
     closeOnce := False, fatalOnce := False, phase := phaseClosed, cancelled := False,
     leaseGeneration := 0, leaseTimer := None, socketClosed := None, detaching := False\<rparr>"

definition world_part :: "relay \<Rightarrow> relay" where
  "world_part w = w\<lparr>conns := (\<lambda>_. newConnection 0), admission := newAdmissionController\<rparr>"

definition only_queues :: "relay \<Rightarrow> relay \<Rightarrow> bool" where
  "only_queues w w' \<longleftrightarrow>
     world_part w' = world_part w \<and> (\<forall>c. quiet (conns w' c) = quiet (conns w c))"

lemma only_queues_refl [simp, intro]: "only_queues w w"
  by (simp add: only_queues_def)

lemma only_queues_trans [trans]: "only_queues u v \<Longrightarrow> only_queues v w \<Longrightarrow> only_queues u w"
  by (simp add: only_queues_def)

lemma only_queues_updConn [intro]:
  "quiet (g (conns w c)) = quiet (conns w c) \<Longrightarrow> only_queues w (updConn c g w)"
  by (simp add: only_queues_def world_part_def updConn_def)

lemma only_queues_admission [intro]: "only_queues w (w\<lparr>admission := A\<rparr>)"
  by (simp add: only_queues_def world_part_def)

lemma only_queues_refund [intro]: "only_queues w (refund n w)"
  by (simp add: refund_def only_queues_admission)

lemma only_queues_stop [intro]: "only_queues w (stop s r c w)"
proof (cases "closeOnce (conns w c)")
  case False
  then show ?thesis
    by (auto simp: stop_def Let_def stopLease_def only_queues_def world_part_def refund_def
        quiet_def updConn_def)
qed (simp add: stop_def)

lemma only_queues_evict [intro]: "only_queues w (evictStreamsLocked n c w)"
  by (auto simp: evictStreamsLocked_def Let_def quiet_def split: prod.splits
      intro!: only_queues_trans [OF only_queues_updConn only_queues_refund])

lemma only_queues_enqueueBytes: "enqueueBytes m p c w = (ok, w') \<Longrightarrow> only_queues w w'"
proof -
  assume e: "enqueueBytes m p c w = (ok, w')"
  define w1 where "w1 = (if p then evictStreamsLocked (msg_len m) c w else w)"
  have 1: "only_queues w w1" by (auto simp: w1_def)
  show ?thesis
  proof (cases "queueClosed (conns w c) \<or> closeQueued (conns w c)")
    case False
    then have "only_queues w1 w'" using e
      by (auto simp: enqueueBytes_def Let_def quiet_def only_queues_def world_part_def updConn_def
          simp flip: w1_def split: if_splits prod.splits bool.splits)
    with 1 show ?thesis by (rule only_queues_trans)
  qed (use e in \<open>auto simp: enqueueBytes_def\<close>)
qed

lemma only_queues_makeRoom: "failMakeRoom m c w = (ok, w') \<Longrightarrow> only_queues w w'"
  by (auto simp: failMakeRoom_def Let_def quiet_def only_queues_def world_part_def updConn_def
      refund_def split: if_splits prod.splits bool.splits)

lemma only_queues_fail [intro]: "only_queues w (fail P op e c w)"
proof (cases "fatalOnce (conns w c)")
  case False
  define w1 where
    "w1 = updConn c (\<lambda>C. C\<lparr>fatalOnce := True, phase := phaseClosed, detaching := True\<rparr>) w"
  have 1: "only_queues w w1" by (auto simp: quiet_def w1_def)
  show ?thesis
  proof (cases "EncodeFrame P (fatalFrame op e)")
    case None
    then show ?thesis using False 1
      by (auto simp: fail_def Let_def simp flip: w1_def intro: only_queues_trans)
  next
    case (Some b)
    let ?m = "fatalMessage b e"
    obtain ok2 w2 where 2: "enqueueBytes ?m True c w1 = (ok2, w2)" by (meson surj_pair)
    obtain ok3 w3 where 3: "failMakeRoom ?m c w2 = (ok3, w3)" by (meson surj_pair)
    have w2: "only_queues w w2"
      using 1 only_queues_enqueueBytes [OF 2] by (rule only_queues_trans)
    have w3: "only_queues w w3"
      using w2 only_queues_makeRoom [OF 3] by (rule only_queues_trans)
    have w4: "only_queues w (stop closeInternal ''aggregate_queue_exhausted'' c w3)"
      using w3 only_queues_stop by (rule only_queues_trans)
    show ?thesis using False w2 w3 w4
      by (simp add: fail_def Let_def Some 2 3 flip: w1_def split: bool.splits)
  qed
qed (simp add: fail_def)

lemma only_queues_enqueueMessage: "only_queues w (snd (enqueueMessage P f m p c w))"
  by (auto simp: enqueueMessage_def split: option.splits prod.splits bool.splits
      intro: only_queues_trans only_queues_fail dest!: only_queues_enqueueBytes)

lemma only_queues_enqueue [intro]: "only_queues w (snd (enqueue P f p c w))"
  by (auto simp: enqueue_def enqueueRequestTerminal_def only_queues_enqueueMessage
      split: option.splits)

lemma only_queues_terminal [intro]: "only_queues w (snd (enqueueRequestTerminal P f r p c w))"
  by (simp add: enqueueRequestTerminal_def only_queues_enqueueMessage)

lemma only_queues_stream [intro]: "only_queues w (snd (enqueueStream P f c w))"
  by (simp add: enqueueStream_def only_queues_enqueueMessage)

lemma only_queues_dispatch [intro]: "only_queues w (dispatch P as w)"
  by (induction as arbitrary: w) (auto intro: only_queues_trans)

lemma only_queues_world:
  assumes "only_queues w w'"
  shows "cfg w' = cfg w" "clock w' = clock w" "nconns w' = nconns w" "routes w' = routes w"
    "nroutes w' = nroutes w" "homes w' = homes w" "nhomes w' = nhomes w" "nstages w' = nstages w"
    "registry w' = registry w" "registryClosed w' = registryClosed w" "closed w' = closed w"
    "draining w' = draining w" "live w' = live w"
    "upgrades w' = upgrades w" "serving w' = serving w"
proof -
  have w: "world_part w' = world_part w" using assms by (simp add: only_queues_def)
  show "cfg w' = cfg w" using arg_cong [OF w, of cfg] by (simp add: world_part_def)
  show "clock w' = clock w" using arg_cong [OF w, of clock] by (simp add: world_part_def)
  show "nconns w' = nconns w" using arg_cong [OF w, of nconns] by (simp add: world_part_def)
  show "routes w' = routes w" using arg_cong [OF w, of routes] by (simp add: world_part_def)
  show "nroutes w' = nroutes w" using arg_cong [OF w, of nroutes] by (simp add: world_part_def)
  show "homes w' = homes w" using arg_cong [OF w, of homes] by (simp add: world_part_def)
  show "nhomes w' = nhomes w" using arg_cong [OF w, of nhomes] by (simp add: world_part_def)
  show "nstages w' = nstages w" using arg_cong [OF w, of nstages] by (simp add: world_part_def)
  show "registry w' = registry w" using arg_cong [OF w, of registry] by (simp add: world_part_def)
  show "registryClosed w' = registryClosed w" using arg_cong [OF w, of registryClosed]
    by (simp add: world_part_def)
  show "closed w' = closed w" using arg_cong [OF w, of closed] by (simp add: world_part_def)
  show "draining w' = draining w" using arg_cong [OF w, of draining] by (simp add: world_part_def)
  show "live w' = live w" using arg_cong [OF w, of live] by (simp add: world_part_def)
  show "upgrades w' = upgrades w" using arg_cong [OF w, of upgrades] by (simp add: world_part_def)
  show "serving w' = serving w" using arg_cong [OF w, of serving] by (simp add: world_part_def)
qed

lemma only_queues_conn:
  assumes "only_queues w w'"
  shows "sessionID (conns w' c) = sessionID (conns w c)"
    "bootstrapped (conns w' c) = bootstrapped (conns w c)"
    "conn_identity (conns w' c) = conn_identity (conns w c)"
    "conn_home (conns w' c) = conn_home (conns w c)"
    "generation (conns w' c) = generation (conns w c)"
    "requestIDs (conns w' c) = requestIDs (conns w c)"
    "eventIDs (conns w' c) = eventIDs (conns w c)"
    "subscriptions (conns w' c) = subscriptions (conns w c)"
    "stage (conns w' c) = stage (conns w c)"
    "calls (conns w' c) = calls (conns w c)"
    "nextCallID (conns w' c) = nextCallID (conns w c)"
    "lastStateRevision (conns w' c) = lastStateRevision (conns w c)"
    "leaseDeadline (conns w' c) = leaseDeadline (conns w c)"
    "leaseExpired (conns w' c) = leaseExpired (conns w c)"
    "detachOnce (conns w' c) = detachOnce (conns w c)"
    "drainOnce (conns w' c) = drainOnce (conns w c)"
proof -
  have q: "quiet (conns w' c) = quiet (conns w c)" using assms by (simp add: only_queues_def)
  show "sessionID (conns w' c) = sessionID (conns w c)"
    using arg_cong [OF q, of sessionID] by (simp add: quiet_def)
  show "bootstrapped (conns w' c) = bootstrapped (conns w c)"
    using arg_cong [OF q, of bootstrapped] by (simp add: quiet_def)
  show "conn_identity (conns w' c) = conn_identity (conns w c)"
    using arg_cong [OF q, of conn_identity] by (simp add: quiet_def)
  show "conn_home (conns w' c) = conn_home (conns w c)"
    using arg_cong [OF q, of conn_home] by (simp add: quiet_def)
  show "generation (conns w' c) = generation (conns w c)"
    using arg_cong [OF q, of generation] by (simp add: quiet_def)
  show "requestIDs (conns w' c) = requestIDs (conns w c)"
    using arg_cong [OF q, of requestIDs] by (simp add: quiet_def)
  show "eventIDs (conns w' c) = eventIDs (conns w c)"
    using arg_cong [OF q, of eventIDs] by (simp add: quiet_def)
  show "subscriptions (conns w' c) = subscriptions (conns w c)"
    using arg_cong [OF q, of subscriptions] by (simp add: quiet_def)
  show "stage (conns w' c) = stage (conns w c)"
    using arg_cong [OF q, of stage] by (simp add: quiet_def)
  show "calls (conns w' c) = calls (conns w c)"
    using arg_cong [OF q, of calls] by (simp add: quiet_def)
  show "nextCallID (conns w' c) = nextCallID (conns w c)"
    using arg_cong [OF q, of nextCallID] by (simp add: quiet_def)
  show "lastStateRevision (conns w' c) = lastStateRevision (conns w c)"
    using arg_cong [OF q, of lastStateRevision] by (simp add: quiet_def)
  show "leaseDeadline (conns w' c) = leaseDeadline (conns w c)"
    using arg_cong [OF q, of leaseDeadline] by (simp add: quiet_def)
  show "leaseExpired (conns w' c) = leaseExpired (conns w c)"
    using arg_cong [OF q, of leaseExpired] by (simp add: quiet_def)
  show "detachOnce (conns w' c) = detachOnce (conns w c)"
    using arg_cong [OF q, of detachOnce] by (simp add: quiet_def)
  show "drainOnce (conns w' c) = drainOnce (conns w c)"
    using arg_cong [OF q, of drainOnce] by (simp add: quiet_def)
qed

lemmas stop_frame [simp] =
  only_queues_world [OF only_queues_stop] only_queues_conn [OF only_queues_stop]
lemmas fail_frame [simp] =
  only_queues_world [OF only_queues_fail] only_queues_conn [OF only_queues_fail]
lemmas enqueue_frame [simp] =
  only_queues_world [OF only_queues_enqueue] only_queues_conn [OF only_queues_enqueue]
lemmas terminal_frame [simp] =
  only_queues_world [OF only_queues_terminal] only_queues_conn [OF only_queues_terminal]
lemmas stream_frame [simp] =
  only_queues_world [OF only_queues_stream] only_queues_conn [OF only_queues_stream]
lemmas dispatch_frame [simp] =
  only_queues_world [OF only_queues_dispatch] only_queues_conn [OF only_queues_dispatch]

section \<open>Eviction\<close>

text \<open>What eviction leaves: the oldest droppable messages up to some position are gone, nothing
  else is; it stops as soon as the required bytes fit.\<close>

lemma evictLoop_fits: "queued + required \<le> limit \<Longrightarrow> evictLoop limit required ms queued = (ms, queued, 0)"
  by (induction ms) auto

definition evicted_upto :: "int \<Rightarrow> int \<Rightarrow> outboundMessage list \<Rightarrow> int \<Rightarrow>
    outboundMessage list \<times> int \<times> int \<Rightarrow> nat \<Rightarrow> bool" where
  "evicted_upto limit required ms queued res k \<longleftrightarrow>
     (case res of (retained, queued', released) \<Rightarrow>
        k \<le> length ms \<and>
        retained = filter (\<lambda>m. \<not> droppableStream m) (take k ms) @ drop k ms \<and>
        released = sum_list (map msg_len (filter droppableStream (take k ms))) \<and>
        queued' = queued - released \<and>
        (queued' + required \<le> limit \<or> (\<forall>m \<in> set retained. \<not> droppableStream m)))"

lemma evictLoop_split: "\<exists>k. evicted_upto limit required ms queued (evictLoop limit required ms queued) k"
proof (induction ms arbitrary: queued)
  case Nil
  then show ?case by (simp add: evicted_upto_def)
next
  case (Cons m ms)
  show ?case
  proof (cases "queued + required \<le> limit")
    case True
    then show ?thesis
      by (intro exI [of _ 0]) (simp add: evictLoop_fits evicted_upto_def del: evictLoop.simps)
  next
    case False
    let ?q = "if droppableStream m then queued - msg_len m else queued"
    from Cons.IH [of ?q] obtain k where
      "evicted_upto limit required ms ?q (evictLoop limit required ms ?q) k" by blast
    then have "evicted_upto limit required (m # ms) queued
        (evictLoop limit required (m # ms) queued) (Suc k)"
      using False by (cases "droppableStream m") (auto simp: evicted_upto_def split: prod.splits)
    then show ?thesis by blast
  qed
qed

lemma evictLoop_retained:
  assumes "evictLoop limit required ms queued = (retained, queued', released)"
  shows "set retained \<subseteq> set ms"
    "sum_list (map msg_len retained) = sum_list (map msg_len ms) - released"
    "queued' = queued - released" "0 \<le> released"
proof -
  obtain k where k: "retained = filter (\<lambda>m. \<not> droppableStream m) (take k ms) @ drop k ms"
      "released = sum_list (map msg_len (filter droppableStream (take k ms)))"
      "queued' = queued - released"
    using evictLoop_split [of limit required ms queued] by (auto simp: assms evicted_upto_def)
  have part: "sum_list (map msg_len (filter (\<lambda>m. \<not> droppableStream m) ns)) +
      sum_list (map msg_len (filter droppableStream ns)) = sum_list (map msg_len ns)" for ns
    by (induction ns) auto
  have "sum_list (map msg_len ms) =
      sum_list (map msg_len (take k ms)) + sum_list (map msg_len (drop k ms))"
    by (metis append_take_drop_id map_append sum_list_append)
  then show "sum_list (map msg_len retained) = sum_list (map msg_len ms) - released"
    using part [of "take k ms"] by (simp add: k)
  show "set retained \<subseteq> set ms" unfolding k(1) using set_take_subset set_drop_subset by fastforce
  show "queued' = queued - released" "0 \<le> released" by (auto simp: k(2,3) intro!: sum_list_nonneg)
qed

section \<open>The accounting invariant\<close>

definition conn_queue_ok :: "int \<Rightarrow> connection \<Rightarrow> bool" where
  "conn_queue_ok limit C \<longleftrightarrow>
     queuedBytes C = sum_list (map msg_len (queue C)) \<and> queuedBytes C \<le> limit \<and>
     (queueClosed C \<longrightarrow> queue C = []) \<and>
     (\<forall>m \<in> set (butlast (queue C)). closeStatus m = 0) \<and>
     (\<not> closeQueued C \<longrightarrow> (\<forall>m \<in> set (queue C). closeStatus m = 0))"

text \<open>The shared budget is the sum of what the connections hold; all but finitely many
  references hold nothing.\<close>

definition bytes_accounted :: "relay \<Rightarrow> bool" where
  "bytes_accounted w \<longleftrightarrow>
     (\<exists>N. (\<forall>c \<ge> N. queuedBytes (conns w c) = 0) \<and>
          adm_queuedBytes (admission w) = (\<Sum>c<N. queuedBytes (conns w c)))"

definition queues_ok :: "protocol \<Rightarrow> relay \<Rightarrow> bool" where
  "queues_ok P w \<longleftrightarrow>
     codec_bounded P \<and> config_ok P (cfg w) \<and>
     (\<forall>c. conn_queue_ok (MaxQueuedBytes (cfg w)) (conns w c)) \<and>
     bytes_accounted w \<and>
     adm_queuedBytes (admission w) \<le> MaxAggregateQueuedBytes (cfg w)"

lemma conn_queue_nonneg: "conn_queue_ok limit C \<Longrightarrow> 0 \<le> queuedBytes C"
  by (auto simp: conn_queue_ok_def intro!: sum_list_nonneg)

lemma queues_ok_conn [simp, dest]:
  "queues_ok P w \<Longrightarrow> conn_queue_ok (MaxQueuedBytes (cfg w)) (conns w c)"
  by (simp add: queues_ok_def)

lemma accounted_change:
  assumes "bytes_accounted w" "conns w' = (conns w)(c := C)"
    and "adm_queuedBytes (admission w') =
         adm_queuedBytes (admission w) + queuedBytes C - queuedBytes (conns w c)"
  shows "bytes_accounted w'"
proof -
  obtain N where N: "\<And>d. N \<le> d \<Longrightarrow> queuedBytes (conns w d) = 0"
      "adm_queuedBytes (admission w) = (\<Sum>d<N. queuedBytes (conns w d))"
    using assms(1) by (auto simp: bytes_accounted_def)
  let ?M = "max N (Suc c)"
  have ext: "(\<Sum>d<N. queuedBytes (conns w d)) = (\<Sum>d<?M. queuedBytes (conns w d))"
    using N(1) by (intro sum.mono_neutral_left) auto
  have "(\<Sum>d<?M. queuedBytes (conns w' d)) =
      queuedBytes C + (\<Sum>d \<in> {..<?M} - {c}. queuedBytes (conns w d))"
    by (subst sum.remove [of _ c]) (auto simp: assms(2))
  moreover have "(\<Sum>d<?M. queuedBytes (conns w d)) =
      queuedBytes (conns w c) + (\<Sum>d \<in> {..<?M} - {c}. queuedBytes (conns w d))"
    by (subst sum.remove [of _ c]) auto
  ultimately have "adm_queuedBytes (admission w') = (\<Sum>d<?M. queuedBytes (conns w' d))"
    using assms(3) N(2) ext by linarith
  moreover have "\<forall>d \<ge> ?M. queuedBytes (conns w' d) = 0" using N(1) by (simp add: assms(2))
  ultimately show ?thesis unfolding bytes_accounted_def by blast
qed

lemma queued_le_budget:
  assumes "queues_ok P w"
  shows "queuedBytes (conns w c) \<le> adm_queuedBytes (admission w)"
proof -
  obtain N where N: "\<And>d. N \<le> d \<Longrightarrow> queuedBytes (conns w d) = 0"
      "adm_queuedBytes (admission w) = (\<Sum>d<N. queuedBytes (conns w d))"
    using assms by (auto simp: queues_ok_def bytes_accounted_def)
  have nonneg: "0 \<le> queuedBytes (conns w d)" for d
    using assms by (intro conn_queue_nonneg) auto
  show ?thesis
  proof (cases "c < N")
    case True
    then show ?thesis unfolding N(2) by (intro member_le_sum) (auto simp: nonneg)
  qed (simp add: N sum_nonneg nonneg)
qed

lemma queues_ok_change:
  assumes "queues_ok P w" "cfg w' = cfg w" "conns w' = (conns w)(c := C)"
    and "conn_queue_ok (MaxQueuedBytes (cfg w)) C"
    and "adm_queuedBytes (admission w') =
         adm_queuedBytes (admission w) + queuedBytes C - queuedBytes (conns w c)"
    and "adm_queuedBytes (admission w') \<le> MaxAggregateQueuedBytes (cfg w)"
  shows "queues_ok P w'"
  using assms accounted_change [OF _ assms(3,5)] by (auto simp: queues_ok_def)

lemma refund_within [simp]:
  "0 \<le> n \<Longrightarrow> n \<le> adm_queuedBytes (admission w) \<Longrightarrow>
   admission (refund n w) = (admission w)\<lparr>adm_queuedBytes := adm_queuedBytes (admission w) - n\<rparr>"
  by (simp add: refund_def releaseQueuedBytes_def)

lemma refund_simps [simp]:
  "conns (refund n w) = conns w" "cfg (refund n w) = cfg w" "clock (refund n w) = clock w"
  "homes (refund n w) = homes w" "routes (refund n w) = routes w"
  by (simp_all add: refund_def)

lemma queues_ok_budget: "queues_ok P w \<Longrightarrow>
    adm_queuedBytes (admission w) \<le> MaxAggregateQueuedBytes (cfg w)"
  by (simp add: queues_ok_def)

lemma stop_queues:
  assumes "queues_ok P w" shows "queues_ok P (stop s r c w)"
proof (cases "closeOnce (conns w c)")
  case False
  have le: "0 \<le> queuedBytes (conns w c)" "queuedBytes (conns w c) \<le> adm_queuedBytes (admission w)"
    using assms by (auto intro: conn_queue_nonneg queued_le_budget)
  let ?C = "conns (stop s r c w) c"
  have C: "queue ?C = []" "queuedBytes ?C = 0"
    using False by (simp_all add: stop_def Let_def stopLease_def)
  show ?thesis
  proof (rule queues_ok_change [OF assms, where c = c and C = ?C])
    show "conns (stop s r c w) = (conns w)(c := ?C)"
      using False by (auto simp: stop_def Let_def stopLease_def)
    show "conn_queue_ok (MaxQueuedBytes (cfg w)) ?C"
      using C order_trans [OF le(1)] assms by (auto simp: conn_queue_ok_def dest!: queues_ok_conn [of _ _ c])
    show "adm_queuedBytes (admission (stop s r c w)) =
        adm_queuedBytes (admission w) + queuedBytes ?C - queuedBytes (conns w c)"
      unfolding C using False le by (simp add: stop_def Let_def stopLease_def)
    then show "adm_queuedBytes (admission (stop s r c w)) \<le> MaxAggregateQueuedBytes (cfg w)"
      using queues_ok_budget [OF assms] le C by simp
  qed simp
qed (use assms in \<open>simp add: stop_def\<close>)

lemma evict_queues:
  assumes "queues_ok P w" "\<not> closeQueued (conns w c)"
  shows "queues_ok P (evictStreamsLocked n c w)"
proof (cases "queuedBytes (conns w c) + n \<le> MaxQueuedBytes (cfg w)")
  case False
  let ?C = "conns w c"
  obtain r q rel where e: "evictLoop (MaxQueuedBytes (cfg w)) n (queue ?C) (queuedBytes ?C) = (r, q, rel)"
    by (metis prod_cases3)
  note E = evictLoop_retained [OF e]
  have ok: "conn_queue_ok (MaxQueuedBytes (cfg w)) ?C" using assms by simp
  have nonneg: "0 \<le> sum_list (map msg_len r)" by (rule sum_list_nonneg) auto
  then have le: "rel \<le> adm_queuedBytes (admission w)"
    using E(2) ok queued_le_budget [OF assms(1), of c] by (simp add: conn_queue_ok_def)
  have C: "conn_queue_ok (MaxQueuedBytes (cfg w)) (?C\<lparr>queue := r, queuedBytes := q\<rparr>)"
    using ok E assms(2) by (auto simp: conn_queue_ok_def dest: in_set_butlastD)
  show ?thesis
    by (rule queues_ok_change [OF assms(1), where c = c and C = "?C\<lparr>queue := r, queuedBytes := q\<rparr>"])
      (use False e E C le queues_ok_budget [OF assms(1)] in
        \<open>simp_all add: evictStreamsLocked_def Let_def\<close>)
qed (use assms in \<open>simp add: evictStreamsLocked_def Let_def\<close>)

lemma evict_flags [simp]:
  "closeQueued (conns (evictStreamsLocked n c w) d) = closeQueued (conns w d)"
  "queueClosed (conns (evictStreamsLocked n c w) d) = queueClosed (conns w d)"
  "closeOnce (conns (evictStreamsLocked n c w) d) = closeOnce (conns w d)"
  "fatalOnce (conns (evictStreamsLocked n c w) d) = fatalOnce (conns w d)"
  "phase (conns (evictStreamsLocked n c w) d) = phase (conns w d)"
  "cfg (evictStreamsLocked n c w) = cfg w"
  by (auto simp: evictStreamsLocked_def Let_def split: prod.splits)

lemma reserve_cases:
  obtains "reserveQueuedBytes cf n A = (False, A)"
  | "reserveQueuedBytes cf n A = (True, A\<lparr>adm_queuedBytes := adm_queuedBytes A + n\<rparr>)"
    "0 \<le> n" "adm_queuedBytes A + n \<le> MaxAggregateQueuedBytes cf"
  by (cases "n < 0 \<or> n > MaxAggregateQueuedBytes cf - adm_queuedBytes A")
    (auto simp: reserveQueuedBytes_def)

lemma enqueueBytes_queues:
  assumes "queues_ok P w" shows "queues_ok P (snd (enqueueBytes m p c w))"
proof (cases "queueClosed (conns w c) \<or> closeQueued (conns w c)")
  case False
  define w1 where "w1 = (if p then evictStreamsLocked (msg_len m) c w else w)"
  have q1: "queues_ok P w1" using assms False by (simp add: w1_def evict_queues)
  have flags: "\<not> queueClosed (conns w1 c)" "\<not> closeQueued (conns w1 c)"
    using False by (auto simp: w1_def)
  let ?C = "(conns w1 c)\<lparr>queuedBytes := queuedBytes (conns w1 c) + msg_len m,
      closeQueued := closeStatus m \<noteq> 0, queue := queue (conns w1 c) @ [m]\<rparr>"
  have ok: "conn_queue_ok (MaxQueuedBytes (cfg w1)) (conns w1 c)" using q1 by simp
  show ?thesis
  proof (cases rule: reserve_cases [of "cfg w1" "msg_len m" "admission w1"])
    case 1
    then show ?thesis using q1 False
      by (simp add: enqueueBytes_def Let_def flip: w1_def)
  next
    case 2
    let ?w' = "updConn c (\<lambda>_. ?C)
        (w1\<lparr>admission := (admission w1)\<lparr>adm_queuedBytes := adm_queuedBytes (admission w1) + msg_len m\<rparr>\<rparr>)"
    have "queues_ok P ?w'" if "queuedBytes (conns w1 c) + msg_len m \<le> MaxQueuedBytes (cfg w1)"
      using that ok flags 2(3)
      by (intro queues_ok_change [OF q1, where c = c and C = ?C]) (auto simp: conn_queue_ok_def)
    then show ?thesis using q1 False 2(1) flags
      by (auto simp: enqueueBytes_def Let_def updConn_def simp flip: w1_def)
  qed
qed (use assms in \<open>auto simp: enqueueBytes_def\<close>)

lemma enqueueBytes_queues':
  "enqueueBytes m p c w = (ok, w') \<Longrightarrow> queues_ok P w \<Longrightarrow> queues_ok P w'"
  using enqueueBytes_queues [of P w m p c] by simp

lemma enqueueBytes_cfg: "enqueueBytes m p c w = (ok, w') \<Longrightarrow> cfg w' = cfg w"
  by (rule only_queues_world [OF only_queues_enqueueBytes])

lemma makeRoom_queues:
  assumes "queues_ok P w" "msg_len m \<le> MaxQueuedBytes (cfg w)"
  shows "queues_ok P (snd (failMakeRoom m c w))"
proof (cases "queueClosed (conns w c)")
  case False
  let ?C0 = "(conns w c)\<lparr>queue := [], queuedBytes := 0\<rparr>"
  define w1 where "w1 = refund (queuedBytes (conns w c))
      (updConn c (\<lambda>C. C\<lparr>queue := [], queuedBytes := 0\<rparr>) w)"
  have le: "0 \<le> queuedBytes (conns w c)" "queuedBytes (conns w c) \<le> adm_queuedBytes (admission w)"
    using assms(1) by (auto intro: conn_queue_nonneg queued_le_budget)
  have ok: "conn_queue_ok (MaxQueuedBytes (cfg w)) (conns w c)" using assms(1) by simp
  have q1: "queues_ok P w1"
    by (rule queues_ok_change [OF assms(1), where c = c and C = ?C0])
      (use le ok queues_ok_budget [OF assms(1)] in \<open>auto simp: w1_def conn_queue_ok_def\<close>)
  have w1: "conns w1 c = ?C0" "cfg w1 = cfg w" by (simp_all add: w1_def)
  have f: "failMakeRoom m c w =
      (case reserveQueuedBytes (cfg w1) (msg_len m) (admission w1) of
         (True, A) \<Rightarrow> (True, updConn c (\<lambda>C. C\<lparr>queue := [m], queuedBytes := msg_len m,
                               closeQueued := True\<rparr>) (w1\<lparr>admission := A\<rparr>))
       | (False, _) \<Rightarrow> (False, updConn c (\<lambda>C. C\<lparr>queueClosed := True\<rparr>) w1))"
    using False by (simp add: failMakeRoom_def Let_def flip: w1_def)
  show ?thesis
  proof (cases rule: reserve_cases [of "cfg w1" "msg_len m" "admission w1"])
    case 1
    have "queues_ok P (updConn c (\<lambda>C. C\<lparr>queueClosed := True\<rparr>) w1)"
      by (rule queues_ok_change [OF q1, where c = c and C = "?C0\<lparr>queueClosed := True\<rparr>"])
        (use ok le queues_ok_budget [OF q1] in \<open>auto simp: w1 conn_queue_ok_def\<close>)
    then show ?thesis by (simp add: f 1)
  next
    case 2
    have "queues_ok P (updConn c (\<lambda>C. C\<lparr>queue := [m], queuedBytes := msg_len m,
        closeQueued := True\<rparr>) (w1\<lparr>admission := (admission w1)\<lparr>adm_queuedBytes :=
           adm_queuedBytes (admission w1) + msg_len m\<rparr>\<rparr>))"
      by (rule queues_ok_change [OF q1, where c = c and
            C = "?C0\<lparr>queue := [m], queuedBytes := msg_len m, closeQueued := True\<rparr>"])
        (use ok 2 assms(2) False in \<open>auto simp: w1 conn_queue_ok_def\<close>)
    then show ?thesis by (simp add: f 2)
  qed
qed (use assms in \<open>simp add: failMakeRoom_def\<close>)

text \<open>Updates that leave the queue fields of every connection and the budget alone.\<close>

definition same_queue :: "connection \<Rightarrow> connection \<Rightarrow> bool" where
  "same_queue C C' \<longleftrightarrow>
     queue C' = queue C \<and> queuedBytes C' = queuedBytes C \<and> queueClosed C' = queueClosed C \<and>
     closeQueued C' = closeQueued C"

lemma queues_ok_local:
  assumes "queues_ok P w" "cfg w' = cfg w" "admission w' = admission w"
    and "\<And>c. same_queue (conns w c) (conns w' c)"
  shows "queues_ok P w'"
proof -
  have q: "queue (conns w' c) = queue (conns w c)"
    "queuedBytes (conns w' c) = queuedBytes (conns w c)"
    "queueClosed (conns w' c) = queueClosed (conns w c)"
    "closeQueued (conns w' c) = closeQueued (conns w c)" for c
    using assms(4) by (simp_all add: same_queue_def)
  show ?thesis using assms(1)
    unfolding queues_ok_def bytes_accounted_def conn_queue_ok_def q assms(2,3) .
qed

lemma fail_queues:
  assumes "queues_ok P w" shows "queues_ok P (fail P op e c w)"
proof (cases "fatalOnce (conns w c)")
  case False
  define w1 where
    "w1 = updConn c (\<lambda>C. C\<lparr>fatalOnce := True, phase := phaseClosed, detaching := True\<rparr>) w"
  have q1: "queues_ok P w1"
    by (rule queues_ok_local [OF assms]) (simp_all add: w1_def same_queue_def)
  show ?thesis
  proof (cases "EncodeFrame P (fatalFrame op e)")
    case None
    then show ?thesis using False q1
      by (simp add: fail_def Let_def stop_queues flip: w1_def)
  next
    case (Some b)
    let ?m = "fatalMessage b e"
    obtain ok2 w2 where 2: "enqueueBytes ?m True c w1 = (ok2, w2)" by (meson surj_pair)
    obtain ok3 w3 where 3: "failMakeRoom ?m c w2 = (ok3, w3)" by (meson surj_pair)
    have q2: "queues_ok P w2" using 2 q1 by (rule enqueueBytes_queues')
    have "msg_len ?m \<le> MaxQueuedBytes (cfg w2)"
      using q2 Some by (force simp: fatalMessage_def queues_ok_def codec_bounded_def config_ok_def)
    then have "queues_ok P w3" using makeRoom_queues [OF q2, of ?m c] 3 by simp
    then show ?thesis using False q2
      by (simp add: fail_def Let_def Some 2 3 stop_queues flip: w1_def split: bool.splits)
  qed
qed (use assms in \<open>simp add: fail_def\<close>)

lemma enqueueMessage_queues:
  "queues_ok P w \<Longrightarrow> queues_ok P (snd (enqueueMessage P f m p c w))"
  by (auto simp: enqueueMessage_def stop_queues split: option.splits prod.splits bool.splits
      intro: fail_queues enqueueBytes_queues')

lemma nextMessage_queues:
  assumes "queues_ok P w" shows "queues_ok P (snd (nextMessage c w))"
proof (cases "queue (conns w c)")
  case (Cons m ms)
  let ?C = "(conns w c)\<lparr>queue := ms, queuedBytes := queuedBytes (conns w c) - msg_len m\<rparr>"
  have ok: "conn_queue_ok (MaxQueuedBytes (cfg w)) (conns w c)" using assms by simp
  have "0 \<le> sum_list (map msg_len ms)" by (rule sum_list_nonneg) auto
  then have len: "0 \<le> msg_len m" "msg_len m \<le> queuedBytes (conns w c)"
    using ok Cons by (auto simp: conn_queue_ok_def)
  have C: "conn_queue_ok (MaxQueuedBytes (cfg w)) ?C"
    using ok Cons len by (cases ms) (auto simp: conn_queue_ok_def)
  show ?thesis
    by (rule queues_ok_change [OF assms, where c = c and C = ?C])
      (use Cons C len queued_le_budget [OF assms, of c] queues_ok_budget [OF assms] in
        \<open>simp_all add: nextMessage_def\<close>)
qed (use assms in \<open>simp add: nextMessage_def\<close>)

lemma endRequest_queues: "queues_ok P w \<Longrightarrow> queues_ok P (endRequest r c w)"
  by (erule queues_ok_local) (simp_all add: endRequest_def same_queue_def)

lemma writeStep_queues: "queues_ok P w \<Longrightarrow> queues_ok P (writeStep b c w)"
  using nextMessage_queues [of P w c]
  by (auto simp: writeStep_def Let_def stop_queues endRequest_queues split: prod.splits option.splits)

section \<open>Locality and success\<close>

text \<open>An operation on the queue of \<open>c\<close> leaves every other connection as it was.\<close>

definition only_conn :: "nat \<Rightarrow> relay \<Rightarrow> relay \<Rightarrow> bool" where
  "only_conn c w w' \<longleftrightarrow> (\<forall>d. d \<noteq> c \<longrightarrow> conns w' d = conns w d)"

lemma only_connD: "only_conn c w w' \<Longrightarrow> d \<noteq> c \<Longrightarrow> conns w' d = conns w d"
  by (simp add: only_conn_def)

lemma only_conn_refl [simp, intro]: "only_conn c w w"
  by (simp add: only_conn_def)

lemma only_conn_trans [trans]: "only_conn c u v \<Longrightarrow> only_conn c v w \<Longrightarrow> only_conn c u w"
  by (simp add: only_conn_def)

lemma only_conn_updConn [simp, intro]: "only_conn c w (updConn c g w)"
  by (simp add: only_conn_def)

lemma only_conn_refund [simp]: "only_conn c w (refund n v) = only_conn c w v"
  by (simp add: only_conn_def refund_def)

lemma only_conn_stop [simp, intro]: "only_conn c w (stop s r c w)"
  by (auto simp: only_conn_def stop_def Let_def stopLease_def)

lemma only_conn_evict [simp, intro]: "only_conn c w (evictStreamsLocked n c w)"
  by (auto simp: only_conn_def evictStreamsLocked_def Let_def split: prod.split)

lemma only_conn_enqueueBytes: "only_conn c w (snd (enqueueBytes m p c w))"
  using only_conn_evict [of c w "msg_len m"]
  by (auto simp: only_conn_def enqueueBytes_def Let_def split: prod.split bool.split)

lemma only_conn_makeRoom: "only_conn c w (snd (failMakeRoom m c w))"
  by (auto simp: only_conn_def failMakeRoom_def Let_def split: prod.split bool.split)

lemma only_conn_fail [simp, intro]: "only_conn c w (fail P op e c w)"
proof (cases "fatalOnce (conns w c)")
  case False
  define w1 where
    "w1 = updConn c (\<lambda>C. C\<lparr>fatalOnce := True, phase := phaseClosed, detaching := True\<rparr>) w"
  have 1: "only_conn c w w1" by (simp add: w1_def)
  show ?thesis
  proof (cases "EncodeFrame P (fatalFrame op e)")
    case None
    then show ?thesis using False 1
      by (auto simp: fail_def Let_def simp flip: w1_def intro: only_conn_trans)
  next
    case (Some b)
    let ?m = "fatalMessage b e"
    have 2: "only_conn c w (snd (enqueueBytes ?m True c w1))"
      using 1 only_conn_enqueueBytes by (rule only_conn_trans)
    have 3: "only_conn c w (snd (failMakeRoom ?m c (snd (enqueueBytes ?m True c w1))))"
      using 2 only_conn_makeRoom by (rule only_conn_trans)
    show ?thesis using False Some 2 3 only_conn_trans [OF 3 only_conn_stop]
      by (simp add: fail_def Let_def split_beta split: bool.split flip: w1_def)
  qed
qed (simp add: fail_def)

lemma only_conn_message: "only_conn c w (snd (enqueueMessage P f m p c w))"
  using only_conn_trans [OF only_conn_enqueueBytes only_conn_fail]
  by (simp add: enqueueMessage_def split_beta only_conn_enqueueBytes split: option.split bool.split)

lemma only_conn_enqueue [simp, intro]: "only_conn c w (snd (enqueue P f p c w))"
  by (simp add: enqueue_def enqueueRequestTerminal_def only_conn_message split: option.split)

lemma only_conn_terminal [simp, intro]: "only_conn c w (snd (enqueueRequestTerminal P f r p c w))"
  by (simp add: enqueueRequestTerminal_def only_conn_message)

lemma only_conn_stream [simp, intro]: "only_conn c w (snd (enqueueStream P f c w))"
  by (simp add: enqueueStream_def only_conn_message)

text \<open>What a successful enqueue has done: the encoded frame is the newest message, behind
  everything that was queued, except the stream messages a priority frame may evict.\<close>

definition appended :: "nat \<Rightarrow> outboundMessage \<Rightarrow> bool \<Rightarrow> relay \<Rightarrow> relay \<Rightarrow> bool" where
  "appended c m priority w w' \<longleftrightarrow>
     (\<exists>old. queue (conns w' c) = old @ [m] \<and>
        (\<exists>k. old = filter (\<lambda>m. \<not> droppableStream m) (take k (queue (conns w c))) @
                    drop k (queue (conns w c))) \<and>
        (\<not> priority \<longrightarrow> old = queue (conns w c)))"

lemma evict_queue:
  "\<exists>k. queue (conns (evictStreamsLocked n c w) c) =
     filter (\<lambda>m. \<not> droppableStream m) (take k (queue (conns w c))) @ drop k (queue (conns w c))"
proof (cases "queuedBytes (conns w c) + n \<le> MaxQueuedBytes (cfg w)")
  case True
  then show ?thesis by (intro exI [of _ 0]) (simp add: evictStreamsLocked_def Let_def)
next
  case False
  obtain r q rel where e:
    "evictLoop (MaxQueuedBytes (cfg w)) n (queue (conns w c)) (queuedBytes (conns w c)) = (r, q, rel)"
    by (metis prod_cases3)
  from evictLoop_split [of "MaxQueuedBytes (cfg w)" n "queue (conns w c)" "queuedBytes (conns w c)"]
  obtain k where "r = filter (\<lambda>m. \<not> droppableStream m) (take k (queue (conns w c))) @ drop k (queue (conns w c))"
    by (auto simp: evicted_upto_def e)
  then show ?thesis using False e by (intro exI [of _ k]) (simp add: evictStreamsLocked_def Let_def)
qed

lemma enqueueBytes_appended:
  assumes "enqueueBytes m p c w = (True, w')" shows "appended c m p w w'"
proof -
  define w1 where "w1 = (if p then evictStreamsLocked (msg_len m) c w else w)"
  have "queue (conns w' c) = queue (conns w1 c) @ [m]"
    using assms by (auto simp: enqueueBytes_def Let_def split: if_splits prod.splits bool.splits
        simp flip: w1_def)
  moreover have "\<exists>k. queue (conns w1 c) =
      filter (\<lambda>m. \<not> droppableStream m) (take k (queue (conns w c))) @ drop k (queue (conns w c))"
    using evict_queue [of "msg_len m" c w] by (auto simp: w1_def intro: exI [of _ 0])
  ultimately show ?thesis by (auto simp: appended_def w1_def)
qed

lemma enqueueMessage_ok:
  "enqueueMessage P f m p c w = (True, w') \<Longrightarrow>
   \<exists>b. EncodeFrame P f = Some b \<and> appended c (m\<lparr>msg_bytes := b\<rparr>) p w w'"
  by (auto simp: enqueueMessage_def split: option.splits prod.splits bool.splits
      intro: enqueueBytes_appended)

text \<open>The message \<open>enqueue\<close> builds for an encoded frame.\<close>

definition plainMessage :: "frame \<Rightarrow> byte list \<Rightarrow> outboundMessage" where
  "plainMessage f b = emptyMessage\<lparr>msg_bytes := b, afterWrite := responseRequestIdentifier f\<rparr>"

lemma enqueue_ok:
  "enqueue P f p c w = (True, w') \<Longrightarrow>
   \<exists>b. EncodeFrame P f = Some b \<and> appended c (plainMessage f b) p w w'"
  by (auto simp: enqueue_def enqueueRequestTerminal_def plainMessage_def split: option.splits
      dest!: enqueueMessage_ok) (simp_all add: emptyMessage_def)

text \<open>A failed enqueue leaves the connection closed to everything further.\<close>

lemma enqueueBytes_rejects: "queueClosed (conns w c) \<or> closeQueued (conns w c) \<Longrightarrow>
    enqueueBytes m p c w = (False, w)"
  by (auto simp: enqueueBytes_def)

section \<open>After a fatal error\<close>

definition silenced :: "connection \<Rightarrow> bool" where
  "silenced C \<longleftrightarrow> fatalOnce C \<and> (queueClosed C \<or> closeQueued C)"

lemma stop_closes: "\<not> closeOnce (conns w c) \<Longrightarrow>
    queue (conns (stop s r c w) c) = [] \<and> queueClosed (conns (stop s r c w) c) \<and>
    socketClosed (conns (stop s r c w) c) = Some (s, r)"
  by (simp add: stop_def Let_def stopLease_def refund_def)

lemma stop_keeps_shut:
  "queueClosed (conns w c) \<or> closeQueued (conns w c) \<Longrightarrow>
   queueClosed (conns (stop s r c w) c) \<or> closeQueued (conns (stop s r c w) c)"
  by (auto simp: stop_def Let_def stopLease_def refund_def)

lemma stop_fatalOnce [simp]: "fatalOnce (conns (stop s r c w) d) = fatalOnce (conns w d)"
  by (auto simp: stop_def Let_def stopLease_def refund_def)

lemma enqueueBytes_fatalOnce: "fatalOnce (conns (snd (enqueueBytes m p c w)) d) = fatalOnce (conns w d)"
  by (auto simp: enqueueBytes_def Let_def split: prod.split bool.split)

lemma makeRoom_fatalOnce: "fatalOnce (conns (snd (failMakeRoom m c w)) d) = fatalOnce (conns w d)"
  by (auto simp: failMakeRoom_def Let_def refund_def split: prod.split bool.split)

lemma makeRoom_False: "failMakeRoom m c w = (False, w') \<Longrightarrow> queueClosed (conns w' c)"
  by (auto simp: failMakeRoom_def Let_def refund_def split: if_splits prod.splits bool.splits)

lemma makeRoom_True:
  "failMakeRoom m c w = (True, w') \<Longrightarrow> closeQueued (conns w' c) \<and> queue (conns w' c) = [m]"
  by (auto simp: failMakeRoom_def Let_def refund_def split: if_splits prod.splits bool.splits)

lemma enqueueBytes_close:
  "enqueueBytes m p c w = (True, w') \<Longrightarrow> closeStatus m \<noteq> 0 \<Longrightarrow> closeQueued (conns w' c)"
  by (auto simp: enqueueBytes_def Let_def split: if_splits prod.splits bool.splits)

text \<open>The first \<open>fail\<close> silences a connection.\<close>

lemma stop_shut_if_open: "\<not> closeOnce (conns w c) \<Longrightarrow> queueClosed (conns (stop s r c w) c)"
  by (simp add: stop_closes)

lemma stop_shut:
  "closeOnce (conns w c) \<longrightarrow> queueClosed (conns w c) \<Longrightarrow> queueClosed (conns (stop s r c w) c)"
  by (cases "closeOnce (conns w c)") (simp_all add: stop_shut_if_open, simp add: stop_def)

lemma fail_ends:
  assumes "\<not> fatalOnce (conns w c)" "closeOnce (conns w c) \<longrightarrow> queueClosed (conns w c)"
    and "closeCode e \<noteq> 0"
  shows "silenced (conns (fail P op e c w) c)"
proof -
  define w1 where
    "w1 = updConn c (\<lambda>C. C\<lparr>fatalOnce := True, phase := phaseClosed, detaching := True\<rparr>) w"
  have 1: "fatalOnce (conns w1 c)" "closeOnce (conns w1 c) \<longrightarrow> queueClosed (conns w1 c)"
    using assms(2) by (simp_all add: w1_def)
  show ?thesis
  proof (cases "EncodeFrame P (fatalFrame op e)")
    case None
    then show ?thesis using assms(1) 1 stop_shut [of w1]
      by (simp add: fail_def Let_def silenced_def flip: w1_def)
  next
    case (Some b)
    let ?m = "fatalMessage b e"
    have m: "closeStatus ?m \<noteq> 0" using assms(3) by (simp add: fatalMessage_def)
    obtain ok2 w2 where 2: "enqueueBytes ?m True c w1 = (ok2, w2)" by (meson surj_pair)
    obtain ok3 w3 where 3: "failMakeRoom ?m c w2 = (ok3, w3)" by (meson surj_pair)
    have f: "fatalOnce (conns w2 c)" "fatalOnce (conns w3 c)"
      using 1(1) enqueueBytes_fatalOnce [of ?m True c w1 c] makeRoom_fatalOnce [of ?m c w2 c]
      by (simp_all add: 2 3)
    have "fail P op e c w = (if ok2 then w2 else if ok3 then w3
        else stop closeInternal ''aggregate_queue_exhausted'' c w3)"
      using assms(1) Some 2 3 by (simp add: fail_def Let_def flip: w1_def split: bool.split)
    then show ?thesis
      using f enqueueBytes_close [OF _ m, of True c w1 w2] makeRoom_True [of ?m c w2 w3]
        makeRoom_False [of ?m c w2 w3] stop_shut [of w3] 2 3
      by (auto simp: silenced_def)
  qed
qed

text \<open>Nothing more is sent to a silenced connection.\<close>

lemma silenced_message:
  "silenced (conns w c) \<Longrightarrow> EncodeFrame P f \<noteq> None \<Longrightarrow> enqueueMessage P f m p c w = (False, w)"
  by (auto simp: silenced_def enqueueMessage_def enqueueBytes_rejects fail_def split: option.split)

lemma silenced_enqueue:
  "silenced (conns w c) \<Longrightarrow> EncodeFrame P f \<noteq> None \<Longrightarrow> enqueue P f p c w = (False, w)"
  by (simp add: enqueue_def enqueueRequestTerminal_def silenced_message split: option.split)

text \<open>What is queued elsewhere decides whether the last message of a connection finds room: everything
  of the connection itself gives way to it.\<close>

definition others_bytes :: "relay \<Rightarrow> nat \<Rightarrow> int" where
  "others_bytes w c = adm_queuedBytes (admission w) - queuedBytes (conns w c)"

lemma evict_others:
  assumes "queues_ok P w" shows "others_bytes (evictStreamsLocked n c w) c = others_bytes w c"
proof (cases "queuedBytes (conns w c) + n \<le> MaxQueuedBytes (cfg w)")
  case False
  obtain r q rel where e:
    "evictLoop (MaxQueuedBytes (cfg w)) n (queue (conns w c)) (queuedBytes (conns w c)) = (r, q, rel)"
    by (metis prod_cases3)
  note E = evictLoop_retained [OF e]
  have "0 \<le> sum_list (map msg_len r)" by (rule sum_list_nonneg) auto
  then have "rel \<le> adm_queuedBytes (admission w)"
    using E(2) queues_ok_conn [OF assms, of c] queued_le_budget [OF assms, of c]
    by (simp add: conn_queue_ok_def)
  then show ?thesis using False e E
    by (simp add: evictStreamsLocked_def Let_def others_bytes_def)
qed (simp add: evictStreamsLocked_def Let_def)

lemma rejected_others:
  assumes "queues_ok P w" "enqueueBytes m p c w = (False, w')"
  shows "others_bytes w' c = others_bytes w c"
  using assms(2) evict_others [OF assms(1)]
  by (auto simp: enqueueBytes_def Let_def split: if_splits prod.splits bool.splits)

lemma accepted_others:
  assumes "queues_ok P w" "enqueueBytes m p c w = (True, w')"
  shows "others_bytes w' c = others_bytes w c"
proof -
  define w1 where "w1 = (if p then evictStreamsLocked (msg_len m) c w else w)"
  have "others_bytes w1 c = others_bytes w c" using evict_others [OF assms(1)] by (simp add: w1_def)
  moreover have "others_bytes w' c = others_bytes w1 c"
    using assms(2)
    by (cases rule: reserve_cases [of "cfg w1" "msg_len m" "admission w1"])
      (auto simp: enqueueBytes_def Let_def others_bytes_def simp flip: w1_def split: if_splits)
  ultimately show ?thesis by simp
qed

lemma makeRoom_fits:
  assumes "queues_ok P w" "\<not> queueClosed (conns w c)"
  shows "fst (failMakeRoom m c w) \<longleftrightarrow> others_bytes w c + msg_len m \<le> MaxAggregateQueuedBytes (cfg w)"
proof -
  have le: "0 \<le> queuedBytes (conns w c)" "queuedBytes (conns w c) \<le> adm_queuedBytes (admission w)"
    using assms(1) by (auto intro: conn_queue_nonneg queued_le_budget)
  then show ?thesis using assms(2)
    by (auto simp: failMakeRoom_def Let_def reserveQueuedBytes_def others_bytes_def)
qed

lemma enqueueBytes_flags:
  "enqueueBytes m p c w = (ok, w') \<Longrightarrow> queueClosed (conns w' c) = queueClosed (conns w c) \<and>
   closeOnce (conns w' c) = closeOnce (conns w c)"
  by (auto simp: enqueueBytes_def Let_def split: if_splits prod.splits bool.splits)

lemma makeRoom_flags:
  "failMakeRoom m c w = (ok, w') \<Longrightarrow> closeOnce (conns w' c) = closeOnce (conns w c) \<and>
   (ok \<longrightarrow> queueClosed (conns w' c) = queueClosed (conns w c))"
  by (auto simp: failMakeRoom_def Let_def split: if_splits prod.splits bool.splits)

text \<open>The exact end of a connection: the FATAL frame is the last of its queue whenever the process has
  room for it beside what the other connections hold; only then is the connection cut off at once.\<close>

lemma fail_exact:
  assumes "queues_ok P w" "\<not> fatalOnce (conns w c)" "\<not> closeOnce (conns w c)"
    and "\<not> queueClosed (conns w c)" "EncodeFrame P (fatalFrame op e) = Some b"
  defines "C \<equiv> conns (fail P op e c w) c"
  shows "if others_bytes w c + int (length b) \<le> MaxAggregateQueuedBytes (cfg w)
    then \<not> queueClosed C \<and> queue C \<noteq> [] \<and> last (queue C) = fatalMessage b e
    else queueClosed C \<and> queue C = [] \<and> socketClosed C = Some (closeInternal, ''aggregate_queue_exhausted'')"
proof -
  define w1 where
    "w1 = updConn c (\<lambda>C. C\<lparr>fatalOnce := True, phase := phaseClosed, detaching := True\<rparr>) w"
  let ?m = "fatalMessage b e"
  have 1: "queues_ok P w1" "\<not> queueClosed (conns w1 c)" "\<not> closeOnce (conns w1 c)" "cfg w1 = cfg w"
    "others_bytes w1 c = others_bytes w c"
    using queues_ok_local [OF assms(1), of w1] assms(3,4)
    by (simp_all add: w1_def same_queue_def others_bytes_def)
  have len: "msg_len ?m = int (length b)" by (simp add: fatalMessage_def)
  obtain ok2 w2 where 2: "enqueueBytes ?m True c w1 = (ok2, w2)" by (meson surj_pair)
  note F2 = enqueueBytes_flags [OF 2] and Q2 = enqueueBytes_queues' [OF 2 1(1)]
    and C2 = enqueueBytes_cfg [OF 2]
  show ?thesis
  proof (cases ok2)
    case True
    have "\<exists>old. queue (conns w2 c) = old @ [?m]"
      using enqueueBytes_appended [of ?m True c w1 w2] 2 True by (auto simp: appended_def)
    moreover have "others_bytes w c + int (length b) \<le> MaxAggregateQueuedBytes (cfg w)"
    proof -
      obtain old where old: "queue (conns w2 c) = old @ [?m]" using calculation by blast
      have "0 \<le> sum_list (map msg_len old)" by (rule sum_list_nonneg) auto
      then have "int (length b) \<le> queuedBytes (conns w2 c)"
        using queues_ok_conn [OF Q2, of c] old len by (simp add: conn_queue_ok_def)
      moreover have "others_bytes w2 c = others_bytes w c"
        using accepted_others [OF 1(1)] 2 True 1(5) by simp
      ultimately show ?thesis
        using queues_ok_budget [OF Q2] C2 1(4) by (simp add: others_bytes_def)
    qed
    ultimately show ?thesis using True assms(2,5) 2 F2 1
      by (auto simp: C_def fail_def Let_def simp flip: w1_def)
  next
    case no2: False
    obtain ok3 w3 where 3: "failMakeRoom ?m c w2 = (ok3, w3)" by (meson surj_pair)
    note F3 = makeRoom_flags [OF 3]
    have "ok3 \<longleftrightarrow> others_bytes w c + int (length b) \<le> MaxAggregateQueuedBytes (cfg w)"
      using makeRoom_fits [OF Q2, of c ?m] F2 1 3 rejected_others [OF 1(1)] 2 no2 C2 len by simp
    moreover have "fail P op e c w = (if ok3 then w3 else stop closeInternal ''aggregate_queue_exhausted'' c w3)"
      using no2 assms(2,5) 2 3 by (simp add: fail_def Let_def flip: w1_def split: bool.splits)
    ultimately show ?thesis
      using makeRoom_True [of ?m c w2 w3] stop_closes [of w3 c] F2 F3 1 3
      by (auto simp: C_def)
  qed
qed

section \<open>Delivery of a list of frames\<close>

text \<open>What one frame can cost the shared budget, whether it is queued or fails its connection.\<close>

lemma refund_spends: "adm_queuedBytes (admission (refund n w)) \<le> adm_queuedBytes (admission w)"
  by (simp add: refund_def releaseQueuedBytes_def)

lemma stop_spends: "adm_queuedBytes (admission (stop s r c w)) \<le> adm_queuedBytes (admission w)"
  using refund_spends by (simp add: stop_def Let_def stopLease_def refund_def releaseQueuedBytes_def)

lemma evict_spends:
  "adm_queuedBytes (admission (evictStreamsLocked n c w)) \<le> adm_queuedBytes (admission w)"
  using refund_spends by (auto simp: evictStreamsLocked_def Let_def refund_def releaseQueuedBytes_def
      split: prod.split)

lemma enqueueBytes_spends:
  "enqueueBytes m p c w = (ok, w') \<Longrightarrow>
   adm_queuedBytes (admission w') \<le> adm_queuedBytes (admission w) + (if ok then msg_len m else 0)"
  using evict_spends [of "msg_len m" c w]
  by (auto simp: enqueueBytes_def Let_def reserveQueuedBytes_def split: if_splits prod.splits bool.splits)

lemma makeRoom_spends:
  "failMakeRoom m c w = (ok, w') \<Longrightarrow>
   adm_queuedBytes (admission w') \<le> adm_queuedBytes (admission w) + (if ok then msg_len m else 0)"
  by (auto simp: failMakeRoom_def Let_def reserveQueuedBytes_def refund_def releaseQueuedBytes_def
      split: if_splits prod.splits bool.splits)

lemma fail_spends:
  assumes "codec_bounded P"
  shows "adm_queuedBytes (admission (fail P op e c w)) \<le> adm_queuedBytes (admission w) + MaxFrameBytes P"
proof -
  define w1 where
    "w1 = updConn c (\<lambda>C. C\<lparr>fatalOnce := True, phase := phaseClosed, detaching := True\<rparr>) w"
  have 1: "admission w1 = admission w" by (simp add: w1_def)
  have pos: "0 < MaxFrameBytes P" using assms by (simp add: codec_bounded_def)
  show ?thesis
  proof (cases "EncodeFrame P (fatalFrame op e)")
    case None
    then show ?thesis using stop_spends [of closeInternal "''internal_failure''" c w1] 1 pos
      by (simp add: fail_def Let_def flip: w1_def)
  next
    case (Some b)
    let ?m = "fatalMessage b e"
    have len: "msg_len ?m \<le> MaxFrameBytes P"
      using assms Some by (simp add: codec_bounded_def fatalMessage_def)
    obtain ok2 w2 where 2: "enqueueBytes ?m True c w1 = (ok2, w2)" by (meson surj_pair)
    obtain ok3 w3 where 3: "failMakeRoom ?m c w2 = (ok3, w3)" by (meson surj_pair)
    note S = enqueueBytes_spends [OF 2] makeRoom_spends [OF 3]
      stop_spends [of closeInternal "''aggregate_queue_exhausted''" c w3]
    have "fail P op e c w = (if fatalOnce (conns w c) then w else if ok2 then w2 else if ok3 then w3
        else stop closeInternal ''aggregate_queue_exhausted'' c w3)"
      by (simp add: fail_def Let_def Some 2 3 flip: w1_def split: bool.split)
    then show ?thesis using S 1 len pos by (auto split: if_splits)
  qed
qed

lemma enqueueMessage_spends:
  assumes "codec_bounded P"
  shows "adm_queuedBytes (admission (snd (enqueueMessage P f m p c w))) \<le>
    adm_queuedBytes (admission w) + MaxFrameBytes P"
proof (cases "EncodeFrame P f")
  case None
  then show ?thesis using stop_spends [of closeInternal "''internal_failure''" c w] assms
    by (simp add: enqueueMessage_def codec_bounded_def)
next
  case (Some b)
  have len: "msg_len (m\<lparr>msg_bytes := b\<rparr>) \<le> MaxFrameBytes P" using assms Some by (simp add: codec_bounded_def)
  obtain ok w1 where 1: "enqueueBytes (m\<lparr>msg_bytes := b\<rparr>) p c w = (ok, w1)" by (meson surj_pair)
  show ?thesis using enqueueBytes_spends [OF 1] fail_spends [OF assms, of 0 slowConsumer c w1] len
    by (cases ok) (simp_all add: enqueueMessage_def Some 1)
qed

lemma enqueue_message: "enqueue P f p c w =
    enqueueMessage P f (emptyMessage\<lparr>afterWrite := responseRequestIdentifier f\<rparr>) p c w"
  by (simp add: enqueue_def enqueueRequestTerminal_def emptyMessage_def split: option.split)

lemma enqueue_spends:
  "codec_bounded P \<Longrightarrow> adm_queuedBytes (admission (snd (enqueue P f p c w))) \<le>
    adm_queuedBytes (admission w) + MaxFrameBytes P"
  unfolding enqueue_message by (rule enqueueMessage_spends)

text \<open>A frame that cannot be queued fails its connection, for good.\<close>

lemma fail_fatalOnce: "fatalOnce (conns w c) \<or> d = c \<Longrightarrow> EncodeFrame P f \<noteq> None \<Longrightarrow>
    enqueueBytes m p d w = (False, w1) \<Longrightarrow> fatalOnce (conns (fail P op e d w1) c)"
proof -
  assume c: "fatalOnce (conns w c) \<or> d = c" and e: "enqueueBytes m p d w = (False, w1)"
  have w1: "fatalOnce (conns w1 c) \<or> d = c" using c enqueueBytes_fatalOnce [of m p d w c] e by auto
  let ?w = "updConn d (\<lambda>C. C\<lparr>fatalOnce := True, phase := phaseClosed, detaching := True\<rparr>) w1"
  have f: "fatalOnce (conns ?w c)" using w1 by auto
  show "fatalOnce (conns (fail P op e d w1) c)"
  proof (cases "EncodeFrame P (fatalFrame op e)")
    case None
    then show ?thesis using w1 f by (auto simp: fail_def Let_def)
  next
    case (Some b)
    let ?m = "fatalMessage b e"
    obtain ok2 w2 where 2: "enqueueBytes ?m True d ?w = (ok2, w2)" by (meson surj_pair)
    obtain ok3 w3 where 3: "failMakeRoom ?m d w2 = (ok3, w3)" by (meson surj_pair)
    have "fatalOnce (conns w2 c)" "fatalOnce (conns w3 c)"
      using f enqueueBytes_fatalOnce [of ?m True d ?w c] makeRoom_fatalOnce [of ?m d w2 c] 2 3 by simp_all
    then show ?thesis using w1 by (auto simp: fail_def Let_def Some 2 3 split: bool.split)
  qed
qed

lemma enqueue_fatal:
  assumes "EncodeFrame P f = Some b"
  shows "fatalOnce (conns (snd (enqueue P f p c w)) c) \<or>
    fatalOnce (conns (snd (enqueue P f p c w)) c) = fatalOnce (conns w c) \<and> fst (enqueue P f p c w)"
    and "fatalOnce (conns w c) \<Longrightarrow> fatalOnce (conns (snd (enqueue P f p c w)) c)"
proof -
  let ?m = "emptyMessage\<lparr>afterWrite := responseRequestIdentifier f, msg_bytes := b\<rparr>"
  obtain ok w1 where 1: "enqueueBytes ?m p c w = (ok, w1)" by (meson surj_pair)
  have f: "fatalOnce (conns w1 c) = fatalOnce (conns w c)"
    using enqueueBytes_fatalOnce [of ?m p c w c] by (simp add: 1)
  have "\<not> ok \<Longrightarrow> fatalOnce (conns (fail P 0 slowConsumer c w1) c)"
    using fail_fatalOnce [of w c c P f ?m p w1] assms 1 by auto
  then show "fatalOnce (conns (snd (enqueue P f p c w)) c) \<or>
    fatalOnce (conns (snd (enqueue P f p c w)) c) = fatalOnce (conns w c) \<and> fst (enqueue P f p c w)"
    "fatalOnce (conns w c) \<Longrightarrow> fatalOnce (conns (snd (enqueue P f p c w)) c)"
    using f by (auto simp: enqueue_message enqueueMessage_def assms 1 split: bool.split)
qed

text \<open>A frame is queued where there is room for it.\<close>

definition room :: "relay \<Rightarrow> nat \<Rightarrow> int \<Rightarrow> int \<Rightarrow> bool" where
  "room w c own all \<longleftrightarrow> \<not> queueClosed (conns w c) \<and> \<not> closeQueued (conns w c) \<and>
     queuedBytes (conns w c) + own \<le> MaxQueuedBytes (cfg w) \<and>
     adm_queuedBytes (admission w) + all \<le> MaxAggregateQueuedBytes (cfg w)"

lemma enqueue_room:
  assumes "EncodeFrame P f = Some b" "room w c (int (length b)) (int (length b))"
  shows "enqueue P f False c w = (True, updConn c (\<lambda>C. C\<lparr>queuedBytes := queuedBytes C + int (length b),
      queue := queue C @ [plainMessage f b]\<rparr>)
    (w\<lparr>admission := (admission w)\<lparr>adm_queuedBytes := adm_queuedBytes (admission w) + int (length b)\<rparr>\<rparr>))"
  using assms
  by (simp add: enqueue_message enqueueMessage_def enqueueBytes_def room_def reserveQueuedBytes_def
      plainMessage_def emptyMessage_def updConn_def)

definition sent_to :: "nat \<Rightarrow> sendAction list \<Rightarrow> nat" where
  "sent_to d as = length (filter (\<lambda>a. act_connection a = d) as)"

lemma sent_to_simps [simp]:
  "sent_to d [] = 0" "sent_to d (a # as) = (if act_connection a = d then Suc (sent_to d as) else sent_to d as)"
  by (simp_all add: sent_to_def)

lemma sent_to_pos: "0 < sent_to d as \<longleftrightarrow> d \<in> act_connection ` set as"
  by (induction as) auto

lemma dispatch_other: "sent_to d as = 0 \<Longrightarrow> conns (dispatch P as w) d = conns w d"
proof (induction as arbitrary: w)
  case (Cons a as)
  then have "d \<noteq> act_connection a" by (auto split: if_splits)
  with Cons show ?case using only_conn_enqueue [of "act_connection a" w P "act_frame a" "act_priority a"]
    by (simp add: only_conn_def)
qed simp

text \<open>Where every frame for a connection is the same one, it is queued once per action, behind what
  was queued, or the connection has failed; the latter never where there is room.\<close>

lemma dispatch_delivers:
  assumes "EncodeFrame P F = Some b"
    and "\<forall>a \<in> set as. act_connection a = d \<longrightarrow> act_frame a = F \<and> \<not> act_priority a"
  shows "fatalOnce (conns (dispatch P as w) d) \<or>
    \<not> fatalOnce (conns w d) \<and> queue (conns (dispatch P as w) d) =
      queue (conns w d) @ replicate (sent_to d as) (plainMessage F b)"
  using assms(2)
proof (induction as arbitrary: w)
  case (Cons a as)
  let ?v = "snd (enqueue P (act_frame a) (act_priority a) (act_connection a) w)"
  have IH: "fatalOnce (conns (dispatch P as ?v) d) \<or> \<not> fatalOnce (conns ?v d) \<and>
      queue (conns (dispatch P as ?v) d) = queue (conns ?v d) @ replicate (sent_to d as) (plainMessage F b)"
    using Cons by simp
  show ?case
  proof (cases "act_connection a = d")
    case False
    then have "conns ?v d = conns w d"
      using only_conn_enqueue [of "act_connection a" w P "act_frame a" "act_priority a"]
      by (simp add: only_conn_def)
    then show ?thesis using IH False by simp
  next
    case True
    then have a: "act_frame a = F" "\<not> act_priority a" using Cons.prems by simp_all
    show ?thesis
    proof (cases "fatalOnce (conns ?v d)")
      case False
      then have ok: "fst (enqueue P F False d w)" "\<not> fatalOnce (conns w d)"
        using enqueue_fatal [OF assms(1), where p = False and c = d and w = w] a True by auto
      then obtain b' where "EncodeFrame P F = Some b'" "appended d (plainMessage F b') False w ?v"
        using enqueue_ok [of P F False d w ?v] a True by (metis prod.collapse)
      then have "queue (conns ?v d) = queue (conns w d) @ [plainMessage F b]"
        using assms(1) by (auto simp: appended_def)
      then show ?thesis using IH True False ok(2) by simp
    qed (use IH in simp)
  qed
qed simp

lemma dispatch_room:
  assumes "codec_bounded P" "EncodeFrame P F = Some b"
    and "\<forall>a \<in> set as. act_connection a = d \<longrightarrow> act_frame a = F \<and> \<not> act_priority a"
    and "room w d (int (sent_to d as * length b)) (int (length as) * MaxFrameBytes P)"
  shows "queue (conns (dispatch P as w) d) =
    queue (conns w d) @ replicate (sent_to d as) (plainMessage F b)"
  using assms(3,4)
proof (induction as arbitrary: w)
  case (Cons a as)
  let ?v = "snd (enqueue P (act_frame a) (act_priority a) (act_connection a) w)"
  have M: "int (length b) \<le> MaxFrameBytes P" "0 < MaxFrameBytes P"
    using assms(1,2) by (auto simp: codec_bounded_def)
  have all: "int (length (a # as)) * MaxFrameBytes P = MaxFrameBytes P + int (length as) * MaxFrameBytes P"
    by (simp add: algebra_simps)
  have v: "adm_queuedBytes (admission ?v) + int (length as) * MaxFrameBytes P \<le>
      MaxAggregateQueuedBytes (cfg ?v)" "cfg ?v = cfg w"
    using enqueue_spends [OF assms(1), of "act_frame a" "act_priority a" "act_connection a" w]
      Cons.prems(2) unfolding room_def all by simp_all
  show ?case
  proof (cases "act_connection a = d")
    case False
    then have c: "conns ?v d = conns w d"
      using only_conn_enqueue [of "act_connection a" w P "act_frame a" "act_priority a"]
      by (simp add: only_conn_def)
    then have "room ?v d (int (sent_to d as * length b)) (int (length as) * MaxFrameBytes P)"
      using Cons.prems(2) v False by (simp add: room_def)
    then show ?thesis using Cons.IH [of ?v] Cons.prems(1) c False by simp
  next
    case True
    have a: "act_frame a = F" "\<not> act_priority a" using Cons.prems(1) True by simp_all
    have own: "int (sent_to d (a # as) * length b) = int (length b) + int (sent_to d as * length b)"
      using True by simp
    have "0 \<le> int (length as) * MaxFrameBytes P" "0 \<le> int (sent_to d as * length b)" using M(2) by simp_all
    then have r: "room w d (int (length b)) (int (length b))"
      using Cons.prems(2) M(1) unfolding room_def all own by linarith
    have e: "?v = snd (enqueue P F False d w)" using True a by simp
    have q: "queue (conns ?v d) = queue (conns w d) @ [plainMessage F b]"
      "queuedBytes (conns ?v d) = queuedBytes (conns w d) + int (length b)"
      "queueClosed (conns ?v d) = queueClosed (conns w d)" "closeQueued (conns ?v d) = closeQueued (conns w d)"
      unfolding e enqueue_room [OF assms(2) r] by simp_all
    have "room ?v d (int (sent_to d as * length b)) (int (length as) * MaxFrameBytes P)"
      using Cons.prems(2) v q unfolding room_def own by simp
    then have "queue (conns (dispatch P as ?v) d) =
        queue (conns ?v d) @ replicate (sent_to d as) (plainMessage F b)"
      using Cons.prems(1) by (intro Cons.IH) simp_all
    then show ?thesis unfolding dispatch.simps q(1) using True by simp
  qed
qed simp

section \<open>The contract with the handlers\<close>

text \<open>A predicate on the process state that the outbound operations keep.\<close>

locale outbound_contract =
  fixes P :: protocol and I :: "relay \<Rightarrow> bool"
  assumes I_message: "I w \<Longrightarrow> I (snd (enqueueMessage P f m p c w))"
    and I_fail: "I w \<Longrightarrow> I (fail P op e c w)"
    and I_stop: "I w \<Longrightarrow> I (stop s r c w)"
begin

lemma I_enqueue: "I w \<Longrightarrow> I (snd (enqueue P f p c w))"
  by (simp add: enqueue_def enqueueRequestTerminal_def I_message split: option.splits)

lemma I_terminal: "I w \<Longrightarrow> I (snd (enqueueRequestTerminal P f r p c w))"
  by (simp add: enqueueRequestTerminal_def I_message)

lemma I_stream: "I w \<Longrightarrow> I (snd (enqueueStream P f c w))"
  by (simp add: enqueueStream_def I_message)

lemma I_dispatch: "I w \<Longrightarrow> I (dispatch P as w)"
  by (induction as arbitrary: w) (auto intro: I_enqueue)

lemma I_enqueue': "enqueue P f p c w = (ok, w') \<Longrightarrow> I w \<Longrightarrow> I w'"
  by (metis I_enqueue snd_conv)

lemma I_stream': "enqueueStream P f c w = (ok, w') \<Longrightarrow> I w \<Longrightarrow> I w'"
  by (metis I_stream snd_conv)

lemma I_terminal': "enqueueRequestTerminal P f r p c w = (ok, w') \<Longrightarrow> I w \<Longrightarrow> I w'"
  by (metis I_terminal snd_conv)

end

text \<open>Updates of a connection that leave its queue, its phase and its calls alone.\<close>

definition book_only :: "connection \<Rightarrow> connection \<Rightarrow> bool" where
  "book_only C C' \<longleftrightarrow>
     same_queue C C' \<and> phase C' = phase C \<and> calls C' = calls C \<and> nextCallID C' = nextCallID C \<and>
     set (requestIDs C) \<subseteq> set (requestIDs C') \<and> (drainOnce C \<longrightarrow> drainOnce C')"

text \<open>The same, calls aside.\<close>

definition same_session :: "connection \<Rightarrow> connection \<Rightarrow> bool" where
  "same_session C C' \<longleftrightarrow>
     same_queue C C' \<and> phase C' = phase C \<and>
     set (requestIDs C) \<subseteq> set (requestIDs C') \<and> (drainOnce C \<longrightarrow> drainOnce C')"

lemma same_session_refl [simp]: "same_session C C"
  by (simp add: same_session_def same_queue_def)

lemma same_session_calls [simp]:
  "same_session C (C\<lparr>calls := m\<rparr>)" "same_session C (C\<lparr>nextCallID := i\<rparr>)"
  by (simp_all add: same_session_def same_queue_def)

text \<open>A predicate that is also blind to homes, stages and the bookkeeping of a connection.\<close>

locale session_contract = outbound_contract +
  assumes I_book: "I w \<Longrightarrow> (\<And>C. book_only C (g C)) \<Longrightarrow> I (updConn c g w)"
    and I_shared: "I w \<Longrightarrow> conns w' = conns w \<Longrightarrow> nconns w' = nconns w \<Longrightarrow>
      routes w' = routes w \<Longrightarrow> nroutes w' = nroutes w \<Longrightarrow>
      admission w' = admission w \<Longrightarrow> cfg w' = cfg w \<Longrightarrow> live w' = live w \<Longrightarrow>
      upgrades w' = upgrades w \<Longrightarrow> serving w' = serving w \<Longrightarrow> I w'"

text \<open>A predicate that is blind to calls and homes: on queues, phases, requests, the budget and the
  admissions.\<close>

locale relay_invariant = outbound_contract +
  assumes I_local: "I w \<Longrightarrow> cfg w' = cfg w \<Longrightarrow> admission w' = admission w \<Longrightarrow>
      nconns w' = nconns w \<Longrightarrow> live w' = live w \<Longrightarrow> upgrades w' = upgrades w \<Longrightarrow> serving w' = serving w \<Longrightarrow>
      (\<And>c. same_session (conns w c) (conns w' c)) \<Longrightarrow> I w'"

sublocale relay_invariant \<subseteq> session_contract
proof unfold_locales
  show "I (updConn c g w)" if "I w" "\<And>C. book_only C (g C)" for w c g
    using that by (intro I_local [OF that(1)]) (simp_all add: book_only_def same_session_def same_queue_def)
qed (erule I_local, simp_all)

interpretation rq: relay_invariant P "queues_ok P" for P
  by unfold_locales
    (auto intro: queues_ok_local enqueueMessage_queues fail_queues stop_queues simp: same_session_def)

interpretation once_stop: once_guard "\<lambda>w. closeOnce (conns w c)" "stop s r c" for s r c
  by unfold_locales (auto simp: stop_def Let_def stopLease_def)

text \<open>The parts of the queue invariant.\<close>

lemma queues_okD:
  assumes "queues_ok P w"
  shows "queuedBytes (conns w c) = sum_list (map msg_len (queue (conns w c)))"
    and "queuedBytes (conns w c) \<le> MaxQueuedBytes (cfg w)"
    and "\<forall>m \<in> set (butlast (queue (conns w c))). closeStatus m = 0"
    and "adm_queuedBytes (admission w) \<le> MaxAggregateQueuedBytes (cfg w)"
    and "\<exists>n. (\<forall>d \<ge> n. queuedBytes (conns w d) = 0) \<and>
      adm_queuedBytes (admission w) = (\<Sum>d<n. queuedBytes (conns w d))"
  using assms unfolding queues_ok_def conn_queue_ok_def bytes_accounted_def by metis+

end
