(* ===== verification/Lease.thy ===== *)
theory Lease
  imports Outbound_Inv
begin

text \<open>
  Authentication leases (\<open>connection.go\<close>, lines 698-787). Each installed lease has a
  generation; its timer fires \<open>expireLease\<close> with the generation it captured, possibly after the
  lease was replaced, because \<open>Timer.Stop\<close> cannot recall a timer that has fired.
\<close>

definition installLeaseLocked :: "int \<Rightarrow> nat \<Rightarrow> relay \<Rightarrow> relay" where
  "installLeaseLocked expiresAt c w =
     updConn c (\<lambda>C. C\<lparr>leaseGeneration := leaseGeneration C + 1, leaseExpired := False,
        leaseDeadline := Some expiresAt, leaseTimer := Some (leaseGeneration C + 1)\<rparr>) w"

definition activateInitialLease :: "nat \<Rightarrow> relay \<Rightarrow> bool \<times> relay" where
  "activateInitialLease c w =
     (let expiresAt = ExpiresAt (conn_identity (conns w c)) in
      if \<not> clock w < expiresAt then (False, updConn c (\<lambda>C. C\<lparr>leaseExpired := True\<rparr>) w)
      else (True, updConn c (\<lambda>C. C\<lparr>bootstrapped := True\<rparr>) (installLeaseLocked expiresAt c w)))"

text \<open>\<open>previousDeadline.After(now)\<close>, the zero time being before every reading of the clock.\<close>

definition deadlineAfter :: "int option \<Rightarrow> int \<Rightarrow> bool" where
  "deadlineAfter d now \<longleftrightarrow> (case d of None \<Rightarrow> False | Some t \<Rightarrow> now < t)"

definition replaceLease :: "int option \<Rightarrow> int \<Rightarrow> nat \<Rightarrow> relay \<Rightarrow> bool \<times> relay" where
  "replaceLease previousDeadline expiresAt c w =
     (let C = conns w c in
      if leaseExpired C \<or> leaseDeadline C \<noteq> previousDeadline \<or>
         \<not> deadlineAfter (leaseDeadline C) (clock w) \<or> \<not> clock w < expiresAt
      then (False, w)
      else (True, installLeaseLocked expiresAt c w))"

definition tokenExpired :: relayError where
  "tokenExpired = fatalError codeTokenExpired True ''access token expired'' closeAuth"

definition expireLease :: "protocol \<Rightarrow> nat \<Rightarrow> nat \<Rightarrow> relay \<Rightarrow> relay" where
  "expireLease P gen c w =
     (if gen \<noteq> leaseGeneration (conns w c) \<or> leaseExpired (conns w c) then w
      else fail P 0 tokenExpired c (updConn c (\<lambda>C. C\<lparr>leaseExpired := True\<rparr>) w))"

definition currentLeaseDeadline :: "nat \<Rightarrow> relay \<Rightarrow> int option \<times> bool" where
  "currentLeaseDeadline c w = (leaseDeadline (conns w c), leaseExpired (conns w c))"

definition authLeaseExpired :: "relay \<Rightarrow> nat \<Rightarrow> bool" where
  "authLeaseExpired w c \<longleftrightarrow>
     leaseExpired (conns w c) \<or>
     (case leaseDeadline (conns w c) of None \<Rightarrow> False | Some d \<Rightarrow> \<not> clock w < d)"

definition available :: "relay \<Rightarrow> nat \<Rightarrow> bool" where
  "available w c \<longleftrightarrow>
     bootstrapped (conns w c) \<and> phase (conns w c) = phaseActive \<and> \<not> authLeaseExpired w c"

section \<open>Properties\<close>

text \<open>An armed timer belongs to the lease in force.\<close>

definition lease_inv :: "connection \<Rightarrow> bool" where
  "lease_inv C \<longleftrightarrow> (\<forall>g. leaseTimer C = Some g \<longrightarrow> g = leaseGeneration C)"

lemma install_lease_inv: "lease_inv (conns (installLeaseLocked e c w) c)"
  by (simp add: installLeaseLocked_def lease_inv_def)

lemma stop_lease_inv: "lease_inv (conns w c) \<Longrightarrow> lease_inv (conns (stop s r c w) c)"
  by (auto simp: stop_def Let_def stopLease_def lease_inv_def)

text \<open>Once a lease has been replaced, the timer of the lease before it can do nothing.\<close>

lemma stale_timer:
  assumes "replaceLease d e c w = (True, w')" "g \<le> leaseGeneration (conns w c)"
  shows "expireLease P g c w' = w'"
  using assms by (auto simp: replaceLease_def deadlineAfter_def Let_def installLeaseLocked_def expireLease_def
      split: if_splits)

text \<open>A lease that has run out stays run out: no replacement revives it.\<close>

lemma expired_final: "leaseExpired (conns w c) \<Longrightarrow> replaceLease d e c w = (False, w)"
  by (simp add: replaceLease_def Let_def)

lemma replaceLease_live:
  assumes "replaceLease d e c w = (True, w')"
  shows "\<not> authLeaseExpired w c" "\<not> authLeaseExpired w' c" "leaseDeadline (conns w' c) = Some e"
  using assms
  by (auto simp: replaceLease_def deadlineAfter_def Let_def installLeaseLocked_def authLeaseExpired_def
      split: if_splits option.splits)

text \<open>A connection that failed is closed.\<close>

lemma enqueueBytes_phase:
  assumes "enqueueBytes m p c u = (ok, w')"
  shows "phase (conns w' d) = phase (conns u d)"
proof (cases "queueClosed (conns u c) \<or> closeQueued (conns u c)")
  case False
  define w1 where "w1 = (if p then evictStreamsLocked (msg_len m) c u else u)"
  have "phase (conns (snd (enqueueBytes m p c u)) d) = phase (conns w1 d)"
    by (cases rule: reserve_cases [of "cfg w1" "msg_len m" "admission w1"])
      (simp_all add: enqueueBytes_def Let_def False flip: w1_def)
  then show ?thesis by (simp add: w1_def assms)
qed (use assms in \<open>auto simp: enqueueBytes_def\<close>)

lemma makeRoom_phase: "failMakeRoom m c u = (ok, w') \<Longrightarrow> phase (conns w' d) = phase (conns u d)"
  by (auto simp: failMakeRoom_def Let_def split: if_splits prod.splits bool.splits)

lemma stop_phase: "phase (conns (stop s r c u) d) =
    (if d = c \<and> \<not> closeOnce (conns u c) then phaseClosed else phase (conns u d))"
  by (auto simp: stop_def Let_def stopLease_def)

lemma fail_phase: "phase (conns (fail P op e c w) d) =
    (if d = c \<and> \<not> fatalOnce (conns w c) then phaseClosed else phase (conns w d))"
proof (cases "fatalOnce (conns w c)")
  case False
  define w1 where
    "w1 = updConn c (\<lambda>C. C\<lparr>fatalOnce := True, phase := phaseClosed, detaching := True\<rparr>) w"
  have 1: "phase (conns w1 d) = (if d = c then phaseClosed else phase (conns w d))"
    by (simp add: w1_def)
  show ?thesis
  proof (cases "EncodeFrame P (fatalFrame op e)")
    case None
    then show ?thesis using False 1
      by (cases "d = c") (simp_all add: fail_def Let_def stop_phase flip: w1_def)
  next
    case (Some b)
    let ?m = "fatalMessage b e"
    obtain ok2 w2 where 2: "enqueueBytes ?m True c w1 = (ok2, w2)" by (meson surj_pair)
    obtain ok3 w3 where 3: "failMakeRoom ?m c w2 = (ok3, w3)" by (meson surj_pair)
    show ?thesis
      using False 1 enqueueBytes_phase [OF 2, of d] makeRoom_phase [OF 3, of d]
      by (cases "d = c")
        (simp_all add: fail_def Let_def Some 2 3 stop_phase flip: w1_def split: bool.splits)
  qed
qed (simp add: fail_def)

lemma fail_closes: "\<not> fatalOnce (conns w c) \<Longrightarrow> phase (conns (fail P op e c w) c) = phaseClosed"
  by (simp add: fail_phase)

end
