(* ===== verification/Views.thy ===== *)
theory Views
  imports Lease
begin

text \<open>
  What a home shows to its sessions (\<open>state.go\<close>, lines 150-301; \<open>declarations.go\<close>, lines
  450-465; \<open>home.go\<close>, lines 405-509; \<open>projection.go\<close>): access control, dictionaries,
  snapshots, presence and status, and the projections that prove a change encodable before it
  is made.

  A missing map key reads as the zero value, as in Go.
\<close>

section \<open>Access control\<close>

definition hasPrefix :: "string \<Rightarrow> string \<Rightarrow> bool" where
  "hasPrefix s p \<longleftrightarrow> take (length p) s = p"

definition hasSuffix :: "string \<Rightarrow> string \<Rightarrow> bool" where
  "hasSuffix s p \<longleftrightarrow> length p \<le> length s \<and> drop (length s - length p) s = p"

definition trimSuffix :: "string \<Rightarrow> string \<Rightarrow> string" where
  "trimSuffix s p = (if hasSuffix s p then take (length s - length p) s else s)"

definition patternMatches :: "string \<Rightarrow> string \<Rightarrow> bool" where
  "patternMatches pattern name =
     (if hasSuffix pattern ''.*'' then hasPrefix name (trimSuffix pattern ''*'')
      else pattern = name)"

definition matchesAny :: "string list \<Rightarrow> string \<Rightarrow> bool" where
  "matchesAny patterns name = list_ex (\<lambda>p. patternMatches p name) patterns"

text \<open>The configurations of the coordinators that are active.\<close>

definition activeConfigs :: "home \<Rightarrow> coordinatorConfig list" where
  "activeConfigs H = List.map_filter (\<lambda>p. active (snd p)) (coordinators H)"

definition userEnrolledLocked :: "home \<Rightarrow> string \<Rightarrow> bool" where
  "userEnrolledLocked H userID =
     list_ex (\<lambda>cf. get (cfg_stateACL cf) userID \<noteq> None \<or> get (cfg_eventACL cf) userID \<noteq> None)
       (activeConfigs H)"

definition userCanSeeStateLocked :: "home \<Rightarrow> string \<Rightarrow> string \<Rightarrow> bool" where
  "userCanSeeStateLocked H userID path =
     list_ex (\<lambda>cf. case get (cfg_stateACL cf) userID of
                     None \<Rightarrow> False | Some patterns \<Rightarrow> matchesAny patterns path)
       (activeConfigs H)"

definition userCanPublishTopicLocked :: "home \<Rightarrow> string \<Rightarrow> string \<Rightarrow> bool" where
  "userCanPublishTopicLocked H userID topic =
     list_ex (\<lambda>cf. case get (cfg_eventACL cf) userID of
                     None \<Rightarrow> False | Some access \<Rightarrow> matchesAny (publish access) topic)
       (activeConfigs H)"

definition userCanSubscribeTopicLocked :: "home \<Rightarrow> string \<Rightarrow> string \<Rightarrow> bool" where
  "userCanSubscribeTopicLocked H userID topic =
     list_ex (\<lambda>cf. case get (cfg_eventACL cf) userID of
                     None \<Rightarrow> False | Some access \<Rightarrow> matchesAny (subscribe_patterns access) topic)
       (activeConfigs H)"

definition visibleStateLocked :: "home \<Rightarrow> string \<Rightarrow> (string \<times> value) list" where
  "visibleStateLocked H userID =
     filter (\<lambda>p. userCanSeeStateLocked H userID (fst p)) (state H)"

section \<open>Dictionaries and snapshots\<close>

definition idOf :: "(string \<times> int) list \<Rightarrow> string \<Rightarrow> int" where
  "idOf m name = (case get m name of None \<Rightarrow> 0 | Some i \<Rightarrow> i)"

definition nameOfID :: "(int \<times> string) list \<Rightarrow> int \<Rightarrow> string" where
  "nameOfID m i = (case get m i of None \<Rightarrow> [] | Some name \<Rightarrow> name)"

definition stateDictionaryFrameLocked :: "home \<Rightarrow> string \<Rightarrow> bool \<Rightarrow> frame" where
  "stateDictionaryFrameLocked H userID replace =
     (let names = sort (filter (userCanSeeStateLocked H userID) (keys (stateOwners H)));
          dictionary = map (\<lambda>name. VArray [VInt (idOf (pathsByName H) name), VString name]) names
      in \<lparr>Opcode = OpcodeStateDict,
          Payload = [VBytes (epoch H), VBool replace, VArray dictionary]\<rparr>)"

definition stateSnapshotFrameLocked :: "home \<Rightarrow> string \<Rightarrow> frame" where
  "stateSnapshotFrameLocked H userID =
     (let view = visibleStateLocked H userID;
          ids = sort (map (\<lambda>p. idOf (pathsByName H) (fst p)) view);
          vals = fold (\<lambda>p m. put (idOf (pathsByName H) (fst p)) (snd p) m) view [];
          entries = map (\<lambda>i. VArray [VInt i, case get vals i of None \<Rightarrow> VNil | Some v \<Rightarrow> v]) ids
      in \<lparr>Opcode = OpcodeStateSnapshot,
          Payload = [VBytes (epoch H), VInt (revision H), VArray entries]\<rparr>)"

definition topicDictionaryFrameLocked :: "home \<Rightarrow> string \<Rightarrow> bool \<Rightarrow> frame" where
  "topicDictionaryFrameLocked H userID replace =
     (let topics = filter (\<lambda>t. userCanPublishTopicLocked H userID t \<or>
                                userCanSubscribeTopicLocked H userID t) (keys (topicOwners H));
          ids = sort (map (idOf (topicsByName H)) topics);
          entries = map (\<lambda>i. VArray [VInt i, VString (nameOfID (topicsByID H) i)]) ids
      in \<lparr>Opcode = OpcodeTopicDict,
          Payload = [VBytes (epoch H), VBool replace, VArray entries]\<rparr>)"

definition functionDictionaryFrameLocked :: "home \<Rightarrow> bool \<Rightarrow> frame" where
  "functionDictionaryFrameLocked H replace =
     (let ids = sort (map (idOf (functionsByName H)) (keys (functionOwners H)));
          entries = map (\<lambda>i. VArray [VInt i, VString (nameOfID (functionsByID H) i)]) ids
      in \<lparr>Opcode = OpcodeFunctionDict,
          Payload = [VBytes (epoch H), VBool replace, VArray entries]\<rparr>)"

section \<open>Presence and status\<close>

definition presenceSnapshotIncludingLocked :: "relay \<Rightarrow> home \<Rightarrow> nat option \<Rightarrow> frame" where
  "presenceSnapshotIncludingLocked w H extra =
     (let ids = sort (map fst (filter
            (\<lambda>p. Some (snd p) = extra \<or> bootstrapped (conns w (snd p))) (users H)));
          entries = map (\<lambda>i. VArray [VInt i,
            case get (users H) i of None \<Rightarrow> VString [] | Some c \<Rightarrow> VString (userOf (conns w c))]) ids
      in \<lparr>Opcode = OpcodePresenceSnapshot, Payload = [VArray entries]\<rparr>)"

definition presenceSnapshotLocked :: "relay \<Rightarrow> home \<Rightarrow> frame" where
  "presenceSnapshotLocked w H = presenceSnapshotIncludingLocked w H None"

definition presenceActionsLocked ::
  "relay \<Rightarrow> home \<Rightarrow> int \<Rightarrow> string \<Rightarrow> int \<Rightarrow> sendAction list" where
  "presenceActionsLocked w H session userID event =
     List.map_filter (\<lambda>p. case slot_connection (snd p) of
         Some c \<Rightarrow>
           if available w c
           then Some \<lparr>act_connection = c,
             act_frame = \<lparr>Opcode = OpcodePresenceChange,
                          Payload = [VInt session, VString userID, VInt event]\<rparr>,
             act_priority = False\<rparr>
           else None
       | None \<Rightarrow> None) (coordinators H)"

text \<open>The status entry of one coordinator: \<open>1\<close> connected, \<open>2\<close> not; a session that is not
  available and never declared anything is not listed.\<close>

definition statusEntry ::
  "relay \<Rightarrow> nat option \<Rightarrow> string \<Rightarrow> coordinatorSlot \<Rightarrow> value option" where
  "statusEntry w extra name slot =
     (case slot_connection slot of
        Some c \<Rightarrow>
          if Some c = extra \<or> available w c
          then Some (VArray [VString name, VInt (slot_generation slot), VInt 1])
          else if active slot = None then None
          else Some (VArray [VString name, VInt (slot_generation slot), VInt 2])
      | None \<Rightarrow> Some (VArray [VString name, VInt (slot_generation slot), VInt 2]))"

definition coordinatorStatusIncludingLocked :: "relay \<Rightarrow> home \<Rightarrow> nat option \<Rightarrow> value list" where
  "coordinatorStatusIncludingLocked w H extra =
     List.map_filter (\<lambda>name. case get (coordinators H) name of
         None \<Rightarrow> None | Some slot \<Rightarrow> statusEntry w extra name slot)
       (sort (keys (coordinators H)))"

definition coordinatorStatusLocked :: "relay \<Rightarrow> home \<Rightarrow> value list" where
  "coordinatorStatusLocked w H = coordinatorStatusIncludingLocked w H None"

definition homeStatusActionsLocked :: "relay \<Rightarrow> home \<Rightarrow> sendAction list" where
  "homeStatusActionsLocked w H =
     (let cs = coordinatorStatusLocked w H in
      List.map_filter (\<lambda>p.
         if available w (snd p)
         then Some \<lparr>act_connection = snd p,
           act_frame = \<lparr>Opcode = OpcodeHomeStatus,
             Payload = [VBool (userEnrolledLocked H (userOf (conns w (snd p)))), VArray cs]\<rparr>,
           act_priority = True\<rparr>
         else None) (users H))"

section \<open>Complete views after a change\<close>

text \<open>\<open>reflect.DeepEqual\<close> on maps without nil values.\<close>

definition mapEqual :: "('k \<times> 'v) list \<Rightarrow> ('k \<times> 'v) list \<Rightarrow> bool" where
  "mapEqual m m' \<longleftrightarrow> length m = length m' \<and> list_all (\<lambda>p. get m' (fst p) = Some (snd p)) m"

definition setEqual :: "'a list \<Rightarrow> 'a list \<Rightarrow> bool" where
  "setEqual xs ys \<longleftrightarrow> length xs = length ys \<and> list_all (\<lambda>x. x \<in> set ys) xs"

definition captureUserViewsLocked :: "relay \<Rightarrow> home \<Rightarrow> (int \<times> (string \<times> value) list) list" where
  "captureUserViewsLocked w H =
     map (\<lambda>p. (fst p, visibleStateLocked H (userOf (conns w (snd p))))) (users H)"

definition viewAction :: "nat \<Rightarrow> frame \<Rightarrow> sendAction" where
  "viewAction c f = \<lparr>act_connection = c, act_frame = f, act_priority = False\<rparr>"

fun userViewLoop ::
  "home \<Rightarrow> (int \<times> (string \<times> value) list) list \<Rightarrow> bool \<Rightarrow> (int \<times> nat) list \<Rightarrow> relay
     \<Rightarrow> sendAction list \<times> relay" where
  "userViewLoop H previous includeCapabilities [] w = ([], w)"
| "userViewLoop H previous includeCapabilities ((session, c) # us) w =
     (if \<not> available w c then userViewLoop H previous includeCapabilities us w
      else
        let u = userOf (conns w c);
            view = visibleStateLocked H u;
            changed = (case get previous session of
                         None \<Rightarrow> True | Some old \<Rightarrow> \<not> mapEqual old view);
            complete = changed \<or> includeCapabilities;
            stateActions = (if complete
              then [viewAction c (stateDictionaryFrameLocked H u True),
                    viewAction c (stateSnapshotFrameLocked H u)] else []);
            w1 = (if complete
              then updConn c (\<lambda>C. C\<lparr>lastStateRevision := revision H\<rparr>) w else w);
            capabilities = (if includeCapabilities
              then [viewAction c (topicDictionaryFrameLocked H u True),
                    viewAction c (functionDictionaryFrameLocked H True)] else [])
        in case userViewLoop H previous includeCapabilities us w1 of
             (actions, w2) \<Rightarrow> (stateActions @ capabilities @ actions, w2))"

definition userViewActionsLocked ::
  "nat \<Rightarrow> (int \<times> (string \<times> value) list) list \<Rightarrow> bool \<Rightarrow> relay \<Rightarrow> sendAction list \<times> relay" where
  "userViewActionsLocked h previous includeCapabilities w =
     userViewLoop (homes w h) previous includeCapabilities (users (homes w h)) w"

definition userBootstrapLocked :: "nat \<Rightarrow> nat \<Rightarrow> relay \<Rightarrow> frame list \<times> relay" where
  "userBootstrapLocked h c w =
     (let H = homes w h; u = userOf (conns w c) in
      ([stateDictionaryFrameLocked H u True, stateSnapshotFrameLocked H u,
        topicDictionaryFrameLocked H u True, functionDictionaryFrameLocked H True],
       updConn c (\<lambda>C. C\<lparr>lastStateRevision := revision H\<rparr>) w))"

section \<open>Projections\<close>

definition baseProjectionLocked :: "home \<Rightarrow> (string \<times> value) list \<Rightarrow> int \<Rightarrow> home" where
  "baseProjectionLocked H st rv =
     (newHome (epoch H) [])\<lparr>
       revision := rv, policy := 0, users := users H,
       coordinators := map (\<lambda>p. (fst p, newSlot\<lparr>active := active (snd p)\<rparr>)) (coordinators H),
       pathsByName := pathsByName H, pathsByID := pathsByID H, nextPathID := 0,
       topicsByName := topicsByName H, topicsByID := topicsByID H, nextTopicID := 0,
       functionsByName := functionsByName H, functionsByID := functionsByID H,
       nextFunctionID := 0,
       stateOwners := stateOwners H, topicOwners := topicOwners H,
       functionOwners := functionOwners H, state := st \<rparr>"

definition projectionForStateLocked :: "home \<Rightarrow> (string \<times> value) list \<Rightarrow> int \<Rightarrow> home" where
  "projectionForStateLocked H st rv = baseProjectionLocked H st rv"

text \<open>The user identifiers whose complete views must stay encodable.\<close>

definition requiredUsers :: "relay \<Rightarrow> home \<Rightarrow> string list" where
  "requiredUsers w H =
     remdups (map (\<lambda>p. userOf (conns w (snd p))) (users H) @
       concat (map (\<lambda>cf. keys (cfg_stateACL cf) @ keys (cfg_eventACL cf)) (activeConfigs H)))"

fun firstUnencodable :: "protocol \<Rightarrow> frame list \<Rightarrow> relayError option" where
  "firstUnencodable P [] = None"
| "firstUnencodable P (f # fs) =
     (case validateEncodable P f of Some e \<Rightarrow> Some e | None \<Rightarrow> firstUnencodable P fs)"

definition requiredFrames :: "home \<Rightarrow> string \<Rightarrow> frame list" where
  "requiredFrames H userID =
     [stateDictionaryFrameLocked H userID True, stateSnapshotFrameLocked H userID,
      topicDictionaryFrameLocked H userID True]"

definition validateRequiredFramesLocked :: "protocol \<Rightarrow> relay \<Rightarrow> home \<Rightarrow> relayError option" where
  "validateRequiredFramesLocked P w H =
     (case validateEncodable P (functionDictionaryFrameLocked H True) of
        Some e \<Rightarrow> Some e
      | None \<Rightarrow> firstUnencodable P (concat (map (requiredFrames H) (requiredUsers w H))))"

lemma firstUnencodable_None:
  "firstUnencodable P fs = None \<longleftrightarrow> (\<forall>f \<in> set fs. EncodeFrame P f \<noteq> None)"
proof (induction fs)
  case (Cons f fs)
  then show ?case using validate_None(1) [of P f]
    by (cases "validateEncodable P f") (auto simp del: validate_None)
qed simp

section \<open>What the frames show\<close>

lemma map_filter_mem: "y \<in> set (List.map_filter g xs) \<longleftrightarrow> (\<exists>x \<in> set xs. g x = Some y)"
  by (auto simp: List.map_filter_def image_iff)

lemma viewAction_simps [simp]:
  "act_connection (viewAction c f) = c" "act_frame (viewAction c f) = f"
  "\<not> act_priority (viewAction c f)"
  by (simp_all add: viewAction_def)

lemma fold_put_get:
  "get (fold (\<lambda>p m. put (k p) (v p) m) ps m) i = Some x \<Longrightarrow>
   (\<exists>p \<in> set ps. k p = i \<and> v p = x) \<or> get m i = Some x"
proof (induction ps arbitrary: m)
  case (Cons q ps)
  from Cons.prems Cons.IH [of "put (k q) (v q) m"] show ?case by (auto split: if_splits)
qed simp

lemma fold_put_dom:
  "p \<in> set ps \<Longrightarrow> get (fold (\<lambda>p m. put (k p) (v p) m) ps m) (k p) \<noteq> None"
proof (induction ps arbitrary: m)
  case (Cons q ps)
  have keep: "get m i \<noteq> None \<Longrightarrow> get (fold (\<lambda>p m. put (k p) (v p) m) ps m) i \<noteq> None" for m i
    by (induction ps arbitrary: m) auto
  from Cons show ?case using keep [of "put (k q) (v q) m" "k q"] by auto
qed simp

lemma snapshot_visible:
  assumes "Payload (stateSnapshotFrameLocked H u) = [VBytes e, VInt rv, VArray entries]"
    and "entry \<in> set entries"
  shows "\<exists>path v. entry = VArray [VInt (idOf (pathsByName H) path), v] \<and>
    (path, v) \<in> set (state H) \<and> userCanSeeStateLocked H u path"
proof -
  let ?view = "visibleStateLocked H u" and ?id = "\<lambda>p. idOf (pathsByName H) (fst p)"
  let ?vals = "fold (\<lambda>p m. put (?id p) (snd p) m) ?view []"
  obtain p where p: "p \<in> set ?view"
      "entry = VArray [VInt (?id p), case get ?vals (?id p) of None \<Rightarrow> VNil | Some v \<Rightarrow> v]"
    using assms by (auto simp: stateSnapshotFrameLocked_def Let_def)
  obtain v where v: "get ?vals (?id p) = Some v"
    using fold_put_dom [OF p(1), of ?id snd "[]"] by auto
  then obtain q where q: "q \<in> set ?view" "?id q = ?id p" "snd q = v"
    using fold_put_get [OF v] by auto
  then show ?thesis using p(2) v
    by (intro exI [of _ "fst q"] exI [of _ v]) (auto simp: visibleStateLocked_def)
qed

end
