(* ===== verification/Declarations.thy ===== *)
theory Declarations
  imports Views "HOL-Library.Monad_Syntax"
begin

text \<open>
  Coordinator declarations (\<open>internal/relay/declarations.go\<close>): five slices arrive in order,
  are staged on the connection, and the last one activates them all at once or none.

  Handlers take the home \<open>h\<close> and the connection \<open>c\<close> by reference and run under the home lock,
  so each is one step on the process state. Their outcome is an error for the peer, a panic
  (recovered by the connection's read loop) or nothing.
\<close>

section \<open>Slices\<close>

definition entry_name :: "value list \<Rightarrow> string option" where
  "entry_name entry = Option.bind (payload_at entry 0) stringValue"

definition stringArray :: "value \<Rightarrow> string list option" where
  "stringArray raw = Option.bind (arrayValue raw) (\<lambda>vs. all_some (map stringValue vs))"

text \<open>The common loop: every entry is an array whose first element names it; a later entry of
  the same name replaces the earlier one.\<close>

fun parseEntries ::
  "(value list \<Rightarrow> 'v option) \<Rightarrow> value list \<Rightarrow> (string \<times> 'v) list \<Rightarrow> (string \<times> 'v) list option"
where
  "parseEntries item [] m = Some m"
| "parseEntries item (raw # rest) m =
     do { entry \<leftarrow> arrayValue raw;
          name \<leftarrow> entry_name entry;
          v \<leftarrow> item entry;
          parseEntries item rest (put name v m) }"

definition parseStateSlice :: "value \<Rightarrow> (string \<times> value) list option" where
  "parseStateSlice raw =
     do { entries \<leftarrow> arrayValue raw; parseEntries (\<lambda>e. payload_at e 1) entries [] }"

definition parseStateACL :: "value \<Rightarrow> (string \<times> string list) list option" where
  "parseStateACL raw =
     do { entries \<leftarrow> arrayValue raw;
          parseEntries (\<lambda>e. do { p \<leftarrow> payload_at e 1; stringArray p }) entries [] }"

definition parseEventSlice :: "value \<Rightarrow> (string \<times> int) list option" where
  "parseEventSlice raw =
     do { entries \<leftarrow> arrayValue raw;
          parseEntries (\<lambda>e. do { p \<leftarrow> payload_at e 1; integer p }) entries [] }"

definition parseEventACL :: "value \<Rightarrow> (string \<times> eventAccess) list option" where
  "parseEventACL raw =
     do { entries \<leftarrow> arrayValue raw;
          parseEntries (\<lambda>e. do { p \<leftarrow> payload_at e 1; ps \<leftarrow> stringArray p;
                                 s \<leftarrow> payload_at e 2; ss \<leftarrow> stringArray s;
                                 Some \<lparr>publish = ps, subscribe_patterns = ss\<rparr> }) entries [] }"

definition parseFunctionSlice :: "value \<Rightarrow> string list option" where
  "parseFunctionSlice raw =
     map_option (\<lambda>names. fold sadd names []) (stringArray raw)"

definition dictionaryFromIDs :: "(string \<times> int) list \<Rightarrow> value" where
  "dictionaryFromIDs ids =
     VArray (map (\<lambda>name. VArray [VInt (idOf ids name), VString name]) (sort (keys ids)))"

section \<open>Identifiers\<close>

text \<open>The three dictionaries allocate in the same way: a known name keeps its identifier, an
  unknown one gets the next.\<close>

definition reservePathIDLocked :: "string \<Rightarrow> home \<Rightarrow> int \<times> home" where
  "reservePathIDLocked path H =
     (if idOf (pathsByName H) path \<noteq> 0 then (idOf (pathsByName H) path, H)
      else (nextPathID H, H\<lparr>nextPathID := nextPathID H + 1\<rparr>))"

definition reserveTopicIDLocked :: "string \<Rightarrow> home \<Rightarrow> int \<times> home" where
  "reserveTopicIDLocked topic H =
     (if idOf (topicsByName H) topic \<noteq> 0 then (idOf (topicsByName H) topic, H)
      else (nextTopicID H, H\<lparr>nextTopicID := nextTopicID H + 1\<rparr>))"

definition reserveFunctionIDLocked :: "string \<Rightarrow> home \<Rightarrow> int \<times> home" where
  "reserveFunctionIDLocked name H =
     (if idOf (functionsByName H) name \<noteq> 0 then (idOf (functionsByName H) name, H)
      else (nextFunctionID H, H\<lparr>nextFunctionID := nextFunctionID H + 1\<rparr>))"

fun reserveAll ::
  "(string \<Rightarrow> home \<Rightarrow> int \<times> home) \<Rightarrow> string list \<Rightarrow> home \<Rightarrow> (string \<times> int) list \<times> home" where
  "reserveAll reserve [] H = ([], H)"
| "reserveAll reserve (name # names) H =
     (case reserve name H of (i, H1) \<Rightarrow>
       (case reserveAll reserve names H1 of (ids, H2) \<Rightarrow> (put name i ids, H2)))"

section \<open>Ownership\<close>

definition configFromStage :: "declarationStage \<Rightarrow> coordinatorConfig" where
  "configFromStage st = \<lparr>
     ownedState = keys (stg_state st), cfg_state = stg_state st,
     cfg_stateACL = stg_stateACL st, cfg_events = stg_events st,
     cfg_eventACL = stg_eventACL st, cfg_functions = stg_functions st \<rparr>"

text \<open>What a coordinator owns leaves the home (also lines 388-397 of \<open>home.go\<close> and lines 43-53 of
  \<open>projection.go\<close>).\<close>

definition releaseOwnership :: "coordinatorConfig \<Rightarrow> home \<Rightarrow> home" where
  "releaseOwnership cf H = H\<lparr>
     stateOwners := fold del (ownedState cf) (stateOwners H),
     state := fold del (ownedState cf) (state H),
     topicOwners := fold del (keys (cfg_events cf)) (topicOwners H),
     functionOwners := fold del (cfg_functions cf) (functionOwners H) \<rparr>"

definition putAll :: "('k \<times> 'v) list \<Rightarrow> ('k \<times> 'v) list \<Rightarrow> ('k \<times> 'v) list" where
  "putAll kvs m = fold (\<lambda>p. put (fst p) (snd p)) kvs m"

definition swap_pairs :: "('a \<times> 'b) list \<Rightarrow> ('b \<times> 'a) list" where
  "swap_pairs kvs = map (\<lambda>p. (snd p, fst p)) kvs"

definition commitIDs :: "declarationStage \<Rightarrow> home \<Rightarrow> home" where
  "commitIDs st H = H\<lparr>
     pathsByName := putAll (pathIDs st) (pathsByName H),
     pathsByID := putAll (swap_pairs (pathIDs st)) (pathsByID H),
     topicsByName := putAll (topicIDs st) (topicsByName H),
     topicsByID := putAll (swap_pairs (topicIDs st)) (topicsByID H),
     functionsByName := putAll (functionIDs st) (functionsByName H),
     functionsByID := putAll (swap_pairs (functionIDs st)) (functionsByID H) \<rparr>"

definition claimOwnership :: "string \<Rightarrow> declarationStage \<Rightarrow> home \<Rightarrow> home" where
  "claimOwnership name st H = H\<lparr>
     stateOwners := putAll (map (\<lambda>p. (fst p, name)) (stg_state st)) (stateOwners H),
     state := putAll (stg_state st) (state H),
     topicOwners := putAll (map (\<lambda>p. (fst p, name)) (stg_events st)) (topicOwners H),
     functionOwners := putAll (map (\<lambda>f. (f, name)) (stg_functions st)) (functionOwners H) \<rparr>"

definition slotActive :: "home \<Rightarrow> string \<Rightarrow> coordinatorConfig option" where
  "slotActive H name = Option.bind (get (coordinators H) name) active"

definition updSlot :: "string \<Rightarrow> (coordinatorSlot \<Rightarrow> coordinatorSlot) \<Rightarrow> home \<Rightarrow> home" where
  "updSlot name f H =
     (case get (coordinators H) name of None \<Rightarrow> H
      | Some slot \<Rightarrow> H\<lparr>coordinators := put name (f slot) (coordinators H)\<rparr>)"

lemma updSlot_simps [simp]:
  "state (updSlot n g H) = state H" "revision (updSlot n g H) = revision H"
  "policy (updSlot n g H) = policy H" "users (updSlot n g H) = users H"
  "stateOwners (updSlot n g H) = stateOwners H" "topicOwners (updSlot n g H) = topicOwners H"
  "functionOwners (updSlot n g H) = functionOwners H" "epoch (updSlot n g H) = epoch H"
  "pathsByName (updSlot n g H) = pathsByName H" "pathsByID (updSlot n g H) = pathsByID H"
  "topicsByName (updSlot n g H) = topicsByName H" "topicsByID (updSlot n g H) = topicsByID H"
  "functionsByName (updSlot n g H) = functionsByName H"
  "functionsByID (updSlot n g H) = functionsByID H"
  "nextPathID (updSlot n g H) = nextPathID H" "nextTopicID (updSlot n g H) = nextTopicID H"
  "nextFunctionID (updSlot n g H) = nextFunctionID H"
  "connections (updSlot n g H) = connections H" "home_closed (updSlot n g H) = home_closed H"
  "references (updSlot n g H) = references H" "home_id (updSlot n g H) = home_id H"
  by (simp_all add: updSlot_def split: option.split)

lemma updSlot_get:
  "get (coordinators (updSlot n g H)) m =
     (if m = n then map_option g (get (coordinators H) n) else get (coordinators H) m)"
  by (auto simp: updSlot_def split: option.split)

definition stateChanged :: "coordinatorConfig option \<Rightarrow> coordinatorConfig \<Rightarrow> bool" where
  "stateChanged previous new \<longleftrightarrow>
     (case previous of None \<Rightarrow> True | Some old \<Rightarrow> \<not> mapEqual (cfg_state old) (cfg_state new))"

definition policyChanged :: "coordinatorConfig option \<Rightarrow> coordinatorConfig \<Rightarrow> bool" where
  "policyChanged previous new \<longleftrightarrow>
     (case previous of None \<Rightarrow> True
      | Some old \<Rightarrow> \<not> mapEqual (cfg_stateACL old) (cfg_stateACL new) \<or>
          \<not> mapEqual (cfg_events old) (cfg_events new) \<or>
          \<not> mapEqual (cfg_eventACL old) (cfg_eventACL new) \<or>
          \<not> setEqual (cfg_functions old) (cfg_functions new))"

definition releasePrevious :: "coordinatorConfig option \<Rightarrow> home \<Rightarrow> home" where
  "releasePrevious previous H = (case previous of None \<Rightarrow> H | Some cf \<Rightarrow> releaseOwnership cf H)"

definition projectionForActivationLocked ::
  "home \<Rightarrow> string \<Rightarrow> coordinatorConfig \<Rightarrow> declarationStage \<Rightarrow> home" where
  "projectionForActivationLocked H name new st =
     (let previous = slotActive H name;
          rv = (if stateChanged previous new then revision H + 1 else revision H);
          projection = baseProjectionLocked H (state H) rv
      in updSlot name (\<lambda>s. s\<lparr>active := Some new\<rparr>)
           (claimOwnership name st (commitIDs st (releasePrevious previous projection))))"

section \<open>Validation\<close>

definition ownedElsewhere :: "(string \<times> string) list \<Rightarrow> string \<Rightarrow> string \<Rightarrow> bool" where
  "ownedElsewhere owners name x \<longleftrightarrow>
     (case get owners x of None \<Rightarrow> False | Some owner \<Rightarrow> owner \<noteq> [] \<and> owner \<noteq> name)"

definition aggregateDictionaryCount :: "(string \<times> int) list \<Rightarrow> (string \<times> int) list \<Rightarrow> int" where
  "aggregateDictionaryCount existing staged =
     int (length existing) + int (length (filter (\<lambda>p. idOf existing (fst p) = 0) staged))"

definition aggregateStateCountLocked :: "home \<Rightarrow> string \<Rightarrow> declarationStage \<Rightarrow> int" where
  "aggregateStateCountLocked H name st =
     int (length (stateOwners H))
     - (case slotActive H name of None \<Rightarrow> 0 | Some cf \<Rightarrow> int (length (ownedState cf)))
     + int (length (stg_state st))"

definition aggregateTopicCountLocked :: "home \<Rightarrow> string \<Rightarrow> declarationStage \<Rightarrow> int" where
  "aggregateTopicCountLocked H name st =
     int (length (topicOwners H))
     - (case slotActive H name of None \<Rightarrow> 0 | Some cf \<Rightarrow> int (length (cfg_events cf)))
     + int (length (stg_events st))"

definition aggregateFunctionCountLocked :: "home \<Rightarrow> string \<Rightarrow> declarationStage \<Rightarrow> int" where
  "aggregateFunctionCountLocked H name st =
     int (length (functionOwners H))
     - (case slotActive H name of None \<Rightarrow> 0 | Some cf \<Rightarrow> int (length (cfg_functions cf)))
     + int (length (stg_functions st))"

definition maxCoordinatorsPerHome :: int where "maxCoordinatorsPerHome = 64"
definition maxPresenceEntries :: int where "maxPresenceEntries = 4096"
definition maxDictionaryEntries :: int where "maxDictionaryEntries = 16384"

definition functionSyncOK :: "int \<Rightarrow> declarationStage \<Rightarrow> frame" where
  "functionSyncOK requestID st =
     \<lparr>Opcode = OpcodeFunctionSyncOK,
      Payload = [VInt requestID, dictionaryFromIDs (functionIDs st)]\<rparr>"

definition validateActivationLocked ::
  "protocol \<Rightarrow> relay \<Rightarrow> home \<Rightarrow> string \<Rightarrow> int \<Rightarrow> declarationStage \<Rightarrow> coordinatorConfig
     \<Rightarrow> relayError option" where
  "validateActivationLocked P w H name requestID st new =
     (if list_ex (ownedElsewhere (stateOwners H) name) (keys (stg_state st))
      then Some (applicationError codeOwnershipCollision False
             ''state path ownership collision'' closeConflict)
      else if list_ex (ownedElsewhere (topicOwners H) name) (keys (stg_events st))
      then Some (applicationError codeOwnershipCollision False
             ''event topic ownership collision'' closeConflict)
      else if list_ex (ownedElsewhere (functionOwners H) name) (stg_functions st)
      then Some (applicationError codeOwnershipCollision False
             ''function ownership collision'' closeConflict)
      else if aggregateStateCountLocked H name st > MaxStatePathsPerHome P
      then Some (applicationError codeLimitExceeded False
             ''home state path limit exceeded'' closeLimit)
      else if aggregateDictionaryCount (pathsByName H) (pathIDs st) > maxDictionaryEntries \<or>
              aggregateDictionaryCount (topicsByName H) (topicIDs st) > maxDictionaryEntries \<or>
              aggregateDictionaryCount (functionsByName H) (functionIDs st) > maxDictionaryEntries
      then Some (applicationError codeLimitExceeded False
             ''home dictionary lifetime limit exceeded'' closeLimit)
      else if aggregateTopicCountLocked H name st > maxDictionaryEntries \<or>
              aggregateFunctionCountLocked H name st > maxDictionaryEntries
      then Some (applicationError codeLimitExceeded False
             ''home dictionary limit exceeded'' closeLimit)
      else case validateEncodable P (functionSyncOK requestID st) of
        Some e \<Rightarrow> Some e
      | None \<Rightarrow>
          validateRequiredFramesLocked P w (projectionForActivationLocked H name new st))"

section \<open>Activation\<close>

definition ownerOf :: "(string \<times> string) list \<Rightarrow> string \<Rightarrow> string" where
  "ownerOf owners x = (case get owners x of None \<Rightarrow> [] | Some owner \<Rightarrow> owner)"

text \<open>\<open>pruneSubscriptionsLocked\<close> (lines 242-251 of \<open>events.go\<close>).\<close>

definition keepSubscription :: "home \<Rightarrow> string \<Rightarrow> int \<Rightarrow> bool" where
  "keepSubscription H userID topicID \<longleftrightarrow>
     (let topic = nameOfID (topicsByID H) topicID in
      \<not> (ownerOf (topicOwners H) topic = [] \<or> \<not> userCanSubscribeTopicLocked H userID topic))"

fun pruneUsers :: "home \<Rightarrow> (int \<times> nat) list \<Rightarrow> relay \<Rightarrow> relay" where
  "pruneUsers H [] w = w"
| "pruneUsers H (p # us) w =
     pruneUsers H us (updConn (snd p) (\<lambda>C. C\<lparr>subscriptions :=
       filter (keepSubscription H (userOf C)) (subscriptions C)\<rparr>) w)"

definition pruneSubscriptionsLocked :: "nat \<Rightarrow> relay \<Rightarrow> relay" where
  "pruneSubscriptionsLocked h w = pruneUsers (homes w h) (users (homes w h)) w"

definition setStage :: "declarationStage option \<Rightarrow> nat \<Rightarrow> relay \<Rightarrow> relay" where
  "setStage st c w = updConn c (\<lambda>C. C\<lparr>stage := st\<rparr>) w"

text \<open>Lines 178-229 of \<open>activateLocked\<close>: the home after the switch.\<close>

definition activatedHome :: "home \<Rightarrow> string \<Rightarrow> declarationStage \<Rightarrow> home" where
  "activatedHome H name st =
     (let new = configFromStage st;
          previous = slotActive H name;
          H1 = claimOwnership name st (commitIDs st (releasePrevious previous H));
          H2 = (if stateChanged previous new then H1\<lparr>revision := revision H1 + 1\<rparr> else H1);
          H3 = (if policyChanged previous new then H2\<lparr>policy := policy H2 + 1\<rparr> else H2)
      in updSlot name (\<lambda>s. s\<lparr>active := Some new, ready := True\<rparr>) H3)"

definition activateLocked ::
  "protocol \<Rightarrow> nat \<Rightarrow> nat \<Rightarrow> int \<Rightarrow> declarationStage \<Rightarrow> relay \<Rightarrow> outcome \<times> relay" where
  "activateLocked P h c requestID st w =
     (let H = homes w h; name = nameOf (conns w c); new = configFromStage st in
      case validateActivationLocked P w H name requestID st new of
        Some failure \<Rightarrow> (Failed failure, setStage None c w)
      | None \<Rightarrow>
          (case enqueue P (functionSyncOK requestID st) True c w of
             (False, w1) \<Rightarrow> (Failed slowConsumer, setStage None c w1)
           | (True, w1) \<Rightarrow>
               let previousViews = captureUserViewsLocked w1 (homes w1 h);
                   w2 = updHome h (\<lambda>H. activatedHome H name st) w1;
                   w3 = setStage None c w2
               in case userViewActionsLocked h previousViews True w3 of
                    (actions, w4) \<Rightarrow>
                      let w5 = dispatch P actions (pruneSubscriptionsLocked h w4)
                      in (Handled, dispatch P (homeStatusActionsLocked w5 (homes w5 h)) w5)))"

definition generationReplaced :: relayError where
  "generationReplaced =
     fatalError codeGenerationReplaced True ''coordinator generation was replaced'' closeConflict"

text \<open>\<open>activeCoordinatorLocked\<close> (lines 372-381 of \<open>home.go\<close>).\<close>

definition activeCoordinatorLocked :: "relay \<Rightarrow> nat \<Rightarrow> nat \<Rightarrow> bool \<Rightarrow> relayError option" where
  "activeCoordinatorLocked w h c requireReady =
     (case get (coordinators (homes w h)) (nameOf (conns w c)) of
        None \<Rightarrow> Some generationReplaced
      | Some slot \<Rightarrow>
          if slot_connection slot \<noteq> Some c \<or> slot_generation slot \<noteq> generation (conns w c)
          then Some generationReplaced
          else if requireReady \<and> (\<not> ready slot \<or> active slot = None)
          then Some (applicationError codeUnavailable True
                 ''coordinator declarations are not active'' closeUnavailable)
          else None)"

section \<open>The declaration handler\<close>

definition ackDeclarationLocked ::
  "protocol \<Rightarrow> opcode \<Rightarrow> int \<Rightarrow> int \<Rightarrow> nat \<Rightarrow> relay \<Rightarrow> outcome \<times> relay" where
  "ackDeclarationLocked P op requestID policyRevision c w =
     (case enqueue P \<lparr>Opcode = op, Payload = [VInt requestID, VInt policyRevision]\<rparr> True c w of
        (True, w1) \<Rightarrow> (Handled, w1)
      | (False, w1) \<Rightarrow> (Failed slowConsumer, w1))"

definition newStage :: "nat \<Rightarrow> (string \<times> value) list \<Rightarrow> (string \<times> int) list \<Rightarrow> declarationStage" where
  "newStage ref st ids = \<lparr>
     stage_ref = ref, expected = OpcodeStateACLSync, stg_state = st, stg_stateACL = [],
     stg_events = [], stg_eventACL = [], stg_functions = [],
     pathIDs = ids, topicIDs = [], functionIDs = [], stage_timer = True \<rparr>"

text \<open>Lines 56-90: the first slice starts a new transaction.\<close>

definition handleStateSync ::
  "protocol \<Rightarrow> nat \<Rightarrow> nat \<Rightarrow> int \<Rightarrow> frame \<Rightarrow> relay \<Rightarrow> outcome \<times> relay" where
  "handleStateSync P h c requestID f w0 =
     (let w = updConn c (\<lambda>C. C\<lparr>stage := map_option (\<lambda>st. st\<lparr>stage_timer := False\<rparr>) (stage C)\<rparr>) w0
      in case Option.bind (payload_at (Payload f) 1) parseStateSlice of
        None \<Rightarrow> (Panicked, w)
      | Some decl \<Rightarrow>
          (case reserveAll reservePathIDLocked (keys decl) (homes w h) of (ids, H1) \<Rightarrow>
            let w1 = updHome h (\<lambda>_. H1) w;
                response = \<lparr>Opcode = OpcodeStateSyncOK,
                  Payload = [VInt requestID, VBytes (epoch H1), VInt (revision H1),
                             dictionaryFromIDs ids]\<rparr>
            in case validateEncodable P response of
                 Some e \<Rightarrow> (Failed e, w1)
               | None \<Rightarrow>
                   let st = newStage (nstages w1) decl ids;
                       w2 = setStage (Some st) c (w1\<lparr>nstages := nstages w1 + 1\<rparr>)
                   in case enqueue P response True c w2 of
                        (True, w3) \<Rightarrow> (Handled, w3)
                      | (False, w3) \<Rightarrow> (Failed slowConsumer, setStage None c w3)))"

text \<open>Lines 106-125: the event slice.\<close>

definition handleEventSync ::
  "protocol \<Rightarrow> nat \<Rightarrow> nat \<Rightarrow> int \<Rightarrow> declarationStage \<Rightarrow> frame \<Rightarrow> relay \<Rightarrow> outcome \<times> relay" where
  "handleEventSync P h c requestID st f w =
     (case Option.bind (payload_at (Payload f) 1) parseEventSlice of
        None \<Rightarrow> (Panicked, w)
      | Some decl \<Rightarrow>
          (case reserveAll reserveTopicIDLocked (keys decl) (homes w h) of (ids, H1) \<Rightarrow>
            let w1 = updHome h (\<lambda>_. H1) w;
                st1 = st\<lparr>stg_events := decl, topicIDs := ids, expected := OpcodeEventACLSync\<rparr>;
                w2 = setStage (Some st1) c w1;
                response = \<lparr>Opcode = OpcodeEventSyncOK,
                  Payload = [VInt requestID, dictionaryFromIDs ids]\<rparr>
            in case validateEncodable P response of
                 Some e \<Rightarrow> (Failed e, setStage None c w2)
               | None \<Rightarrow>
                   (case enqueue P response True c w2 of
                      (True, w3) \<Rightarrow> (Handled, w3)
                    | (False, w3) \<Rightarrow> (Failed slowConsumer, w3))))"

text \<open>Lines 130-136: the function slice, and activation.\<close>

definition handleFunctionSync ::
  "protocol \<Rightarrow> nat \<Rightarrow> nat \<Rightarrow> int \<Rightarrow> declarationStage \<Rightarrow> frame \<Rightarrow> relay \<Rightarrow> outcome \<times> relay" where
  "handleFunctionSync P h c requestID st f w =
     (case Option.bind (payload_at (Payload f) 1) parseFunctionSlice of
        None \<Rightarrow> (Panicked, w)
      | Some decl \<Rightarrow>
          (case reserveAll reserveFunctionIDLocked decl (homes w h) of (ids, H1) \<Rightarrow>
            let w1 = updHome h (\<lambda>_. H1) w;
                st1 = st\<lparr>stg_functions := decl, functionIDs := ids\<rparr>
            in activateLocked P h c requestID st1 (setStage (Some st1) c w1)))"

definition handleDeclaration ::
  "protocol \<Rightarrow> nat \<Rightarrow> nat \<Rightarrow> frame \<Rightarrow> relay \<Rightarrow> outcome \<times> relay" where
  "handleDeclaration P h c f w =
     (if roleOf (conns w c) \<noteq> RoleCoordinator
      then (Failed (applicationError codeWrongDirection False
              ''only coordinators may declare slices'' closeAuthorization), w)
      else case firstInteger f of None \<Rightarrow> (Panicked, w) | Some requestID \<Rightarrow>
      case activeCoordinatorLocked w h c False of Some e \<Rightarrow> (Failed e, w) | None \<Rightarrow>
      if Opcode f = OpcodeStateSync then handleStateSync P h c requestID f w
      else case stage (conns w c) of
        None \<Rightarrow> (Failed (applicationError codeUnexpectedFrame False
              ''declaration slices are out of order'' closeProtocol), w)
      | Some st \<Rightarrow>
      if expected st \<noteq> Opcode f
      then (Failed (applicationError codeUnexpectedFrame False
              ''declaration slices are out of order'' closeProtocol), setStage None c w)
      else if Opcode f = OpcodeStateACLSync then
        (case Option.bind (payload_at (Payload f) 1) parseStateACL of
           None \<Rightarrow> (Panicked, w)
         | Some acl \<Rightarrow>
             ackDeclarationLocked P OpcodeStateACLOK requestID (policy (homes w h)) c
               (setStage (Some (st\<lparr>stg_stateACL := acl, expected := OpcodeEventSync\<rparr>)) c w))
      else if Opcode f = OpcodeEventSync then handleEventSync P h c requestID st f w
      else if Opcode f = OpcodeEventACLSync then
        (case Option.bind (payload_at (Payload f) 1) parseEventACL of
           None \<Rightarrow> (Panicked, w)
         | Some acl \<Rightarrow>
             ackDeclarationLocked P OpcodeEventACLOK requestID (policy (homes w h)) c
               (setStage (Some (st\<lparr>stg_eventACL := acl, expected := OpcodeFunctionSync\<rparr>)) c w))
      else if Opcode f = OpcodeFunctionSync then handleFunctionSync P h c requestID st f w
      else (Failed (applicationError codeUnexpectedFrame False
              ''invalid declaration frame'' closeProtocol), w))"

definition expireStage :: "protocol \<Rightarrow> nat \<Rightarrow> nat \<Rightarrow> relay \<Rightarrow> relay" where
  "expireStage P ref c w =
     (if map_option stage_ref (stage (conns w c)) \<noteq> Some ref then w
      else snd (enqueue P (errorFrame 0 0 (applicationError codeDeadlineExceeded False
              ''declaration transaction expired'' closeTimeout)) True c (setStage None c w)))"

end
