(* ===== verification/State_Set.thy ===== *)
theory State_Set
  imports Declarations
begin

text \<open>
  Home state (\<open>internal/relay/state.go\<close>, lines 14-148): resynchronisation of a user and the
  mutation of owned paths by a coordinator. A mutation frame is checked as a whole; then every
  user session that can see a changed path gets a patch, or a snapshot where the patch cannot
  be encoded.
\<close>

section \<open>Mutations\<close>

text \<open>Lines 64-75, one mutation: the path its identifier denotes, an error, or a panic
  (\<open>None\<close>).\<close>

definition resolveMutation ::
  "home \<Rightarrow> string \<Rightarrow> coordinatorConfig \<Rightarrow> value \<Rightarrow> (relayError + string) option" where
  "resolveMutation H owner cf raw =
     do { mutation \<leftarrow> arrayValue raw;
          p \<leftarrow> payload_at mutation 0;
          pathID \<leftarrow> integer p;
          let path = nameOfID (pathsByID H) pathID in
          if path = [] \<or> ownerOf (stateOwners H) path \<noteq> owner
          then Some (Inl (applicationError codeNotDeclared False
                 ''state mutation references an unowned path'' closeAuthorization))
          else if path \<notin> set (ownedState cf)
          then Some (Inl (applicationError codeNotDeclared False
                 ''state mutation references an inactive path'' closeAuthorization))
          else Some (Inr path) }"

fun resolveMutations ::
  "home \<Rightarrow> string \<Rightarrow> coordinatorConfig \<Rightarrow> value list \<Rightarrow> (relayError + string list) option" where
  "resolveMutations H owner cf [] = Some (Inr [])"
| "resolveMutations H owner cf (raw # rest) =
     (case resolveMutation H owner cf raw of
        None \<Rightarrow> None
      | Some (Inl e) \<Rightarrow> Some (Inl e)
      | Some (Inr path) \<Rightarrow>
          (case resolveMutations H owner cf rest of
             Some (Inr paths) \<Rightarrow> Some (Inr (path # paths))
           | other \<Rightarrow> other))"

text \<open>A mutation whose operation is \<open>1\<close> deletes; any other stores its third element.\<close>

definition decodeMutation :: "value \<Rightarrow> string \<Rightarrow> (string \<times> value option) option" where
  "decodeMutation raw path =
     do { mutation \<leftarrow> arrayValue raw;
          p \<leftarrow> payload_at mutation 1;
          operation \<leftarrow> integer p;
          if operation = 1 then Some (path, None)
          else do { v \<leftarrow> payload_at mutation 2; Some (path, Some v) } }"

definition decodeMutations ::
  "value list \<Rightarrow> string list \<Rightarrow> (string \<times> value option) list option" where
  "decodeMutations ms paths = all_some (map (\<lambda>(raw, path). decodeMutation raw path) (zip ms paths))"

definition applyMutation ::
  "string \<times> value option \<Rightarrow> (string \<times> value) list \<Rightarrow> (string \<times> value) list" where
  "applyMutation m st = (case snd m of None \<Rightarrow> del (fst m) st | Some v \<Rightarrow> put (fst m) v st)"

definition applyMutations ::
  "(string \<times> value option) list \<Rightarrow> (string \<times> value) list \<Rightarrow> (string \<times> value) list" where
  "applyMutations changes st = fold applyMutation changes st"

section \<open>Patches\<close>

definition visibleMutations :: "home \<Rightarrow> string \<Rightarrow> value list \<Rightarrow> string list \<Rightarrow> value list" where
  "visibleMutations H userID ms paths =
     map fst (filter (\<lambda>p. userCanSeeStateLocked H userID (snd p)) (zip ms paths))"

definition statePatch :: "home \<Rightarrow> int \<Rightarrow> int \<Rightarrow> value list \<Rightarrow> frame" where
  "statePatch H since reached visible =
     \<lparr>Opcode = OpcodeStatePatch,
      Payload = [VBytes (epoch H), VInt (if since = 0 then revision H else since),
                 VInt reached, VArray visible]\<rparr>"

text \<open>Lines 92-123, one user session.\<close>

definition patchAction ::
  "protocol \<Rightarrow> relay \<Rightarrow> home \<Rightarrow> home \<Rightarrow> value list \<Rightarrow> string list \<Rightarrow> nat \<Rightarrow> sendAction option" where
  "patchAction P w H projection ms paths c =
     (if \<not> available w c then None
      else
        let u = userOf (conns w c);
            visible = visibleMutations H u ms paths;
            patch = statePatch H (lastStateRevision (conns w c)) (revision projection) visible
        in if visible = [] then None
           else Some (viewAction c
             (case validateEncodable P patch of
                None \<Rightarrow> patch | Some _ \<Rightarrow> stateSnapshotFrameLocked projection u)))"

definition patchActions ::
  "protocol \<Rightarrow> relay \<Rightarrow> home \<Rightarrow> home \<Rightarrow> value list \<Rightarrow> string list \<Rightarrow> sendAction list" where
  "patchActions P w H projection ms paths =
     List.map_filter (\<lambda>p. patchAction P w H projection ms paths (snd p)) (users H)"

text \<open>Lines 131-142: the home after the mutations.\<close>

definition mutatedHome :: "string \<Rightarrow> (string \<times> value option) list \<Rightarrow> home \<Rightarrow> home" where
  "mutatedHome name changes H =
     updSlot name
       (\<lambda>s. s\<lparr>active := map_option (\<lambda>cf. cf\<lparr>cfg_state := applyMutations changes (cfg_state cf)\<rparr>)
                          (active s)\<rparr>)
       (H\<lparr>state := applyMutations changes (state H), revision := revision H + 1\<rparr>)"

fun setRevisions :: "int \<Rightarrow> sendAction list \<Rightarrow> relay \<Rightarrow> relay" where
  "setRevisions rv [] w = w"
| "setRevisions rv (a # rest) w =
     setRevisions rv rest (updConn (act_connection a) (\<lambda>C. C\<lparr>lastStateRevision := rv\<rparr>) w)"

definition stateSetOK :: "int \<Rightarrow> home \<Rightarrow> frame" where
  "stateSetOK requestID H =
     \<lparr>Opcode = OpcodeStateSetOK,
      Payload = [VInt requestID, VBytes (epoch H), VInt (revision H + 1)]\<rparr>"

text \<open>Lines 86-147, with the mutations resolved.\<close>

definition commitStateSet ::
  "protocol \<Rightarrow> nat \<Rightarrow> nat \<Rightarrow> int \<Rightarrow> value list \<Rightarrow> string list \<Rightarrow> (string \<times> value option) list
     \<Rightarrow> relay \<Rightarrow> outcome \<times> relay" where
  "commitStateSet P h c requestID ms paths changes w =
     (let H = homes w h;
          projection = projectionForStateLocked H (applyMutations changes (state H))
                         (revision H + 1)
      in case validateRequiredFramesLocked P w projection of
           Some failure \<Rightarrow> (Failed failure, w)
         | None \<Rightarrow>
             let actions = patchActions P w H projection ms paths in
             (case enqueue P (stateSetOK requestID H) True c w of
                (False, w1) \<Rightarrow> (Failed slowConsumer, w1)
              | (True, w1) \<Rightarrow>
                  let w2 = updHome h (mutatedHome (nameOf (conns w c)) changes) w1;
                      w3 = setRevisions (revision (homes w2 h)) actions w2
                  in (Handled, dispatch P actions w3)))"

definition applyStateSet :: "protocol \<Rightarrow> nat \<Rightarrow> nat \<Rightarrow> frame \<Rightarrow> relay \<Rightarrow> outcome \<times> relay" where
  "applyStateSet P h c f w =
     (let H = homes w h; name = nameOf (conns w c) in
      if roleOf (conns w c) \<noteq> RoleCoordinator
      then (Failed (applicationError codeWrongDirection False
              ''only coordinators may mutate state'' closeAuthorization), w)
      else case firstInteger f of None \<Rightarrow> (Panicked, w) | Some requestID \<Rightarrow>
      case Option.bind (payload_at (Payload f) 1) bytesValue of
        None \<Rightarrow> (Panicked, w)
      | Some e \<Rightarrow>
      if e \<noteq> epoch H
      then (Failed (applicationError codeStaleEpoch True
              ''state mutation uses a stale epoch'' closeConflict), w)
      else case activeCoordinatorLocked w h c True of Some e \<Rightarrow> (Failed e, w) | None \<Rightarrow>
      case (Option.bind (payload_at (Payload f) 2) arrayValue, slotActive H name) of
        (Some ms, Some cf) \<Rightarrow>
          (case resolveMutations H name cf ms of
             None \<Rightarrow> (Panicked, w)
           | Some (Inl e) \<Rightarrow> (Failed e, w)
           | Some (Inr paths) \<Rightarrow>
               (case decodeMutations ms paths of
                  None \<Rightarrow> (Panicked, w)
                | Some changes \<Rightarrow> commitStateSet P h c requestID ms paths changes w))
      | _ \<Rightarrow> (Panicked, w))"

section \<open>Resynchronisation\<close>

definition resync :: "protocol \<Rightarrow> nat \<Rightarrow> nat \<Rightarrow> frame \<Rightarrow> relay \<Rightarrow> outcome \<times> relay" where
  "resync P h c f w =
     (if roleOf (conns w c) \<noteq> RoleUser
      then (Failed (applicationError codeForbidden False
              ''state resynchronization is not available for this role'' closeAuthorization), w)
      else case firstInteger f of None \<Rightarrow> (Panicked, w) | Some requestID \<Rightarrow>
        let H = homes w h; u = userOf (conns w c);
            w1 = updConn c (\<lambda>C. C\<lparr>lastStateRevision := revision H\<rparr>) w
        in case enqueue P (stateDictionaryFrameLocked H u True) False c w1 of
             (False, w2) \<Rightarrow> (Failed slowConsumer, w2)
           | (True, w2) \<Rightarrow>
               (case enqueueRequestTerminal P (stateSnapshotFrameLocked H u) requestID False c w2 of
                  (False, w3) \<Rightarrow> (Failed slowConsumer, w3)
                | (True, w3) \<Rightarrow> (Handled, w3)))"

definition handleState :: "protocol \<Rightarrow> nat \<Rightarrow> nat \<Rightarrow> frame \<Rightarrow> relay \<Rightarrow> outcome \<times> relay" where
  "handleState P h c f w =
     (if Opcode f = OpcodeStateResync then resync P h c f w
      else if Opcode f = OpcodeStateSet then applyStateSet P h c f w
      else (Failed (applicationError codeUnexpectedFrame False
              ''unexpected state frame'' closeProtocol), w))"

section \<open>State mutations\<close>

lemma resolveMutation_ok:
  "resolveMutation H n cf raw = Some (Inr path) \<Longrightarrow>
   path \<noteq> [] \<and> ownerOf (stateOwners H) path = n \<and> path \<in> set (ownedState cf)"
  by (auto simp: resolveMutation_def Let_def split: if_splits option.splits bind_splits)

lemma resolveMutations_ok:
  "resolveMutations H n cf ms = Some (Inr paths) \<Longrightarrow>
   length paths = length ms \<and>
   (\<forall>p \<in> set paths. p \<noteq> [] \<and> ownerOf (stateOwners H) p = n \<and> p \<in> set (ownedState cf))"
proof (induction ms arbitrary: paths)
  case (Cons raw ms)
  then obtain p ps where "resolveMutation H n cf raw = Some (Inr p)"
    "resolveMutations H n cf ms = Some (Inr ps)" "paths = p # ps"
    by (simp split: option.splits sum.splits)
  with Cons.IH resolveMutation_ok [of H n cf raw p] show ?case by simp
qed simp

lemma decodeMutation_path: "decodeMutation raw path = Some ch \<Longrightarrow> fst ch = path"
  by (auto simp: decodeMutation_def split: if_splits bind_splits)

lemma decodeMutations_paths:
  "decodeMutations ms paths = Some changes \<Longrightarrow> length paths = length ms \<Longrightarrow> map fst changes = paths"
proof (induction ms arbitrary: paths changes)
  case (Cons raw ms)
  then obtain p ps where "paths = p # ps" by (cases paths) auto
  with Cons show ?case
    by (auto simp: decodeMutations_def split: option.splits dest: decodeMutation_path)
qed (simp add: decodeMutations_def)

lemma applyMutation_other: "p \<noteq> fst ch \<Longrightarrow> get (applyMutation ch st) p = get st p"
  by (simp add: applyMutation_def split: option.split)

lemma applyMutations_other: "p \<notin> fst ` set changes \<Longrightarrow> get (applyMutations changes st) p = get st p"
  by (induction changes arbitrary: st) (auto simp: applyMutations_def applyMutation_other)

text \<open>The last mutation of a path decides its value.\<close>

lemma applyMutations_last:
  "get (applyMutations (changes @ [ch]) st) (fst ch) = snd ch"
  by (simp add: applyMutations_def applyMutation_def split: option.split)

lemma applyMutations_wf: "wf_map st \<Longrightarrow> wf_map (applyMutations changes st)"
  by (induction changes arbitrary: st) (auto simp: applyMutations_def applyMutation_def split: option.split)

lemma setRevisions_simps [simp]:
  "homes (setRevisions rv as w) = homes w" "routes (setRevisions rv as w) = routes w"
  "clock (setRevisions rv as w) = clock w"
  by (induction as arbitrary: w) simp_all

lemma setRevisions_conn:
  "conns (setRevisions rv as w) d =
     (if d \<in> act_connection ` set as then (conns w d)\<lparr>lastStateRevision := rv\<rparr> else conns w d)"
  by (induction as arbitrary: w) auto

text \<open>A handled mutation was resolved, decoded and committed; anything else left the home
  alone.\<close>

lemma applyStateSet_cases:
  assumes "applyStateSet P h c f w = (out, w')"
  obtains (rejected) "out \<noteq> Handled" "w' = w"
  | (committed) requestID ms cf paths changes where
      "roleOf (conns w c) = RoleCoordinator" "firstInteger f = Some requestID"
      "activeCoordinatorLocked w h c True = None"
      "slotActive (homes w h) (nameOf (conns w c)) = Some cf"
      "resolveMutations (homes w h) (nameOf (conns w c)) cf ms = Some (Inr paths)"
      "decodeMutations ms paths = Some changes"
      "commitStateSet P h c requestID ms paths changes w = (out, w')"
      "Option.bind (payload_at (Payload f) 2) arrayValue = Some ms"
  using assms
  by (auto simp: applyStateSet_def Let_def split: if_splits option.splits sum.splits)

lemma commit_cases:
  assumes "commitStateSet P h c requestID ms paths changes w = (out, w')"
  obtains (failed) "out \<noteq> Handled" "only_queues w w'" "only_conn c w w'"
  | (applied) w1 acts where "out = Handled"
      "enqueue P (stateSetOK requestID (homes w h)) True c w = (True, w1)"
      "acts = patchActions P w (homes w h) (projectionForStateLocked (homes w h)
          (applyMutations changes (state (homes w h))) (revision (homes w h) + 1)) ms paths"
      "w' = dispatch P acts (setRevisions (revision (mutatedHome (nameOf (conns w c)) changes (homes w h)))
          acts (updHome h (mutatedHome (nameOf (conns w c)) changes) w1))"
      "validateRequiredFramesLocked P w (projectionForStateLocked (homes w h)
          (applyMutations changes (state (homes w h))) (revision (homes w h) + 1)) = None"
proof -
  let ?f = "stateSetOK requestID (homes w h)"
  obtain ok w1 where e: "enqueue P ?f True c w = (ok, w1)" by (meson surj_pair)
  have q: "only_queues w w1" "only_conn c w w1" "homes w1 = homes w"
    using only_queues_enqueue [of w P ?f True c] only_conn_enqueue [of c w P ?f True]
      enqueue_frame(6) [of P ?f True c w] by (simp_all add: e)
  show ?thesis
    using assms q
    by (cases ok)
      (auto simp: commitStateSet_def Let_def e split: option.splits intro: failed applied)
qed

lemma mutatedHome_simps [simp]:
  "state (mutatedHome n changes H) = applyMutations changes (state H)"
  "revision (mutatedHome n changes H) = revision H + 1"
  "stateOwners (mutatedHome n changes H) = stateOwners H"
  "topicOwners (mutatedHome n changes H) = topicOwners H"
  "functionOwners (mutatedHome n changes H) = functionOwners H"
  "users (mutatedHome n changes H) = users H" "epoch (mutatedHome n changes H) = epoch H"
  by (simp_all add: mutatedHome_def)

lemma state_set_home:
  assumes "applyStateSet P h c f w = (Handled, w')"
  obtains cf paths changes where
    "slotActive (homes w h) (nameOf (conns w c)) = Some cf"
    "\<forall>p \<in> set paths. ownerOf (stateOwners (homes w h)) p = nameOf (conns w c) \<and> p \<in> set (ownedState cf)"
    "map fst changes = paths"
    "homes w' = (homes w)(h := mutatedHome (nameOf (conns w c)) changes (homes w h))"
  using assms
proof (cases rule: applyStateSet_cases)
  case (committed requestID ms cf paths changes)
  note R = resolveMutations_ok [OF committed(5)]
  from committed(7)
  have "homes w' = (homes w)(h := mutatedHome (nameOf (conns w c)) changes (homes w h))"
  proof (cases rule: commit_cases)
    case (applied w1 acts)
    then show ?thesis using enqueue_frame(6) [of P "stateSetOK requestID (homes w h)" True c w] by simp
  qed simp
  with that [OF committed(4)] R decodeMutations_paths [OF committed(6)] show ?thesis by blast
qed simp

lemma state_set_effect:
  assumes "applyStateSet P h c f w = (Handled, w')"
  shows "revision (homes w' h) = revision (homes w h) + 1"
    and "stateOwners (homes w' h) = stateOwners (homes w h)"
    and "k \<noteq> h \<Longrightarrow> homes w' k = homes w k"
    and "get (state (homes w' h)) p \<noteq> get (state (homes w h)) p \<Longrightarrow>
      ownerOf (stateOwners (homes w h)) p = nameOf (conns w c) \<and>
      (\<exists>cf. slotActive (homes w h) (nameOf (conns w c)) = Some cf \<and> p \<in> set (ownedState cf))"
proof -
  obtain cf paths changes where H:
    "slotActive (homes w h) (nameOf (conns w c)) = Some cf"
    "\<forall>p \<in> set paths. ownerOf (stateOwners (homes w h)) p = nameOf (conns w c) \<and> p \<in> set (ownedState cf)"
    "map fst changes = paths"
    "homes w' = (homes w)(h := mutatedHome (nameOf (conns w c)) changes (homes w h))"
    using assms by (rule state_set_home)
  show "revision (homes w' h) = revision (homes w h) + 1"
    "stateOwners (homes w' h) = stateOwners (homes w h)" "k \<noteq> h \<Longrightarrow> homes w' k = homes w k"
    by (simp_all add: H(4))
  assume "get (state (homes w' h)) p \<noteq> get (state (homes w h)) p"
  then have "p \<in> set (map fst changes)"
    using applyMutations_other [of p changes "state (homes w h)"] by (auto simp: H(4))
  then show "ownerOf (stateOwners (homes w h)) p = nameOf (conns w c) \<and>
      (\<exists>cf. slotActive (homes w h) (nameOf (conns w c)) = Some cf \<and> p \<in> set (ownedState cf))"
    using H(1,2) unfolding H(3) by blast
qed

lemma state_set_atomic:
  assumes "applyStateSet P h c f w = (out, w')" "out \<noteq> Handled"
  shows "homes w' = homes w" "d \<noteq> c \<Longrightarrow> conns w' d = conns w d"
    "lastStateRevision (conns w' c) = lastStateRevision (conns w c)"
proof -
  have "only_queues w w' \<and> only_conn c w w'"
    using assms(1)
  proof (cases rule: applyStateSet_cases)
    case (committed requestID ms cf paths changes)
    from committed(7) assms(2) show ?thesis by (cases rule: commit_cases) auto
  qed simp
  then show "homes w' = homes w" "d \<noteq> c \<Longrightarrow> conns w' d = conns w d"
    "lastStateRevision (conns w' c) = lastStateRevision (conns w c)"
    by (simp_all add: only_queues_world only_queues_conn only_conn_def)
qed

section \<open>Patches\<close>

lemma visibleMutations_mem:
  "raw \<in> set (visibleMutations H u ms paths) \<Longrightarrow>
   \<exists>path. (raw, path) \<in> set (zip ms paths) \<and> userCanSeeStateLocked H u path"
  by (auto simp: visibleMutations_def)

lemma patchAction_Some:
  "patchAction P w H pr ms paths d = Some a \<longleftrightarrow>
   available w d \<and> visibleMutations H (userOf (conns w d)) ms paths \<noteq> [] \<and>
   a = viewAction d
     (let patch = statePatch H (lastStateRevision (conns w d)) (revision pr)
            (visibleMutations H (userOf (conns w d)) ms paths)
      in case validateEncodable P patch of
           None \<Rightarrow> patch | Some _ \<Rightarrow> stateSnapshotFrameLocked pr (userOf (conns w d)))"
  by (auto simp: patchAction_def Let_def)

lemma patchActions_mem:
  assumes "a \<in> set (patchActions P w H pr ms paths)"
  obtains s d where "(s, d) \<in> set (users H)" "act_connection a = d" "available w d"
    "visibleMutations H (userOf (conns w d)) ms paths \<noteq> []"
    "act_frame a = statePatch H (lastStateRevision (conns w d)) (revision pr)
       (visibleMutations H (userOf (conns w d)) ms paths) \<or>
     act_frame a = stateSnapshotFrameLocked pr (userOf (conns w d))"
proof -
  from assms obtain s d where d: "(s, d) \<in> set (users H)" "patchAction P w H pr ms paths d = Some a"
    by (auto simp: patchActions_def map_filter_mem)
  show ?thesis using d(2)
    by (intro that [OF d(1)]) (auto simp: patchAction_Some Let_def split: option.split)
qed

lemma patchActions_who:
  "d \<in> act_connection ` set (patchActions P w H pr ms paths) \<longleftrightarrow>
   (\<exists>s. (s, d) \<in> set (users H)) \<and> available w d \<and>
   visibleMutations H (userOf (conns w d)) ms paths \<noteq> []" (is "?l \<longleftrightarrow> ?r")
proof
  assume ?l
  then obtain a s e where "(s, e) \<in> set (users H)" "patchAction P w H pr ms paths e = Some a"
    "d = act_connection a" by (auto simp: patchActions_def map_filter_mem)
  then show ?r by (auto simp: patchAction_Some)
next
  assume r: ?r
  then obtain s a where "(s, d) \<in> set (users H)" "patchAction P w H pr ms paths d = Some a"
    "act_connection a = d"
    using patchAction_Some [of P w H pr ms paths d] by (metis viewAction_simps(1))
  then have "a \<in> set (patchActions P w H pr ms paths)"
    unfolding patchActions_def map_filter_mem by (intro bexI [of _ "(s, d)"]) simp_all
  then show ?l using \<open>act_connection a = d\<close> by blast
qed

end
