(* ===== verification/Events.thy ===== *)
theory Events
  imports State_Set
begin

text \<open>
  Topics (\<open>internal/relay/events.go\<close>): subscriptions of a user session, and the routing of an
  event to the owner of its topic, to subscribers, or to a named coordinator.
  \<open>pruneSubscriptionsLocked\<close> is in \<open>Declarations\<close>, which calls it.
\<close>

definition eventAcceptUsers :: int where "eventAcceptUsers = 1"
definition eventPublishUsers :: int where "eventPublishUsers = 2"
definition eventAcceptCoordinators :: int where "eventAcceptCoordinators = 4"
definition eventPublishCoordinators :: int where "eventPublishCoordinators = 8"

text \<open>\<open>flags & bit\<close> for a single bit.\<close>

definition hasFlag :: "int \<Rightarrow> int \<Rightarrow> bool" where
  "hasFlag flags b \<longleftrightarrow> and flags b \<noteq> 0"

definition int64SliceValues :: "int list \<Rightarrow> value list" where
  "int64SliceValues ids = map VInt (sort ids)"

section \<open>Subscriptions\<close>

text \<open>The loop of \<open>subscribe\<close>: every identifier must denote a topic the user may subscribe to.
  It also counts the identifiers that are not subscribed yet (one named twice counts
  twice).\<close>

fun checkSubscriptions ::
  "home \<Rightarrow> string \<Rightarrow> int list \<Rightarrow> value list \<Rightarrow> (relayError + int list \<times> nat) option" where
  "checkSubscriptions H u subscribed [] = Some (Inr ([], 0))"
| "checkSubscriptions H u subscribed (raw # rest) =
     (case integer raw of
        None \<Rightarrow> None
      | Some i \<Rightarrow>
          let topic = nameOfID (topicsByID H) i in
          if topic = [] \<or> \<not> userCanSubscribeTopicLocked H u topic
          then Some (Inl (applicationError codeForbidden False
                 ''topic subscription is not authorized'' closeAuthorization))
          else (case checkSubscriptions H u subscribed rest of
                  Some (Inr (ids, n)) \<Rightarrow>
                    Some (Inr (i # ids, if i \<in> set subscribed then n else Suc n))
                | other \<Rightarrow> other))"

definition subscribe :: "protocol \<Rightarrow> nat \<Rightarrow> nat \<Rightarrow> frame \<Rightarrow> relay \<Rightarrow> outcome \<times> relay" where
  "subscribe P h c f w =
     (let H = homes w h; u = userOf (conns w c); subscribed = subscriptions (conns w c) in
      if roleOf (conns w c) \<noteq> RoleUser
      then (Failed (applicationError codeWrongDirection False
              ''only user sessions subscribe in protocol 1.0'' closeAuthorization), w)
      else case (firstInteger f, Option.bind (payload_at (Payload f) 1) arrayValue) of
        (Some requestID, Some idsRaw) \<Rightarrow>
          if \<not> userEnrolledLocked H u
          then (Failed (applicationError codeNotEnrolled False
                  ''user is not enrolled'' closeAuthorization), w)
          else (case checkSubscriptions H u subscribed idsRaw of
            None \<Rightarrow> (Panicked, w)
          | Some (Inl e) \<Rightarrow> (Failed e, w)
          | Some (Inr (ids, newSubscriptions)) \<Rightarrow>
              if int (length subscribed) + int newSubscriptions > MaxSubscriptions P
              then (Failed (applicationError codeLimitExceeded False
                      ''subscription limit exceeded'' closeLimit), w)
              else
                let w1 = updConn c (\<lambda>C. C\<lparr>subscriptions := fold sadd ids (subscriptions C)\<rparr>) w
                in case enqueue P \<lparr>Opcode = OpcodeSubscribeOK,
                       Payload = [VInt requestID, VArray (int64SliceValues ids)]\<rparr> True c w1 of
                     (True, w2) \<Rightarrow> (Handled, w2)
                   | (False, w2) \<Rightarrow> (Failed slowConsumer, w2))
      | _ \<Rightarrow> (Panicked, w))"

fun checkUnsubscriptions :: "int list \<Rightarrow> value list \<Rightarrow> (relayError + int list) option" where
  "checkUnsubscriptions subscribed [] = Some (Inr [])"
| "checkUnsubscriptions subscribed (raw # rest) =
     (case integer raw of
        None \<Rightarrow> None
      | Some i \<Rightarrow>
          if i \<notin> set subscribed
          then Some (Inl (applicationError codeNotDeclared False
                 ''topic is not subscribed'' closeAuthorization))
          else (case checkUnsubscriptions subscribed rest of
                  Some (Inr ids) \<Rightarrow> Some (Inr (i # ids))
                | other \<Rightarrow> other))"

definition unsubscribe :: "protocol \<Rightarrow> nat \<Rightarrow> nat \<Rightarrow> frame \<Rightarrow> relay \<Rightarrow> outcome \<times> relay" where
  "unsubscribe P h c f w =
     (if roleOf (conns w c) \<noteq> RoleUser
      then (Failed (applicationError codeWrongDirection False
              ''only user sessions subscribe in protocol 1.0'' closeAuthorization), w)
      else case (firstInteger f, Option.bind (payload_at (Payload f) 1) arrayValue) of
        (Some requestID, Some idsRaw) \<Rightarrow>
          (case checkUnsubscriptions (subscriptions (conns w c)) idsRaw of
            None \<Rightarrow> (Panicked, w)
          | Some (Inl e) \<Rightarrow> (Failed e, w)
          | Some (Inr ids) \<Rightarrow>
              let w1 = updConn c (\<lambda>C. C\<lparr>subscriptions := fold removeAll ids (subscriptions C)\<rparr>) w
              in case enqueue P \<lparr>Opcode = OpcodeUnsubscribeOK,
                     Payload = [VInt requestID, VArray (int64SliceValues ids)]\<rparr> True c w1 of
                   (True, w2) \<Rightarrow> (Handled, w2)
                 | (False, w2) \<Rightarrow> (Failed slowConsumer, w2))
      | _ \<Rightarrow> (Panicked, w))"

section \<open>Routing\<close>

text \<open>The delivery loop of lines 187-201; the result says whether anybody got the event.\<close>

definition subscriber :: "relay \<Rightarrow> home \<Rightarrow> string \<Rightarrow> int \<Rightarrow> nat \<Rightarrow> bool" where
  "subscriber w H topic topicID u \<longleftrightarrow>
     topicID \<in> set (subscriptions (conns w u)) \<and>
     userCanSubscribeTopicLocked H (userOf (conns w u)) topic"

fun deliver ::
  "protocol \<Rightarrow> home \<Rightarrow> string \<Rightarrow> int \<Rightarrow> frame \<Rightarrow> (int \<times> nat) list \<Rightarrow> relay \<Rightarrow> bool \<times> relay" where
  "deliver P H topic topicID f [] w = (False, w)"
| "deliver P H topic topicID f (p # us) w =
     (if \<not> available w (snd p) \<or> \<not> subscriber w H topic topicID (snd p)
      then deliver P H topic topicID f us w
      else case enqueue P f False (snd p) w of (ok, w1) \<Rightarrow>
             (case deliver P H topic topicID f us w1 of (d, w2) \<Rightarrow> (ok \<or> d, w2)))"

definition unavailableError :: "int \<Rightarrow> string \<Rightarrow> outcome" where
  "unavailableError c m = Failed (applicationError c True m closeUnavailable)"

text \<open>The error of a coordinator that cannot be reached (also lines 143, 168 of
  \<open>calls.go\<close>): no session, one that is not available, or declarations not active.\<close>

definition reachable :: "relay \<Rightarrow> coordinatorSlot option \<Rightarrow> nat option" where
  "reachable w slot =
     (case slot of None \<Rightarrow> None
      | Some s \<Rightarrow>
          (case slot_connection s of None \<Rightarrow> None
           | Some d \<Rightarrow> if available w d \<and> ready s then Some d else None))"

definition routeCoordinatorEventLocked ::
  "protocol \<Rightarrow> nat \<Rightarrow> nat \<Rightarrow> int \<Rightarrow> string \<Rightarrow> int \<Rightarrow> int \<Rightarrow> value \<Rightarrow> frame \<Rightarrow> relay
     \<Rightarrow> outcome \<times> relay" where
  "routeCoordinatorEventLocked P h c flags topic topicID targetKind target f w =
     (let H = homes w h in
      if targetKind = 0 then
        if target \<noteq> VNil
        then (Failed (applicationError codeInvalidValue False
                ''default event target must be null'' closeProtocol), w)
        else if \<not> hasFlag flags eventPublishUsers
        then (Failed (applicationError codeWrongDirection False
                ''event is not declared for user delivery'' closeAuthorization), w)
        else (case deliver P H topic topicID f (users H) w of
                (True, w1) \<Rightarrow> (Handled, w1)
              | (False, w1) \<Rightarrow>
                  (unavailableError codeUnavailable ''event has no available subscriber'', w1))
      else if targetKind = 1 then
        if \<not> hasFlag flags eventPublishUsers
        then (Failed (applicationError codeWrongDirection False
                ''event is not declared for user delivery'' closeAuthorization), w)
        else (case integer target of None \<Rightarrow> (Panicked, w) | Some session \<Rightarrow>
               (case get (users H) session of
                  None \<Rightarrow> (unavailableError codeUnavailable
                            ''target user session is unavailable'', w)
                | Some u \<Rightarrow>
                    if \<not> available w u
                    then (unavailableError codeUnavailable
                            ''target user session is unavailable'', w)
                    else if \<not> subscriber w H topic topicID u
                    then (Failed (applicationError codeForbidden False
                            ''target user is not subscribed'' closeAuthorization), w)
                    else (case enqueue P f False u w of
                            (True, w1) \<Rightarrow> (Handled, w1)
                          | (False, w1) \<Rightarrow> (unavailableError codeUnavailable
                              ''target user session is unavailable'', w1))))
      else if targetKind = 2 then
        if \<not> hasFlag flags eventPublishCoordinators \<or> \<not> hasFlag flags eventAcceptCoordinators
        then (Failed (applicationError codeWrongDirection False
                ''event is not declared for coordinator routing'' closeAuthorization), w)
        else (case stringValue target of None \<Rightarrow> (Panicked, w) | Some name \<Rightarrow>
               (case reachable w (get (coordinators H) name) of
                  None \<Rightarrow> (unavailableError codeNoCoordinator
                            ''target coordinator is unavailable'', w)
                | Some d \<Rightarrow>
                    if d = c
                    then (unavailableError codeNoCoordinator
                            ''target coordinator is unavailable'', w)
                    else (case enqueue P f False d w of
                            (True, w1) \<Rightarrow> (Handled, w1)
                          | (False, w1) \<Rightarrow> (unavailableError codeUnavailable
                              ''target coordinator is unavailable'', w1))))
      else (Failed (applicationError codeInvalidValue False
              ''event target is invalid'' closeProtocol), w))"

text \<open>The frame that is forwarded names the sender as the relay authenticated it.\<close>

definition forwardedEvent ::
  "connection \<Rightarrow> int \<Rightarrow> int \<Rightarrow> int \<Rightarrow> value \<Rightarrow> value \<Rightarrow> frame" where
  "forwardedEvent C eventID topicID targetKind target payload =
     \<lparr>Opcode = OpcodeEvent,
      Payload = [VInt eventID, VInt topicID, VInt targetKind, target,
                 Principal (conn_identity C) (sessionID C), payload]\<rparr>"

text \<open>Lines 141-167. \<open>coordinators[name] != ownerSlot\<close> compares pointers: two names have two
  slots.\<close>

definition routeEventLocked ::
  "protocol \<Rightarrow> nat \<Rightarrow> nat \<Rightarrow> string \<Rightarrow> coordinatorSlot \<Rightarrow> int \<Rightarrow> string \<Rightarrow> int \<Rightarrow> int \<Rightarrow> value
     \<Rightarrow> frame \<Rightarrow> relay \<Rightarrow> outcome \<times> relay" where
  "routeEventLocked P h c owner ownerSlot flags topic topicID targetKind target f w =
     (let H = homes w h; C = conns w c in
      if roleOf C = RoleUser then
        if targetKind \<noteq> 0 \<or> target \<noteq> VNil
        then (Failed (applicationError codeWrongDirection False
                ''users must use the default event target'' closeAuthorization), w)
        else if \<not> userEnrolledLocked H (userOf C)
        then (Failed (applicationError codeNotEnrolled False
                ''user is not enrolled'' closeAuthorization), w)
        else if \<not> hasFlag flags eventAcceptUsers \<or>
                \<not> userCanPublishTopicLocked H (userOf C) topic
        then (Failed (applicationError codeForbidden False
                ''event publication is not authorized'' closeAuthorization), w)
        else (case reachable w (Some ownerSlot) of
                None \<Rightarrow> (unavailableError codeNoCoordinator ''event owner is unavailable'', w)
              | Some d \<Rightarrow>
                  (case enqueue P f False d w of
                     (True, w1) \<Rightarrow> (Handled, w1)
                   | (False, w1) \<Rightarrow>
                       (unavailableError codeUnavailable ''event destination is unavailable'', w1)))
      else if roleOf C = RoleCoordinator then
        if nameOf C \<noteq> owner
        then (Failed (applicationError codeForbidden False
                ''coordinator does not own this event topic'' closeAuthorization), w)
        else routeCoordinatorEventLocked P h c flags topic topicID targetKind target f w
      else (Failed (applicationError codeWrongDirection False
              ''role cannot publish events'' closeAuthorization), w))"

text \<open>The gate of every routed frame: a coordinator must hold its active slot.\<close>

definition coordinatorGate :: "relay \<Rightarrow> nat \<Rightarrow> nat \<Rightarrow> relayError option" where
  "coordinatorGate w h c =
     (if roleOf (conns w c) = RoleCoordinator then activeCoordinatorLocked w h c True else None)"

text \<open>Lines 104-141, after the event identifier is claimed.\<close>

definition routeClaimedEvent ::
  "protocol \<Rightarrow> nat \<Rightarrow> nat \<Rightarrow> int \<Rightarrow> int \<Rightarrow> int \<Rightarrow> value \<Rightarrow> value \<Rightarrow> relay \<Rightarrow> outcome \<times> relay" where
  "routeClaimedEvent P h c eventID topicID targetKind target payload w =
     (case coordinatorGate w h c of Some e \<Rightarrow> (Failed e, w) | None \<Rightarrow>
        let H = homes w h;
            topic = nameOfID (topicsByID H) topicID;
            owner = ownerOf (topicOwners H) topic
        in if topic = [] \<or> owner = []
           then (Failed (applicationError codeNotDeclared False
                   ''event topic is not declared'' closeAuthorization), w)
           else case get (coordinators H) owner of
             None \<Rightarrow> (unavailableError codeNoCoordinator ''event owner is unavailable'', w)
           | Some ownerSlot \<Rightarrow>
               (case active ownerSlot of
                  None \<Rightarrow> (unavailableError codeNoCoordinator ''event owner is unavailable'', w)
                | Some cf \<Rightarrow>
                    let forwarded = forwardedEvent (conns w c) eventID topicID targetKind target
                                      payload
                    in case validateRoutableFrame P forwarded of
                         Some e \<Rightarrow> (Failed e, w)
                       | None \<Rightarrow>
                           routeEventLocked P h c owner ownerSlot (idOf (cfg_events cf) topic)
                             topic topicID targetKind target forwarded w))"

definition publishEvent :: "protocol \<Rightarrow> nat \<Rightarrow> nat \<Rightarrow> frame \<Rightarrow> relay \<Rightarrow> outcome \<times> relay" where
  "publishEvent P h c f w =
     (case firstInteger f of None \<Rightarrow> (Panicked, w) | Some eventID \<Rightarrow>
        case claimEventID eventID c w of
          (Some e, w1) \<Rightarrow> (Failed e, w1)
        | (None, w1) \<Rightarrow>
            (case (Option.bind (payload_at (Payload f) 1) integer,
                   Option.bind (payload_at (Payload f) 2) integer,
                   payload_at (Payload f) 3, payload_at (Payload f) 4) of
               (Some topicID, Some targetKind, Some target, Some payload) \<Rightarrow>
                 routeClaimedEvent P h c eventID topicID targetKind target payload w1
             | _ \<Rightarrow> (Panicked, w1)))"

definition handleEvent :: "protocol \<Rightarrow> nat \<Rightarrow> nat \<Rightarrow> frame \<Rightarrow> relay \<Rightarrow> outcome \<times> relay" where
  "handleEvent P h c f w =
     (if Opcode f = OpcodeSubscribe then subscribe P h c f w
      else if Opcode f = OpcodeUnsubscribe then unsubscribe P h c f w
      else if Opcode f = OpcodeEvent then publishEvent P h c f w
      else (Failed (applicationError codeUnexpectedFrame False
              ''unexpected event frame'' closeProtocol), w))"

section \<open>What a subscription gains\<close>

lemma checkSubscriptions_ok:
  "checkSubscriptions H u subs raws = Some (Inr (ids, n)) \<Longrightarrow>
   raws = map VInt ids \<and> n = length (filter (\<lambda>i. i \<notin> set subs) ids) \<and>
   (\<forall>i \<in> set ids. nameOfID (topicsByID H) i \<noteq> [] \<and>
      userCanSubscribeTopicLocked H u (nameOfID (topicsByID H) i))"
proof (induction raws arbitrary: ids n)
  case (Cons raw raws)
  from Cons.prems obtain i where i: "integer raw = Some i"
    by (auto split: option.splits)
  from Cons.prems obtain js k where r: "checkSubscriptions H u subs raws = Some (Inr (js, k))"
      "ids = i # js" "n = (if i \<in> set subs then k else Suc k)"
    and a: "nameOfID (topicsByID H) i \<noteq> []"
      "userCanSubscribeTopicLocked H u (nameOfID (topicsByID H) i)"
    by (simp add: i Let_def split: if_splits option.splits sum.splits prod.splits)
  have "raw = VInt i" using i by (cases raw) simp_all
  with Cons.IH [OF r(1)] r(2,3) a show ?case by simp
qed simp

lemma fold_sadd_set: "set (fold sadd xs ys) = set xs \<union> set ys"
  by (induction xs arbitrary: ys) auto

lemma fold_sadd_distinct: "distinct ys \<Longrightarrow> distinct (fold sadd xs ys)"
  by (induction xs arbitrary: ys) auto

lemma fold_sadd_length:
  "length (fold sadd xs ys) \<le> length ys + length (filter (\<lambda>i. i \<notin> set ys) xs)"
proof (induction xs arbitrary: ys)
  case (Cons x xs)
  have "length (filter (\<lambda>i. i \<notin> set (sadd x ys)) xs) \<le> length (filter (\<lambda>i. i \<notin> set ys) xs)"
    by (induction xs) auto
  with Cons.IH [of "sadd x ys"] show ?case by (auto simp: length_sadd)
qed simp

lemma fold_removeAll_set: "set (fold removeAll xs ys) = set ys - set xs"
  by (induction xs arbitrary: ys) auto

lemma subscribe_cases:
  "snd (subscribe P h c f w) = w \<or>
   (\<exists>raws ids n p. Option.bind (payload_at (Payload f) 1) arrayValue = Some raws \<and>
      checkSubscriptions (homes w h) (userOf (conns w c)) (subscriptions (conns w c)) raws =
        Some (Inr (ids, n)) \<and>
      userEnrolledLocked (homes w h) (userOf (conns w c)) \<and>
      int (length (subscriptions (conns w c))) + int n \<le> MaxSubscriptions P \<and>
      snd (subscribe P h c f w) = snd (enqueue P p True c
        (updConn c (\<lambda>C. C\<lparr>subscriptions := fold sadd ids (subscriptions C)\<rparr>) w)))"
proof (cases "roleOf (conns w c) = RoleUser \<and> userEnrolledLocked (homes w h) (userOf (conns w c))")
  case True
  show ?thesis
  proof (cases "firstInteger f")
    case (Some r)
    show ?thesis
    proof (cases "Option.bind (payload_at (Payload f) 1) arrayValue")
      case raws: (Some raws)
      show ?thesis
      proof (cases "checkSubscriptions (homes w h) (userOf (conns w c)) (subscriptions (conns w c)) raws")
        case check: (Some res)
        show ?thesis
        proof (cases res)
          case (Inr p)
          obtain ids n where p: "p = (ids, n)" by (cases p)
          show ?thesis
            using True Some raws check Inr p
            by (auto simp: subscribe_def Let_def split_beta split: bool.split)
        qed (use True Some raws check in \<open>simp add: subscribe_def\<close>)
      qed (use True Some raws in \<open>simp add: subscribe_def\<close>)
    qed (use True Some in \<open>simp add: subscribe_def\<close>)
  qed (use True in \<open>simp add: subscribe_def\<close>)
qed (auto simp: subscribe_def Let_def split: option.split)

text \<open>\<open>subscribe\<close> adds what was asked for and authorised, within the limit, or nothing.\<close>

lemma subscribe_effect:
  assumes "subscribe P h c f w = (out, w')"
  shows "subscriptions (conns w' c) = subscriptions (conns w c) \<or>
     (\<exists>ids. Option.bind (payload_at (Payload f) 1) arrayValue = Some (map VInt ids) \<and>
        subscriptions (conns w' c) = fold sadd ids (subscriptions (conns w c)) \<and>
        int (length (subscriptions (conns w' c))) \<le> MaxSubscriptions P \<and>
        userEnrolledLocked (homes w h) (userOf (conns w c)) \<and>
        (\<forall>i \<in> set ids. nameOfID (topicsByID (homes w h)) i \<noteq> [] \<and>
           userCanSubscribeTopicLocked (homes w h) (userOf (conns w c))
             (nameOfID (topicsByID (homes w h)) i)))" (is "?same \<or> ?added")
    and "d \<noteq> c \<Longrightarrow> conns w' d = conns w d" and "homes w' = homes w"
proof -
  let ?H = "homes w h" and ?u = "userOf (conns w c)" and ?s = "subscriptions (conns w c)"
  let ?g = "\<lambda>ids. updConn c (\<lambda>C. C\<lparr>subscriptions := fold sadd ids (subscriptions C)\<rparr>) w"
  have w': "w' = snd (subscribe P h c f w)" using assms by simp
  consider (no) "w' = w"
    | (yes) raws ids n p where "Option.bind (payload_at (Payload f) 1) arrayValue = Some raws"
      "checkSubscriptions ?H ?u ?s raws = Some (Inr (ids, n))"
      "userEnrolledLocked ?H ?u" "int (length ?s) + int n \<le> MaxSubscriptions P"
      "w' = snd (enqueue P p True c (?g ids))"
    using subscribe_cases [of P h c f w] unfolding w' by blast
  then have "(?same \<or> ?added) \<and> (d \<noteq> c \<longrightarrow> conns w' d = conns w d) \<and> homes w' = homes w"
  proof cases
    case (yes raws ids n p)
    have raws: "raws = map VInt ids" using checkSubscriptions_ok [OF yes(2)] by blast
    have len: "int (length (fold sadd ids ?s)) \<le> MaxSubscriptions P"
      using checkSubscriptions_ok [OF yes(2)] fold_sadd_length [of ids ?s] yes(4) by simp
    have "conns w' d = conns w d" if "d \<noteq> c"
      using that only_conn_enqueue [of c "?g ids" P p True] by (simp add: yes(5) only_conn_def)
    moreover have ?added
      using checkSubscriptions_ok [OF yes(2)] yes(1,3) len unfolding raws
      by (intro exI [of _ ids]) (simp add: yes(5))
    moreover have "homes w' = homes w" by (simp add: yes(5))
    ultimately show ?thesis by blast
  qed simp
  then show "?same \<or> ?added" "d \<noteq> c \<Longrightarrow> conns w' d = conns w d" "homes w' = homes w" by blast+
qed

section \<open>Revocation\<close>

lemma pruneUsers_simps [simp]:
  "homes (pruneUsers H us w) = homes w" "clock (pruneUsers H us w) = clock w"
  "routes (pruneUsers H us w) = routes w" "nroutes (pruneUsers H us w) = nroutes w"
  by (induction us arbitrary: w) simp_all

lemma pruneUsers_conn:
  "conns (pruneUsers H us w) d =
     (if d \<in> snd ` set us
      then (conns w d)\<lparr>subscriptions :=
        filter (keepSubscription H (userOf (conns w d))) (subscriptions (conns w d))\<rparr>
      else conns w d)"
proof (induction us arbitrary: w)
  case (Cons p us)
  show ?case by (auto simp: Cons.IH filter_filter)
qed simp

definition subscriptions_authorised :: "relay \<Rightarrow> nat \<Rightarrow> bool" where
  "subscriptions_authorised w h \<longleftrightarrow>
     (\<forall>p \<in> set (users (homes w h)). \<forall>i \<in> set (subscriptions (conns w (snd p))).
        keepSubscription (homes w h) (userOf (conns w (snd p))) i)"

lemma prune_authorises: "subscriptions_authorised (pruneSubscriptionsLocked h w) h"
  by (auto simp: subscriptions_authorised_def pruneSubscriptionsLocked_def pruneUsers_conn
      split: if_splits)

lemma authorised_queues: "only_queues w w' \<Longrightarrow> subscriptions_authorised w' h = subscriptions_authorised w h"
  by (simp add: subscriptions_authorised_def only_queues_world only_queues_conn)

lemma activation_revokes:
  "activateLocked P h c r st w = (Handled, w') \<Longrightarrow> subscriptions_authorised w' h"
proof -
  assume a: "activateLocked P h c r st w = (Handled, w')"
  have d: "subscriptions_authorised (dispatch P as (pruneSubscriptionsLocked h v)) h" for as v
    using authorised_queues [OF only_queues_dispatch] prune_authorises by blast
  have "subscriptions_authorised (dispatch P bs (dispatch P as (pruneSubscriptionsLocked h v))) h" for as bs v
    using authorised_queues [OF only_queues_dispatch] d by blast
  with a show ?thesis
    by (auto simp: activateLocked_def Let_def split_beta split: option.splits bool.splits)
qed

section \<open>Delivery\<close>

lemma available_local: "conns w' d = conns w d \<Longrightarrow> clock w' = clock w \<Longrightarrow> available w' d = available w d"
  by (simp add: available_def authLeaseExpired_def split: option.split)

lemma enqueue_other: "e \<noteq> d \<Longrightarrow> conns (snd (enqueue P f p d w)) e = conns w e"
  using only_conn_enqueue [of d w P f p] by (simp add: only_conn_def)

lemma deliver_other:
  assumes "d \<notin> snd ` set us \<or> \<not> available w d \<or> \<not> subscriber w H t i d"
  shows "conns (snd (deliver P H t i f us w)) d = conns w d"
  using assms
proof (induction us arbitrary: w)
  case (Cons p us)
  let ?w1 = "snd (enqueue P f False (snd p) w)"
  show ?case
  proof (cases "available w (snd p) \<and> subscriber w H t i (snd p)")
    case True
    then have d: "d \<noteq> snd p" using Cons.prems by auto
    then have same: "conns ?w1 d = conns w d" by (rule enqueue_other)
    have "available ?w1 d = available w d" using same by (rule available_local) simp
    moreover have "subscriber ?w1 H t i d = subscriber w H t i d" by (simp add: subscriber_def same)
    ultimately have "conns (snd (deliver P H t i f us ?w1)) d = conns ?w1 d"
      using Cons.IH [of ?w1] Cons.prems by auto
    then show ?thesis using True same by (simp add: split_beta)
  next
    case False
    then show ?thesis using Cons.IH [of w] Cons.prems by auto
  qed
qed simp

section \<open>Publishing\<close>

text \<open>Whoever is sent anything by a routed event is entitled to it.\<close>

definition entitled ::
  "relay \<Rightarrow> nat \<Rightarrow> nat \<Rightarrow> string \<Rightarrow> coordinatorSlot \<Rightarrow> int \<Rightarrow> string \<Rightarrow> int \<Rightarrow> nat \<Rightarrow> bool" where
  "entitled w h c owner ownerSlot flags topic topicID d \<longleftrightarrow>
     available w d \<and>
     (if roleOf (conns w c) = RoleUser
      then slot_connection ownerSlot = Some d \<and> ready ownerSlot \<and> hasFlag flags eventAcceptUsers \<and>
           userEnrolledLocked (homes w h) (userOf (conns w c)) \<and>
           userCanPublishTopicLocked (homes w h) (userOf (conns w c)) topic
      else roleOf (conns w c) = RoleCoordinator \<and> nameOf (conns w c) = owner \<and>
           (hasFlag flags eventPublishUsers \<and> d \<in> snd ` set (users (homes w h)) \<and>
              subscriber w (homes w h) topic topicID d \<or>
            hasFlag flags eventPublishCoordinators \<and> hasFlag flags eventAcceptCoordinators \<and> d \<noteq> c \<and>
              (\<exists>name slot. get (coordinators (homes w h)) name = Some slot \<and>
                 slot_connection slot = Some d \<and> ready slot)))"

lemma reachable_Some:
  "reachable w slot = Some d \<longleftrightarrow>
   (\<exists>s. slot = Some s \<and> slot_connection s = Some d \<and> available w d \<and> ready s)"
  by (auto simp: reachable_def split: option.splits)

lemma if_enq: "(if b then (x, w1) else (y, w1)) = ((if b then x else y), w1)"
  by simp

lemma routeCoordinator_entitled:
  assumes "roleOf (conns w c) = RoleCoordinator" "nameOf (conns w c) = owner"
    and "conns (snd (routeCoordinatorEventLocked P h c flags topic topicID kind target f w)) d \<noteq> conns w d"
  shows "entitled w h c owner slot flags topic topicID d"
proof -
  let ?H = "homes w h" and ?r = "routeCoordinatorEventLocked P h c flags topic topicID kind target f w"
  have enq: "d = e" if "conns (snd (enqueue P f False e w)) d \<noteq> conns w d" for e
    using that enqueue_other by blast
  consider "kind = 0" | "kind = 1" | "kind = 2" | "kind \<noteq> 0" "kind \<noteq> 1" "kind \<noteq> 2" by blast
  then show ?thesis
  proof cases
    case 1
    then have "target = VNil" "hasFlag flags eventPublishUsers"
      "snd ?r = snd (deliver P ?H topic topicID f (users ?H) w)"
      using assms(3) by (auto simp: routeCoordinatorEventLocked_def Let_def split_beta
          split: if_splits bool.splits)
    then show ?thesis
      using deliver_other [of d "users ?H" w ?H topic topicID P f] assms
      by (auto simp: entitled_def)
  next
    case 2
    then obtain session u where "integer target = Some session" "get (users ?H) session = Some u"
      "available w u" "subscriber w ?H topic topicID u" "hasFlag flags eventPublishUsers"
      "snd ?r = snd (enqueue P f False u w)"
      using assms(3) by (auto simp: routeCoordinatorEventLocked_def Let_def split_beta
          split: if_splits bool.splits option.splits)
    then show ?thesis using enq [of u] assms by (auto simp: entitled_def dest!: map_of_SomeD intro: rev_image_eqI)
  next
    case 3
    then obtain name e where e: "reachable w (get (coordinators ?H) name) = Some e" "e \<noteq> c"
      "hasFlag flags eventPublishCoordinators" "hasFlag flags eventAcceptCoordinators"
      "snd ?r = snd (enqueue P f False e w)"
      using assms(3) by (auto simp: routeCoordinatorEventLocked_def Let_def split_beta
          split: if_splits bool.splits option.splits)
    then show ?thesis using enq [of e] assms by (auto simp: entitled_def reachable_Some)
  qed (use assms in \<open>simp add: routeCoordinatorEventLocked_def Let_def\<close>)
qed

lemma routeEvent_entitled:
  assumes "conns (snd (routeEventLocked P h c owner slot flags topic topicID kind target f w)) d \<noteq> conns w d"
  shows "entitled w h c owner slot flags topic topicID d"
proof -
  let ?r = "routeEventLocked P h c owner slot flags topic topicID kind target f w"
  consider "roleOf (conns w c) = RoleUser" | "roleOf (conns w c) = RoleCoordinator"
    | "roleOf (conns w c) \<noteq> RoleUser" "roleOf (conns w c) \<noteq> RoleCoordinator" by blast
  then show ?thesis
  proof cases
    case 1
    then obtain e where e: "reachable w (Some slot) = Some e" "hasFlag flags eventAcceptUsers"
      "userEnrolledLocked (homes w h) (userOf (conns w c))"
      "userCanPublishTopicLocked (homes w h) (userOf (conns w c)) topic"
      "snd ?r = snd (enqueue P f False e w)"
      using assms by (auto simp: routeEventLocked_def Let_def split_beta
          split: if_splits bool.splits option.splits)
    then have "d = e" using assms enqueue_other by metis
    then show ?thesis using 1 e by (simp add: entitled_def reachable_Some)
  next
    case 2
    then have "nameOf (conns w c) = owner"
      "?r = routeCoordinatorEventLocked P h c flags topic topicID kind target f w"
      using assms by (auto simp: routeEventLocked_def Let_def split: if_splits)
    then show ?thesis using routeCoordinator_entitled [OF 2] assms by metis
  qed (use assms in \<open>simp add: routeEventLocked_def Let_def\<close>)
qed

lemma route_entitled:
  assumes "conns (snd (routeClaimedEvent P h c e topicID kind target payload w)) d \<noteq> conns w d"
  defines "topic \<equiv> nameOfID (topicsByID (homes w h)) topicID"
  shows "coordinatorGate w h c = None \<and> topic \<noteq> [] \<and>
    (\<exists>slot cf. get (coordinators (homes w h)) (ownerOf (topicOwners (homes w h)) topic) = Some slot \<and>
       active slot = Some cf \<and>
       entitled w h c (ownerOf (topicOwners (homes w h)) topic) slot (idOf (cfg_events cf) topic)
         topic topicID d)"
proof -
  let ?H = "homes w h" and ?o = "ownerOf (topicOwners (homes w h)) topic"
  let ?f = "forwardedEvent (conns w c) e topicID kind target payload"
  have "coordinatorGate w h c = None \<and> topic \<noteq> [] \<and> (\<exists>slot cf.
      get (coordinators ?H) ?o = Some slot \<and> active slot = Some cf \<and>
      snd (routeClaimedEvent P h c e topicID kind target payload w) =
      snd (routeEventLocked P h c ?o slot (idOf (cfg_events cf) topic) topic topicID kind target ?f w))"
    using assms(1) unfolding topic_def
    by (auto simp: routeClaimedEvent_def validateRoutableFrame_def validateFrame_def Let_def
        split: if_splits option.splits)
  then show ?thesis using routeEvent_entitled assms(1) by metis
qed

text \<open>An event a user publishes reaches the owner of its topic, signed by the relay, and nobody
  else.\<close>

lemma user_publish:
  assumes "routeClaimedEvent P h c e topicID kind target payload w = (Handled, w')"
    and "roleOf (conns w c) = RoleUser"
  shows "\<exists>slot d b. get (coordinators (homes w h))
        (ownerOf (topicOwners (homes w h)) (nameOfID (topicsByID (homes w h)) topicID)) = Some slot \<and>
      slot_connection slot = Some d \<and> kind = 0 \<and> target = VNil \<and>
      EncodeFrame P (forwardedEvent (conns w c) e topicID 0 VNil payload) = Some b \<and>
      appended d (plainMessage (forwardedEvent (conns w c) e topicID 0 VNil payload) b) False w w' \<and>
      (\<forall>x. x \<noteq> d \<longrightarrow> conns w' x = conns w x)"
proof -
  let ?H = "homes w h" and ?t = "nameOfID (topicsByID (homes w h)) topicID"
  let ?f = "forwardedEvent (conns w c) e topicID kind target payload"
  have "\<exists>slot cf. get (coordinators ?H) (ownerOf (topicOwners ?H) ?t) = Some slot \<and>
    active slot = Some cf \<and> routeEventLocked P h c (ownerOf (topicOwners ?H) ?t) slot (idOf (cfg_events cf) ?t) ?t topicID
       kind target ?f w = (Handled, w')"
    using assms(1)
    by (auto simp: routeClaimedEvent_def unavailableError_def Let_def split: if_splits option.splits)
  then obtain slot and cf :: coordinatorConfig where s: "get (coordinators ?H) (ownerOf (topicOwners ?H) ?t) = Some slot"
    "routeEventLocked P h c (ownerOf (topicOwners ?H) ?t) slot (idOf (cfg_events cf) ?t) ?t topicID
       kind target ?f w = (Handled, w')" by blast
  then obtain d where d: "reachable w (Some slot) = Some d" "kind = 0" "target = VNil"
    "enqueue P ?f False d w = (True, w')"
    using assms(2) by (auto simp: routeEventLocked_def unavailableError_def Let_def
        split: if_splits option.splits prod.splits bool.splits)
  have "conns w' x = conns w x" if "x \<noteq> d" for x
    using enqueue_other [OF that, of P ?f False w] d(4) by simp
  with s(1) d enqueue_ok [OF d(4)] show ?thesis by (auto simp: reachable_Some)
qed

section \<open>Subscribing and unsubscribing\<close>

lemma checkUnsubscriptions_ok:
  "checkUnsubscriptions subs raws = Some (Inr ids) \<Longrightarrow> raws = map VInt ids \<and> set ids \<subseteq> set subs"
proof (induction raws arbitrary: ids)
  case (Cons raw raws)
  then obtain i js where i: "integer raw = Some i" "i \<in> set subs"
    "checkUnsubscriptions subs raws = Some (Inr js)" "ids = i # js"
    by (auto split: option.splits if_splits sum.splits)
  moreover have "raw = VInt i" using i(1) by (cases raw) simp_all
  ultimately show ?case using Cons.IH by auto
qed simp

lemma enqueue_subscriptions:
  assumes e: "enqueue P f p c w = (ok, w')"
  shows "subscriptions (conns w' d) = subscriptions (conns w d)"
proof -
  have "only_queues w w'" using only_queues_enqueue [of w P f p c] by (simp only: e snd_conv)
  then show ?thesis by (rule only_queues_conn)
qed

lemma subscribe_Handled:
  assumes "subscribe P h c f w = (Handled, w')"
  obtains ids where "Option.bind (payload_at (Payload f) 1) arrayValue = Some (map VInt ids)"
    "subscriptions (conns w' c) = fold sadd ids (subscriptions (conns w c))"
proof -
  from assms obtain r raws where r: "firstInteger f = Some r"
    "Option.bind (payload_at (Payload f) 1) arrayValue = Some raws"
    by (auto simp: subscribe_def Let_def split: if_splits option.splits)
  obtain ids n ok where ids:
    "checkSubscriptions (homes w h) (userOf (conns w c)) (subscriptions (conns w c)) raws =
       Some (Inr (ids, n))"
    and e: "enqueue P \<lparr>Opcode = OpcodeSubscribeOK,
        Payload = [VInt r, VArray (int64SliceValues ids)]\<rparr> True c
      (updConn c (\<lambda>C. C\<lparr>subscriptions := fold sadd ids (subscriptions C)\<rparr>) w) = (ok, w')"
    using assms r
    by (simp add: subscribe_def Let_def split: if_splits option.splits sum.splits prod.splits bool.splits)
  have "subscriptions (conns w' c) = fold sadd ids (subscriptions (conns w c))"
    using enqueue_subscriptions [OF e, of c] by simp
  with that r(2) checkSubscriptions_ok [OF ids] show thesis by blast
qed

lemma unsubscribe_Handled:
  assumes "unsubscribe P h c f w = (Handled, w')"
  obtains ids where "Option.bind (payload_at (Payload f) 1) arrayValue = Some (map VInt ids)"
    "set ids \<subseteq> set (subscriptions (conns w c))"
    "subscriptions (conns w' c) = fold removeAll ids (subscriptions (conns w c))"
proof -
  from assms obtain r raws where r: "firstInteger f = Some r"
    "Option.bind (payload_at (Payload f) 1) arrayValue = Some raws"
    by (auto simp: unsubscribe_def Let_def split: if_splits option.splits)
  obtain ids ok where ids: "checkUnsubscriptions (subscriptions (conns w c)) raws = Some (Inr ids)"
    and e: "enqueue P \<lparr>Opcode = OpcodeUnsubscribeOK,
        Payload = [VInt r, VArray (int64SliceValues ids)]\<rparr> True c
      (updConn c (\<lambda>C. C\<lparr>subscriptions := fold removeAll ids (subscriptions C)\<rparr>) w) = (ok, w')"
    using assms r
    by (simp add: unsubscribe_def Let_def split: if_splits option.splits sum.splits prod.splits bool.splits)
  have "subscriptions (conns w' c) = fold removeAll ids (subscriptions (conns w c))"
    using enqueue_subscriptions [OF e, of c] by simp
  with that r(2) checkUnsubscriptions_ok [OF ids] show thesis by blast
qed

text \<open>Unsubscribing what was just subscribed leaves the subscriptions there were, less what was
  named.\<close>

lemma subscription_round_trip:
  assumes "subscribe P h c f w = (Handled, w')"
    and "unsubscribe P h c g w1 = (Handled, w2)"
    and "subscriptions (conns w1 c) = subscriptions (conns w' c)"
    and "payload_at (Payload g) 1 = payload_at (Payload f) 1"
  obtains ids where "Option.bind (payload_at (Payload f) 1) arrayValue = Some (map VInt ids)"
    "set (subscriptions (conns w2 c)) = set (subscriptions (conns w c)) - set ids"
proof -
  obtain ids where i: "Option.bind (payload_at (Payload f) 1) arrayValue = Some (map VInt ids)"
    "subscriptions (conns w' c) = fold sadd ids (subscriptions (conns w c))"
    using assms(1) by (rule subscribe_Handled)
  obtain js where j: "Option.bind (payload_at (Payload g) 1) arrayValue = Some (map VInt js)"
    "subscriptions (conns w2 c) = fold removeAll js (subscriptions (conns w1 c))"
    using assms(2) by (rule unsubscribe_Handled)
  have "map VInt js = map VInt ids" using i(1) j(1) assms(4) by simp
  then have "js = ids" by (simp add: inj_map_eq_map inj_def)
  with i j assms(3) that [of ids] show thesis by (auto simp: fold_sadd_set fold_removeAll_set)
qed

end
