(* ===== verification/Calls.thy ===== *)
theory Calls
  imports Events
begin

text \<open>
  Routed calls (\<open>internal/relay/calls.go\<close>): a caller's request goes to a callee under an
  identifier of the callee's own; results, errors, cancellation and credit travel along the
  route until its first terminal event removes it from both ends.

  A route is in the maps of two connections: under \<open>callerID\<close> at the caller and under
  \<open>calleeID\<close> at the callee. \<open>credit\<close> is an \<open>int64\<close>; its arithmetic wraps.
\<close>

section \<open>Routes\<close>

definition removeRouteLocked :: "nat \<Rightarrow> relay \<Rightarrow> relay" where
  "removeRouteLocked r w =
     (let R = routes w r in
      if terminal R then w
      else
        let w1 = updRoute r (\<lambda>R. R\<lparr>terminal := True, route_timer := False\<rparr>) w;
            w2 = updConn (caller R) (\<lambda>C. C\<lparr>calls := del (callerID R) (calls C)\<rparr>) w1
        in updConn (callee R) (\<lambda>C. C\<lparr>calls := del (calleeID R) (calls C)\<rparr>) w2)"

definition nextCalleeID :: "int \<Rightarrow> int" where
  "nextCalleeID i =
     (let j = wrap64 (i + 1) in if j \<le> 0 \<or> j > max_safe_integer then 1 else j)"

text \<open>The allocation loop, with fuel. One more round than there are identifiers in use is
  enough (\<open>allocate_total\<close> in \<open>Call_Inv\<close>).\<close>

fun allocateLoop :: "nat \<Rightarrow> int list \<Rightarrow> int \<Rightarrow> int option" where
  "allocateLoop 0 used i = None"
| "allocateLoop (Suc fuel) used i =
     (let j = nextCalleeID i in
      if j \<in> set used then allocateLoop fuel used j else Some j)"

definition allocateCalleeCallIDLocked :: "nat \<Rightarrow> relay \<Rightarrow> int option \<times> relay" where
  "allocateCalleeCallIDLocked c w =
     (let C = conns w c in
      case allocateLoop (Suc (length (calls C))) (keys (calls C)) (nextCallID C) of
        None \<Rightarrow> (None, w)
      | Some i \<Rightarrow> (Some i, updConn c (\<lambda>C. C\<lparr>nextCallID := i\<rparr>) w))"

definition insertRoute :: "callRoute \<Rightarrow> relay \<Rightarrow> relay" where
  "insertRoute R w =
     (let r = nroutes w;
          w1 = w\<lparr>routes := (routes w)(r := R), nroutes := r + 1\<rparr>;
          w2 = updConn (caller R) (\<lambda>C. C\<lparr>calls := put (callerID R) r (calls C)\<rparr>) w1
      in updConn (callee R) (\<lambda>C. C\<lparr>calls := put (calleeID R) r (calls C)\<rparr>) w2)"

section \<open>Starting a call\<close>

definition millisecond :: int where "millisecond = 1000000"

definition resolveCallTargetLocked ::
  "relay \<Rightarrow> home \<Rightarrow> nat \<Rightarrow> string \<Rightarrow> int \<Rightarrow> value \<Rightarrow> (relayError + nat) option" where
  "resolveCallTargetLocked w H c ownerName targetKind target =
     (let C = conns w c in
      if targetKind = 0 then
        if target \<noteq> VNil
        then Some (Inl (applicationError codeInvalidValue False
               ''default call target must be null'' closeProtocol))
        else (case reachable w (get (coordinators H) ownerName) of
                None \<Rightarrow> Some (Inl (applicationError codeNoCoordinator True
                          ''function owner is unavailable'' closeUnavailable))
              | Some d \<Rightarrow> Some (Inr d))
      else if targetKind = 1 then
        if roleOf C \<noteq> RoleCoordinator
        then Some (Inl (applicationError codeWrongDirection False
               ''only coordinators may call a user session'' closeAuthorization))
        else if nameOf C \<noteq> ownerName
        then Some (Inl (applicationError codeForbidden False
               ''coordinator does not own the targeted function'' closeAuthorization))
        else (case integer target of None \<Rightarrow> None | Some session \<Rightarrow>
               (case get (users H) session of
                  None \<Rightarrow> Some (Inl (applicationError codeUnavailable True
                            ''target user session is unavailable'' closeUnavailable))
                | Some u \<Rightarrow>
                    if \<not> available w u \<or> \<not> userEnrolledLocked H (userOf (conns w u))
                    then Some (Inl (applicationError codeUnavailable True
                           ''target user session is unavailable'' closeUnavailable))
                    else Some (Inr u)))
      else if targetKind = 2 then
        if roleOf C \<noteq> RoleCoordinator
        then Some (Inl (applicationError codeWrongDirection False
               ''only coordinators may call a named coordinator'' closeAuthorization))
        else (case stringValue target of None \<Rightarrow> None | Some name \<Rightarrow>
               if name \<noteq> ownerName
               then Some (Inl (applicationError codeForbidden False
                      ''named coordinator does not own the targeted function''
                      closeAuthorization))
               else (case reachable w (get (coordinators H) name) of
                       None \<Rightarrow> Some (Inl (applicationError codeNoCoordinator True
                                 ''target coordinator is unavailable'' closeUnavailable))
                     | Some d \<Rightarrow> Some (Inr d)))
      else Some (Inl (applicationError codeInvalidValue False
             ''call target is invalid'' closeProtocol)))"

record callRequest =
  rq_id :: int
  rq_targetKind :: int
  rq_target :: "value"
  rq_function :: int
  rq_timeout :: int
  rq_idempotency :: "value"
  rq_credit :: int
  rq_arguments :: "value"

definition decodeCall :: "frame \<Rightarrow> callRequest option" where
  "decodeCall f =
     (let p = payload_at (Payload f) in
      do { i \<leftarrow> Option.bind (p 0) integer; kind \<leftarrow> Option.bind (p 1) integer; target \<leftarrow> p 2;
           fn \<leftarrow> Option.bind (p 3) integer; timeout \<leftarrow> Option.bind (p 4) integer; key \<leftarrow> p 5;
           cr \<leftarrow> Option.bind (p 6) integer; arguments \<leftarrow> p 7;
           Some \<lparr>rq_id = i, rq_targetKind = kind, rq_target = target, rq_function = fn,
                 rq_timeout = timeout, rq_idempotency = key, rq_credit = cr,
                 rq_arguments = arguments\<rparr> })"

definition dispatchFrame :: "connection \<Rightarrow> callRequest \<Rightarrow> int \<Rightarrow> int \<Rightarrow> frame" where
  "dispatchFrame C q calleeCallID remaining =
     \<lparr>Opcode = OpcodeCallDispatch,
      Payload = [VInt calleeCallID, Principal (conn_identity C) (sessionID C),
                 VInt (rq_targetKind q), rq_target q, VInt (rq_function q),
                 VInt (max 1 (remaining div millisecond)), rq_idempotency q,
                 VInt (rq_credit q), rq_arguments q]\<rparr>"

text \<open>Lines 74-128: the callee is known.\<close>

definition dispatchCall ::
  "protocol \<Rightarrow> nat \<Rightarrow> nat \<Rightarrow> callRequest \<Rightarrow> int \<Rightarrow> relay \<Rightarrow> outcome \<times> relay" where
  "dispatchCall P c d q until w =
     (if int (length (calls (conns w d))) \<ge> MaxInflightCalls P
      then (Failed (applicationError codeLimitExceeded False
              ''callee call concurrency limit exceeded'' closeLimit), w)
      else case allocateCalleeCallIDLocked d w of
        (None, w1) \<Rightarrow> (Panicked, w1)
      | (Some i, w1) \<Rightarrow>
          if until - clock w1 \<le> 0
          then (Failed (applicationError codeDeadlineExceeded False
                  ''call deadline expired before dispatch'' closeTimeout), w1)
          else
            let f = dispatchFrame (conns w1 c) q i (until - clock w1) in
            (case validateRoutableFrame P f of Some e \<Rightarrow> (Failed e, w1) | None \<Rightarrow>
              let R = \<lparr>caller = c, callee = d, callerID = rq_id q, calleeID = i,
                       credit = rq_credit q, accepted = False, terminal = False,
                       deadline = until, route_timer = False\<rparr>;
                  r = nroutes w1;
                  w2 = insertRoute R w1
              in (case enqueue P f False d w2 of
                    (False, w3) \<Rightarrow>
                      (unavailableError codeUnavailable ''call destination is unavailable'',
                       removeRouteLocked r w3)
                  | (True, w3) \<Rightarrow>
                      let w4 = updRoute r (\<lambda>R. R\<lparr>accepted := True, route_timer := True\<rparr>) w3 in
                      (case enqueue P \<lparr>Opcode = OpcodeCallAccepted, Payload = [VInt (rq_id q)]\<rparr>
                              False c w4 of
                         (True, w5) \<Rightarrow> (Handled, w5)
                       | (False, w5) \<Rightarrow> (Failed slowConsumer, w5)))))"

text \<open>\<open>received\<close> is the instant read on line 40, before the home lock is taken.\<close>

definition startCall ::
  "protocol \<Rightarrow> int \<Rightarrow> nat \<Rightarrow> nat \<Rightarrow> frame \<Rightarrow> relay \<Rightarrow> outcome \<times> relay" where
  "startCall P received h c f w =
     (case decodeCall f of None \<Rightarrow> (Panicked, w) | Some q \<Rightarrow>
        let H = homes w h; C = conns w c;
            until = received + wrap64 (rq_timeout q * millisecond);
            functionName = nameOfID (functionsByID H) (rq_function q);
            ownerName = ownerOf (functionOwners H) functionName
        in case coordinatorGate w h c of Some e \<Rightarrow> (Failed e, w) | None \<Rightarrow>
           if rq_id q \<in> set (keys (calls C))
           then (Failed (applicationError codeDuplicateRequest False
                   ''call identifier is already in flight'' closeConflict), w)
           else if int (length (calls C)) \<ge> MaxInflightCalls P
           then (Failed (applicationError codeLimitExceeded False
                   ''call concurrency limit exceeded'' closeLimit), w)
           else if functionName = [] \<or> ownerName = []
           then (Failed (applicationError codeNotDeclared False
                   ''function is not declared'' closeAuthorization), w)
           else if roleOf C = RoleUser \<and> \<not> userEnrolledLocked H (userOf C) \<and>
                   functionName \<noteq> ''miakapp.join''
           then (Failed (applicationError codeNotEnrolled False
                   ''user is not enrolled'' closeAuthorization), w)
           else case resolveCallTargetLocked w H c ownerName (rq_targetKind q) (rq_target q) of
                  None \<Rightarrow> (Panicked, w)
                | Some (Inl e) \<Rightarrow> (Failed e, w)
                | Some (Inr d) \<Rightarrow> dispatchCall P c d q until w)"

section \<open>Results, errors, cancellation, credit\<close>

definition routeNotActive :: relayError where
  "routeNotActive =
     applicationError codeNotDeclared False ''call route is not active'' closeAuthorization"

text \<open>Lines 190-198 and 236-244: the route a callee answers. An identifier that was allocated
  before and is no longer in use is answered by nothing at all (\<open>Inl None\<close>).\<close>

definition calleeRoute :: "relay \<Rightarrow> nat \<Rightarrow> int \<Rightarrow> relayError option + nat" where
  "calleeRoute w c callID =
     (case get (calls (conns w c)) callID of
        None \<Rightarrow> if callID \<le> nextCallID (conns w c) then Inl None else Inl (Some routeNotActive)
      | Some r \<Rightarrow>
          if callee (routes w r) \<noteq> c \<or> calleeID (routes w r) \<noteq> callID \<or> terminal (routes w r)
          then Inl (Some routeNotActive) else Inr r)"

text \<open>Lines 275-278 and 313-316: the route a caller controls.\<close>

definition callerRoute :: "relay \<Rightarrow> nat \<Rightarrow> int \<Rightarrow> nat option" where
  "callerRoute w c callID =
     (case get (calls (conns w c)) callID of
        None \<Rightarrow> None
      | Some r \<Rightarrow>
          if caller (routes w r) \<noteq> c \<or> callerID (routes w r) \<noteq> callID \<or> terminal (routes w r)
          then None else Some r)"

definition originUnavailable :: "bool \<times> relay \<Rightarrow> outcome \<times> relay" where
  "originUnavailable p =
     (case p of (True, w) \<Rightarrow> (Handled, w)
      | (False, w) \<Rightarrow> (unavailableError codeUnavailable ''call origin is unavailable'', w))"

definition forwardCallResult ::
  "protocol \<Rightarrow> nat \<Rightarrow> nat \<Rightarrow> frame \<Rightarrow> relay \<Rightarrow> outcome \<times> relay" where
  "forwardCallResult P h c f w =
     (case (firstInteger f, payload_at (Payload f) 1) of
        (Some callID, Some flag) \<Rightarrow>
          (case flag of
             VBool final \<Rightarrow>
               (case coordinatorGate w h c of Some e \<Rightarrow> (Failed e, w) | None \<Rightarrow>
                 case calleeRoute w c callID of
                   Inl None \<Rightarrow> (Handled, w)
                 | Inl (Some e) \<Rightarrow> (Failed e, w)
                 | Inr r \<Rightarrow>
                     let R = routes w r in
                     if \<not> final \<and> credit R = 0
                     then (Failed (applicationError codeLimitExceeded False
                             ''call result exceeded stream credit'' closeLimit), w)
                     else (case payload_at (Payload f) 2 of None \<Rightarrow> (Panicked, w) | Some result \<Rightarrow>
                       let forwarded = \<lparr>Opcode = OpcodeCallResult,
                             Payload = [VInt (callerID R), VBool final, result]\<rparr>
                       in case validateRoutableFrame P forwarded of Some e \<Rightarrow> (Failed e, w) | None \<Rightarrow>
                         originUnavailable
                           (if final then enqueue P forwarded True (caller R) (removeRouteLocked r w)
                            else enqueueStream P forwarded (caller R)
                              (updRoute r (\<lambda>R. R\<lparr>credit := wrap64 (credit R - 1)\<rparr>) w))))
           | _ \<Rightarrow> (Failed (fatalError codeInvalidValue False
                    ''call result final flag is invalid'' closeProtocol), w))
      | _ \<Rightarrow> (Panicked, w))"

definition forwardCallError ::
  "protocol \<Rightarrow> nat \<Rightarrow> nat \<Rightarrow> frame \<Rightarrow> relay \<Rightarrow> outcome \<times> relay" where
  "forwardCallError P h c f w =
     (case firstInteger f of None \<Rightarrow> (Panicked, w) | Some callID \<Rightarrow>
        case coordinatorGate w h c of Some e \<Rightarrow> (Failed e, w) | None \<Rightarrow>
        case calleeRoute w c callID of
          Inl None \<Rightarrow> (Handled, w)
        | Inl (Some e) \<Rightarrow> (Failed e, w)
        | Inr r \<Rightarrow>
            let R = routes w r; p = payload_at (Payload f) in
            (case (p 1, p 2, p 3, p 4) of
               (Some p1, Some p2, Some p3, Some p4) \<Rightarrow>
                 let forwarded = \<lparr>Opcode = OpcodeCallError,
                       Payload = [VInt (callerID R), p1, p2, p3, p4]\<rparr>
                 in (case validateRoutableFrame P forwarded of Some e \<Rightarrow> (Failed e, w) | None \<Rightarrow>
                       originUnavailable
                         (enqueue P forwarded True (caller R) (removeRouteLocked r w)))
             | _ \<Rightarrow> (Panicked, w)))"

definition callFailure :: "int \<Rightarrow> int \<Rightarrow> string \<Rightarrow> frame" where
  "callFailure callID c m = callFailureFrame callID c False m VNil"

definition orSlow :: "bool \<times> relay \<Rightarrow> outcome \<times> relay" where
  "orSlow p = (case p of (True, w) \<Rightarrow> (Handled, w) | (False, w) \<Rightarrow> (Failed slowConsumer, w))"

definition callCancel :: "int \<Rightarrow> value \<Rightarrow> frame" where
  "callCancel i reason = \<lparr>Opcode = OpcodeCallCancel, Payload = [VInt i, reason]\<rparr>"

definition cancelCall ::
  "protocol \<Rightarrow> nat \<Rightarrow> nat \<Rightarrow> frame \<Rightarrow> relay \<Rightarrow> outcome \<times> relay" where
  "cancelCall P h c f w =
     (case (firstInteger f, payload_at (Payload f) 1) of
        (Some callID, Some reason) \<Rightarrow>
          (case coordinatorGate w h c of Some e \<Rightarrow> (Failed e, w) | None \<Rightarrow>
           case callerRoute w c callID of
             None \<Rightarrow> (Failed routeNotActive, w)
           | Some r \<Rightarrow>
               let R = routes w r in
               if \<not> accepted R
               then orSlow (enqueue P (callFailure callID codeCancelled
                      ''call cancelled before dispatch'') True c (removeRouteLocked r w))
               else
                 let w1 = snd (enqueue P (callCancel (calleeID R) reason) True (callee R) w);
                     w2 = removeRouteLocked r w1
                 in orSlow (enqueue P (callFailure callID codeOutcomeUnknown
                      ''call cancellation outcome is unknown'') True c w2))
      | _ \<Rightarrow> (Panicked, w))"

definition creditCall ::
  "protocol \<Rightarrow> nat \<Rightarrow> nat \<Rightarrow> frame \<Rightarrow> relay \<Rightarrow> outcome \<times> relay" where
  "creditCall P h c f w =
     (case (firstInteger f, Option.bind (payload_at (Payload f) 1) integer) of
        (Some callID, Some additional) \<Rightarrow>
          (case coordinatorGate w h c of Some e \<Rightarrow> (Failed e, w) | None \<Rightarrow>
           case callerRoute w c callID of
             None \<Rightarrow> (Failed routeNotActive, w)
           | Some r \<Rightarrow>
               let R = routes w r in
               if wrap64 (credit R + additional) > MaxStreamCredit P
               then (Failed (applicationError codeLimitExceeded False
                       ''call stream credit limit exceeded'' closeLimit), w)
               else
                 let w1 = updRoute r (\<lambda>R. R\<lparr>credit := wrap64 (credit R + additional)\<rparr>) w in
                 (case enqueue P \<lparr>Opcode = OpcodeCallCredit,
                         Payload = [VInt (calleeID R), VInt additional]\<rparr> True (callee R) w1 of
                    (True, w2) \<Rightarrow> (Handled, w2)
                  | (False, w2) \<Rightarrow>
                      (unavailableError codeUnavailable ''call destination is unavailable'', w2)))
      | _ \<Rightarrow> (Panicked, w))"

definition handleCall ::
  "protocol \<Rightarrow> int \<Rightarrow> nat \<Rightarrow> nat \<Rightarrow> frame \<Rightarrow> relay \<Rightarrow> outcome \<times> relay" where
  "handleCall P received h c f w =
     (if Opcode f = OpcodeCall then startCall P received h c f w
      else if Opcode f = OpcodeCallResult then forwardCallResult P h c f w
      else if Opcode f = OpcodeCallError then forwardCallError P h c f w
      else if Opcode f = OpcodeCallCancel then cancelCall P h c f w
      else if Opcode f = OpcodeCallCredit then creditCall P h c f w
      else (Failed (applicationError codeUnexpectedFrame False
              ''unexpected call frame'' closeProtocol), w))"

section \<open>The end of a route without an answer\<close>

text \<open>The locked part of \<open>expireCall\<close>; the frames go out after the lock is released.\<close>

definition expiryActions :: "callRoute \<Rightarrow> sendAction list" where
  "expiryActions R =
     (if accepted R
      then [\<lparr>act_connection = callee R,
             act_frame = callCancel (calleeID R) (VInt codeDeadlineExceeded),
             act_priority = True\<rparr>,
            \<lparr>act_connection = caller R,
             act_frame = callFailure (callerID R) codeOutcomeUnknown
               ''call deadline expired after dispatch'',
             act_priority = True\<rparr>]
      else [\<lparr>act_connection = caller R,
             act_frame = callFailure (callerID R) codeDeadlineExceeded
               ''call deadline expired before dispatch'',
             act_priority = True\<rparr>])"

definition expireCall :: "protocol \<Rightarrow> nat \<Rightarrow> relay \<Rightarrow> relay" where
  "expireCall P r w =
     (if terminal (routes w r) then w
      else dispatch P (expiryActions (routes w r)) (removeRouteLocked r w))"

definition terminationAction :: "nat \<Rightarrow> callRoute \<Rightarrow> sendAction" where
  "terminationAction c R =
     (if caller R = c
      then \<lparr>act_connection = callee R,
            act_frame = callCancel (calleeID R) (VInt codeOutcomeUnknown),
            act_priority = True\<rparr>
      else \<lparr>act_connection = caller R,
            act_frame = callFailure (callerID R) codeOutcomeUnknown
              ''call destination disconnected after dispatch'',
            act_priority = True\<rparr>)"

text \<open>The loop deletes from the map it ranges over; the entries it loses are those of routes
  that are terminal by then, which the loop skips anyway (this also covers \<open>seen\<close>).\<close>

fun terminateLoop :: "nat \<Rightarrow> (int \<times> nat) list \<Rightarrow> relay \<Rightarrow> sendAction list \<times> relay" where
  "terminateLoop c [] w = ([], w)"
| "terminateLoop c (p # ps) w =
     (let r = snd p; R = routes w r in
      if terminal R then terminateLoop c ps w
      else case terminateLoop c ps (removeRouteLocked r w) of
             (actions, w1) \<Rightarrow> (terminationAction c R # actions, w1))"

definition terminateCallsForConnectionLocked :: "nat \<Rightarrow> relay \<Rightarrow> sendAction list \<times> relay" where
  "terminateCallsForConnectionLocked c w = terminateLoop c (calls (conns w c)) w"

end
