(* ===== verification/Home_Lifecycle.thy ===== *)
theory Home_Lifecycle
  imports Calls
begin

text \<open>
  The life of a home (\<open>internal/relay/home.go\<close>): the registry that shares homes by identifier
  and counts references, \<open>attach\<close> and \<open>detach\<close> of a session, the generations and the grace
  period of a coordinator slot, and \<open>close\<close>.
\<close>

section \<open>The registry\<close>

datatype acquireError = errHomeCapacity | registryIsClosed | noRandomness

text \<open>\<open>random\<close> is what \<open>rand.Read\<close> delivers, \<open>None\<close> where it fails.\<close>

definition acquire :: "byte list option \<Rightarrow> string \<Rightarrow> relay \<Rightarrow> (acquireError + nat) \<times> relay" where
  "acquire random homeID w =
     (if registryClosed w then (Inl registryIsClosed, w)
      else case get (registry w) homeID of
        Some h \<Rightarrow> (Inr h, updHome h (\<lambda>H. H\<lparr>references := references H + 1\<rparr>) w)
      | None \<Rightarrow>
          if int (length (registry w)) \<ge> MaxHomes (cfg w) then (Inl errHomeCapacity, w)
          else (case random of
                  None \<Rightarrow> (Inl noRandomness, w)
                | Some e \<Rightarrow>
                    let h = nhomes w in
                    (Inr h, w\<lparr>homes := (homes w)(h := (newHome e homeID)\<lparr>references := 1\<rparr>),
                              nhomes := h + 1, registry := put homeID h (registry w)\<rparr>)))"

definition home_empty :: "home \<Rightarrow> bool" where
  "home_empty H \<longleftrightarrow> connections H = [] \<and> coordinators H = []"

definition deleteIfUnused :: "nat \<Rightarrow> relay \<Rightarrow> relay" where
  "deleteIfUnused h w =
     (let H = homes w h in
      if get (registry w) (home_id H) = Some h \<and> references H = 0 \<and> home_empty H
      then w\<lparr>registry := del (home_id H) (registry w)\<rparr> else w)"

definition releaseHome :: "nat \<Rightarrow> relay \<Rightarrow> relay" where
  "releaseHome h w = deleteIfUnused h (updHome h (\<lambda>H. H\<lparr>references := references H - 1\<rparr>) w)"

section \<open>Attaching a session\<close>

definition welcomeFrame :: "protocol \<Rightarrow> relay \<Rightarrow> home \<Rightarrow> nat \<Rightarrow> bool \<Rightarrow> value list \<Rightarrow> frame" where
  "welcomeFrame P w H c enrolled cs =
     \<lparr>Opcode = OpcodeWelcome,
      Payload = [VInt 1, VInt 0, VInt (sessionID (conns w c)), VBytes (epoch H),
                 VBool enrolled, VArray cs,
                 VArray [VInt (MaxFrameBytes P), VInt (MaxInflightCalls P),
                         VInt (MaxSubscriptions P), VInt (MaxQueuedBytes (cfg w))],
                 VInt (UnixMilli (ExpiresAt (conn_identity (conns w c))))]\<rparr>"

definition addConnection :: "int \<Rightarrow> nat \<Rightarrow> home \<Rightarrow> home" where
  "addConnection session c H = H\<lparr>connections := put session c (connections H)\<rparr>"

definition dropConnection :: "int \<Rightarrow> home \<Rightarrow> home" where
  "dropConnection session H = H\<lparr>connections := del session (connections H)\<rparr>"

text \<open>What registering a session leaves to do: the frames of its bootstrap, whether its user is
  enrolled, the coordinator session it replaces and the actions for the calls of that one.\<close>

record registration =
  reg_enrolled :: bool
  reg_frames :: "frame list"
  reg_replaced :: "nat option"
  reg_actions :: "sendAction list"

text \<open>Lines 189-208.\<close>

definition attachUser ::
  "protocol \<Rightarrow> nat \<Rightarrow> nat \<Rightarrow> relay \<Rightarrow> (relayError + registration) \<times> relay" where
  "attachUser P h c w0 =
     (let session = sessionID (conns w0 c);
          w = updHome h (addConnection session c) w0
      in if int (length (users (homes w h))) \<ge> maxPresenceEntries
         then (Inl (fatalError codeLimitExceeded True ''home presence limit exceeded'' closeLimit),
               updHome h (dropConnection session) w)
         else
           let w1 = updHome h (\<lambda>H. H\<lparr>users := put session c (users H)\<rparr>) w in
           (case validateEncodable P (presenceSnapshotIncludingLocked w1 (homes w1 h) (Some c)) of
              Some _ \<Rightarrow>
                (Inl (fatalError codeLimitExceeded True
                   ''home presence snapshot would exceed the frame limit'' closeLimit),
                 updHome h (\<lambda>H. dropConnection session (H\<lparr>users := del session (users H)\<rparr>)) w1)
            | None \<Rightarrow>
                (case userBootstrapLocked h c w1 of (frames, w2) \<Rightarrow>
                   (Inr \<lparr>reg_enrolled = userEnrolledLocked (homes w1 h) (userOf (conns w1 c)),
                         reg_frames = frames, reg_replaced = None, reg_actions = []\<rparr>, w2))))"

text \<open>Lines 221-232: a new generation takes the slot.\<close>

definition takeSlot :: "string \<Rightarrow> nat \<Rightarrow> home \<Rightarrow> home" where
  "takeSlot name c H =
     updSlot name (\<lambda>s. s\<lparr>grace := None, slot_generation := slot_generation s + 1,
                         slot_connection := Some c, ready := False\<rparr>) H"

text \<open>Lines 209-233.\<close>

definition attachCoordinator ::
  "nat \<Rightarrow> nat \<Rightarrow> relay \<Rightarrow> (relayError + registration) \<times> relay" where
  "attachCoordinator h c w0 =
     (let session = sessionID (conns w0 c); name = nameOf (conns w0 c);
          w = updHome h (addConnection session c) w0
      in if get (coordinators (homes w h)) name = None \<and>
            int (length (coordinators (homes w h))) \<ge> maxCoordinatorsPerHome
         then (Inl (fatalError codeLimitExceeded True ''home coordinator limit exceeded'' closeLimit),
               updHome h (dropConnection session) w)
         else
           let slot = (case get (coordinators (homes w h)) name of
                         None \<Rightarrow> newSlot | Some s \<Rightarrow> s);
               w1 = updHome h (\<lambda>H. H\<lparr>coordinators := put name slot (coordinators H)\<rparr>) w;
               replaced = (if slot_connection slot = Some c then None else slot_connection slot)
           in (case (case replaced of None \<Rightarrow> ([], w1)
                     | Some old \<Rightarrow> terminateCallsForConnectionLocked old w1) of
                 (actions, w2) \<Rightarrow>
                   let w3 = updHome h (takeSlot name c) w2;
                       w4 = updConn c (\<lambda>C. C\<lparr>generation := slot_generation slot + 1\<rparr>) w3
                   in (Inr \<lparr>reg_enrolled = True,
                            reg_frames = [presenceSnapshotLocked w4 (homes w4 h)],
                            reg_replaced = replaced, reg_actions = actions\<rparr>, w4)))"

definition registerSession ::
  "protocol \<Rightarrow> nat \<Rightarrow> nat \<Rightarrow> relay \<Rightarrow> (relayError + registration) \<times> relay" where
  "registerSession P h c w =
     (let C = conns w c in
      if roleOf C = RoleUser then attachUser P h c w
      else if roleOf C = RoleCoordinator then attachCoordinator h c w
      else if roleOf C = RoleCLI
      then (Inr \<lparr>reg_enrolled = True, reg_frames = [], reg_replaced = None, reg_actions = []\<rparr>,
            updHome h (addConnection (sessionID C) c) w)
      else (Inl (fatalError codeUnauthenticated False ''unsupported authenticated role'' closeAuth),
            updHome h (dropConnection (sessionID C)) (updHome h (addConnection (sessionID C) c) w)))"

fun enqueueAll :: "protocol \<Rightarrow> frame list \<Rightarrow> nat \<Rightarrow> relay \<Rightarrow> bool \<times> relay" where
  "enqueueAll P [] c w = (True, w)"
| "enqueueAll P (f # fs) c w =
     (case enqueue P f False c w of
        (True, w1) \<Rightarrow> enqueueAll P fs c w1
      | (False, w1) \<Rightarrow> (False, w1))"

text \<open>Lines 241-264: the bootstrap of a registered session. The result is the failure, or the
  actions that announce the session.\<close>

definition bootstrap ::
  "protocol \<Rightarrow> nat \<Rightarrow> nat \<Rightarrow> bool \<Rightarrow> frame list \<Rightarrow> relay
     \<Rightarrow> (relayError + sendAction list) \<times> relay" where
  "bootstrap P h c enrolled frames w =
     (let cs = coordinatorStatusIncludingLocked w (homes w h) (Some c) in
      case enqueue P (welcomeFrame P w (homes w h) c enrolled cs) True c w of
        (False, w1) \<Rightarrow> (Inl slowConsumer, w1)
      | (True, w1) \<Rightarrow>
          (case enqueueAll P frames c w1 of
             (False, w2) \<Rightarrow> (Inl slowConsumer, w2)
           | (True, w2) \<Rightarrow>
               (case activateInitialLease c w2 of
                  (False, w3) \<Rightarrow> (Inl tokenExpired, w3)
                | (True, w3) \<Rightarrow>
                    (Inr (if \<not> available w3 c then []
                          else if roleOf (conns w3 c) = RoleUser
                          then presenceActionsLocked w3 (homes w3 h) (sessionID (conns w3 c))
                                 (userOf (conns w3 c)) 1
                          else if roleOf (conns w3 c) = RoleCoordinator
                          then homeStatusActionsLocked w3 (homes w3 h) else []), w3))))"

definition attach :: "protocol \<Rightarrow> nat \<Rightarrow> nat \<Rightarrow> relay \<Rightarrow> relayError option \<times> relay" where
  "attach P h c w =
     (if home_closed (homes w h)
      then (Some (fatalError codeUnavailable True ''relay is shutting down'' closeUnavailable), w)
      else case registerSession P h c w of
        (Inl e, w1) \<Rightarrow> (Some e, w1)
      | (Inr reg, w1) \<Rightarrow>
          (case bootstrap P h c (reg_enrolled reg) (reg_frames reg) w1 of (result, w2) \<Rightarrow>
             let w3 = dispatch P (reg_actions reg) w2;
                 w4 = (case result of Inl _ \<Rightarrow> w3 | Inr actions \<Rightarrow> dispatch P actions w3);
                 w5 = (case reg_replaced reg of None \<Rightarrow> w4
                       | Some old \<Rightarrow> fail P 0 generationReplaced old w4)
             in ((case result of Inl e \<Rightarrow> Some e | Inr _ \<Rightarrow> None), w5)))"

section \<open>Detaching a session\<close>

text \<open>Lines 304-324: the slot of a coordinator that leaves. \<open>None\<close>: the slot belongs to another
  generation; otherwise whether the status changes, and the new home.\<close>

definition leaveSlot :: "nat \<Rightarrow> connection \<Rightarrow> home \<Rightarrow> bool \<times> home" where
  "leaveSlot c C H =
     (let name = nameOf C in
      case get (coordinators H) name of
        None \<Rightarrow> (False, H)
      | Some slot \<Rightarrow>
          if slot_connection slot = Some c \<and> slot_generation slot = generation C
          then if home_closed H \<or> \<not> bootstrapped C \<and> active slot = None
               then (False, H\<lparr>coordinators := del name (coordinators H)\<rparr>)
               else (True, updSlot name (\<lambda>s. s\<lparr>slot_connection := None, ready := False,
                                               grace := Some (slot_generation slot)\<rparr>) H)
          else (False, H))"

definition detachHome :: "protocol \<Rightarrow> nat \<Rightarrow> nat \<Rightarrow> relay \<Rightarrow> relay" where
  "detachHome P h c w =
     (let C = conns w c; session = sessionID C in
      if session \<notin> set (keys (connections (homes w h))) then w
      else
        let w1 = setStage None c (updHome h (dropConnection session) w) in
        (case terminateCallsForConnectionLocked c w1 of (actions, w2) \<Rightarrow>
           if roleOf C = RoleUser then
             let w3 = updHome h (\<lambda>H. H\<lparr>users := del session (users H)\<rparr>) w2;
                 lifecycle = (if bootstrapped C \<and> \<not> home_closed (homes w3 h)
                   then presenceActionsLocked w3 (homes w3 h) session (userOf C) 2 else [])
             in dispatch P lifecycle (dispatch P actions w3)
           else if roleOf C = RoleCoordinator then
             (case leaveSlot c (conns w2 c) (homes w2 h) of (announce, H3) \<Rightarrow>
                let w3 = updHome h (\<lambda>_. H3) w2;
                    lifecycle = (if announce then homeStatusActionsLocked w3 (homes w3 h) else [])
                in dispatch P lifecycle (dispatch P actions w3))
           else dispatch P actions w2))"

text \<open>\<open>detach\<close> of \<open>connection.go\<close> (lines 773-781).\<close>

definition detach :: "protocol \<Rightarrow> nat \<Rightarrow> relay \<Rightarrow> relay" where
  "detach P c w =
     (if detachOnce (conns w c) then w
      else
        let w1 = updConn c (\<lambda>C. C\<lparr>detachOnce := True\<rparr>) w in
        case conn_home (conns w1 c) of
          None \<Rightarrow> w1
        | Some h \<Rightarrow> releaseHome h (detachHome P h c w1))"

section \<open>Grace and close\<close>

definition removedHome :: "string \<Rightarrow> coordinatorConfig \<Rightarrow> home \<Rightarrow> home" where
  "removedHome name cf H =
     (let H1 = updSlot name (\<lambda>s. s\<lparr>active := None\<rparr>) (releaseOwnership cf H)
      in H1\<lparr>revision := revision H1 + 1, policy := policy H1 + 1\<rparr>)"

definition removeCoordinatorLocked ::
  "nat \<Rightarrow> string \<Rightarrow> relay \<Rightarrow> sendAction list \<times> relay" where
  "removeCoordinatorLocked h name w =
     (case slotActive (homes w h) name of
        None \<Rightarrow> ([], w)
      | Some cf \<Rightarrow>
          let previousViews = captureUserViewsLocked w (homes w h);
              w1 = updHome h (removedHome name cf) w
          in userViewActionsLocked h previousViews True (pruneSubscriptionsLocked h w1))"

definition expireCoordinator ::
  "protocol \<Rightarrow> nat \<Rightarrow> string \<Rightarrow> int \<Rightarrow> relay \<Rightarrow> relay" where
  "expireCoordinator P h name gen w =
     (case get (coordinators (homes w h)) name of
        None \<Rightarrow> w
      | Some slot \<Rightarrow>
          if slot_generation slot \<noteq> gen \<or> slot_connection slot \<noteq> None then w
          else
            let w1 = updHome h (updSlot name (\<lambda>s. s\<lparr>grace := None\<rparr>)) w in
            (case removeCoordinatorLocked h name w1 of (actions, w2) \<Rightarrow>
               let w3 = updHome h (\<lambda>H. H\<lparr>coordinators := del name (coordinators H)\<rparr>) w2;
                   w4 = dispatch P actions w3;
                   w5 = dispatch P (homeStatusActionsLocked w4 (homes w4 h)) w4
               in deleteIfUnused h w5))"

definition closedCoordinators :: "(string \<times> coordinatorSlot) list \<Rightarrow> (string \<times> coordinatorSlot) list"
where
  "closedCoordinators cs =
     map (\<lambda>p. (fst p, (snd p)\<lparr>grace := None\<rparr>)) (filter (\<lambda>p. slot_connection (snd p) \<noteq> None) cs)"

fun stopAll :: "int \<Rightarrow> string \<Rightarrow> nat list \<Rightarrow> relay \<Rightarrow> relay" where
  "stopAll status reason [] w = w"
| "stopAll status reason (c # cs) w = stopAll status reason cs (stop status reason c w)"

definition closeHome :: "nat \<Rightarrow> relay \<Rightarrow> relay" where
  "closeHome h w =
     (if home_closed (homes w h) then w
      else
        let w1 = updHome h (\<lambda>H. H\<lparr>home_closed := True,
                                  coordinators := closedCoordinators (coordinators H)\<rparr>) w
        in deleteIfUnused h
             (stopAll StatusServiceRestart ''service_restart''
               (map snd (connections (homes w h))) w1))"

fun closeHomes :: "nat list \<Rightarrow> relay \<Rightarrow> relay" where
  "closeHomes [] w = w"
| "closeHomes (h # hs) w = closeHomes hs (closeHome h w)"

definition closeRegistry :: "relay \<Rightarrow> relay" where
  "closeRegistry w =
     (if registryClosed w then w
      else closeHomes (map snd (registry w)) (w\<lparr>registryClosed := True\<rparr>))"

end
