(* ===== verification/Session.thy ===== *)
theory Session
  imports Home_Lifecycle
begin

text \<open>
  The session layer (\<open>connection.go\<close>, lines 100-395, 541-559, 789-835): authentication, the gate
  every decoded frame passes, reauthentication, draining, and the read loop one message at a
  time.

  Token verification runs without any lock and takes time, so an authentication is two steps,
  before and after it, between which other steps may run. The verifier's answer is an argument.
\<close>

section \<open>What a frame is allowed to be\<close>

definition requestIdentifier :: "frame \<Rightarrow> bool" where
  "requestIdentifier f \<longleftrightarrow> Opcode f \<in> set requestOpcodes"

text \<open>\<open>None\<close>: the accessor panics.\<close>

definition frameCorrelation :: "frame \<Rightarrow> int option" where
  "frameCorrelation f =
     (if Payload f = [] then Some 0
      else if Opcode f \<in> set (requestOpcodes @ [OpcodeEvent, OpcodeCall, OpcodeCallResult,
                OpcodeCallError, OpcodeCallCancel, OpcodeCallCredit])
      then firstInteger f else Some 0)"

definition isCallFlowOpcode :: "protocol \<Rightarrow> opcode \<Rightarrow> bool" where
  "isCallFlowOpcode P op \<longleftrightarrow>
     opcodeByte P op \<ge> opcodeByte P OpcodeCall \<and> opcodeByte P op \<le> opcodeByte P OpcodeCallCredit \<and>
     op \<noteq> OpcodeCallDispatch \<and> op \<noteq> OpcodeCallAccepted"

definition incomingAllowed :: "protocol \<Rightarrow> int \<Rightarrow> opcode \<Rightarrow> bool" where
  "incomingAllowed P role op =
     (if op = OpcodeReauth then True
      else if role = RoleCoordinator
      then op = OpcodeStateSync \<or> op = OpcodeStateSet \<or> op = OpcodeStateACLSync \<or>
           op = OpcodeEventSync \<or> op = OpcodeEventACLSync \<or> op = OpcodeEvent \<or>
           op = OpcodeFunctionSync \<or> isCallFlowOpcode P op
      else if role = RoleUser
      then op = OpcodeStateResync \<or> op = OpcodeSubscribe \<or> op = OpcodeUnsubscribe \<or>
           op = OpcodeEvent \<or> isCallFlowOpcode P op
      else if role = RoleCLI
      then op = OpcodeStateResync \<or> op = OpcodeSubscribe \<or> op = OpcodeUnsubscribe \<or>
           op = OpcodeEvent \<or> isCallFlowOpcode P op
      else False)"

fun authenticationFailure :: "authError \<Rightarrow> relayError" where
  "authenticationFailure e =
     (case Kind e of
        ErrExpired \<Rightarrow> fatalError codeTokenExpired True ''access token expired'' closeAuth
      | ErrAudience \<Rightarrow>
          fatalError codeInvalidAudience False ''access token audience is invalid'' closeAuth
      | ErrTemporary \<Rightarrow>
          fatalError codeUnavailable True ''authentication service unavailable'' closeUnavailable
      | ErrRejected \<Rightarrow> fatalError codeUnauthenticated False ''authentication failed'' closeAuth)"

section \<open>Authentication\<close>

text \<open>Lines 203-221: the verification request a HELLO asks for.\<close>

definition helloRequest :: "frame \<Rightarrow> (relayError + request) option" where
  "helloRequest f =
     (let p = payload_at (Payload f) in
      do { major \<leftarrow> Option.bind (p 0) integer;
           minimumMinor \<leftarrow> Option.bind (p 1) integer;
           maximumMinor \<leftarrow> Option.bind (p 2) integer;
           if major \<noteq> 1 \<or> minimumMinor > 0 \<or> maximumMinor < 0
           then Some (Inl (fatalError codeUnsupportedVersion False
                  ''protocol version is not supported'' closeProtocol))
           else do {
             role \<leftarrow> Option.bind (p 3) integer;
             token \<leftarrow> Option.bind (p 4) stringValue;
             fields \<leftarrow> Option.bind (p 5) arrayValue;
             let q = \<lparr>req_Role = role, Token = token, req_HomeID = [], req_CoordinatorName = []\<rparr> in
             if role = RoleUser
             then do { s \<leftarrow> Option.bind (payload_at fields 0) stringValue;
                       Some (Inr (q\<lparr>req_HomeID := s\<rparr>)) }
             else if role = RoleCoordinator
             then do { s \<leftarrow> Option.bind (payload_at fields 0) stringValue;
                       Some (Inr (q\<lparr>req_CoordinatorName := s\<rparr>)) }
             else if role = RoleCLI then Some (Inr q)
             else Some (Inl (fatalError codeUnauthenticated False
                    ''authentication role is invalid'' closeAuth)) } })"

definition startDraining :: "protocol \<Rightarrow> int \<Rightarrow> int \<Rightarrow> nat \<Rightarrow> relay \<Rightarrow> relay" where
  "startDraining P retryAfterMs reasonCode c w =
     (if drainOnce (conns w c) then w
      else
        let w1 = updConn c (\<lambda>C. C\<lparr>drainOnce := True\<rparr>) w in
        if phase (conns w1 c) \<noteq> phaseActive then w1
        else case enqueue P \<lparr>Opcode = OpcodeGoaway,
                    Payload = [VInt retryAfterMs, VInt reasonCode]\<rparr> True c w1 of
               (False, w2) \<Rightarrow> w2
             | (True, w2) \<Rightarrow>
                 updConn c (\<lambda>C. if phase C = phaseActive then C\<lparr>phase := phaseDraining\<rparr> else C) w2)"

text \<open>Lines 226-254: the verifier has answered. \<open>random\<close> is the epoch of a home that has to be
  created.\<close>

definition completeAuthentication ::
  "protocol \<Rightarrow> byte list option \<Rightarrow> request \<Rightarrow> authError + identity \<Rightarrow> nat \<Rightarrow> relay
     \<Rightarrow> relayError option \<times> relay" where
  "completeAuthentication P random q answer c w =
     (case answer of
        Inl e \<Rightarrow> (Some (authenticationFailure e), w)
      | Inr i \<Rightarrow>
          (case ValidateBinding q i (clock w) of
             Some e \<Rightarrow> (Some (authenticationFailure e), w)
           | None \<Rightarrow>
               if req_Role q = RoleCoordinator \<and> ID i \<noteq> HomeID i
               then (Some (fatalError codeUnauthenticated False
                       ''coordinator identity is invalid'' closeAuth), w)
               else
                 let w1 = updConn c (\<lambda>C. C\<lparr>conn_identity := i\<rparr>) w in
                 (case acquire random (HomeID i) w1 of
                    (Inl errHomeCapacity, w2) \<Rightarrow>
                      (Some (fatalError codeLimitExceeded True
                         ''relay home capacity exceeded'' closeLimit), w2)
                  | (Inl _, w2) \<Rightarrow>
                      (Some (fatalError codeUnavailable True
                         ''relay is shutting down'' closeUnavailable), w2)
                  | (Inr h, w2) \<Rightarrow>
                      (case attach P h c
                          (updConn c (\<lambda>C. C\<lparr>conn_home := Some h, phase := phaseActive\<rparr>) w2) of
                         (Some e, w3) \<Rightarrow> (Some e, w3)
                       | (None, w3) \<Rightarrow>
                           (None, if draining w3
                                  then startDraining P (drainRetryAfterMs w3) (drainReasonCode w3) c w3
                                  else w3)))))"

section \<open>Reauthentication\<close>

definition reauthRequest :: "connection \<Rightarrow> string \<Rightarrow> request" where
  "reauthRequest C token =
     \<lparr>req_Role = roleOf C, Token = token, req_HomeID = HomeID (conn_identity C),
      req_CoordinatorName = nameOf C\<rparr>"

text \<open>Lines 303-313: what the second step needs, or the error.\<close>

definition beginReauth ::
  "nat \<Rightarrow> frame \<Rightarrow> relay \<Rightarrow> (relayError + int \<times> request \<times> int option) option" where
  "beginReauth c f w =
     (case (firstInteger f, Option.bind (payload_at (Payload f) 1) stringValue) of
        (Some requestID, Some token) \<Rightarrow>
          (case currentLeaseDeadline c w of (previous, expired) \<Rightarrow>
             if expired \<or> \<not> deadlineAfter previous (clock w) then Some (Inl tokenExpired)
             else Some (Inr (requestID, reauthRequest (conns w c) token, previous)))
      | _ \<Rightarrow> None)"

text \<open>Lines 320-345.\<close>

definition completeReauth ::
  "protocol \<Rightarrow> int \<Rightarrow> request \<Rightarrow> int option \<Rightarrow> authError + identity \<Rightarrow> nat \<Rightarrow> relay
     \<Rightarrow> outcome \<times> relay" where
  "completeReauth P requestID q previous answer c w =
     (case answer of
        Inl e \<Rightarrow>
          (case currentLeaseDeadline c w of (current, expired) \<Rightarrow>
             if expired \<or> \<not> deadlineAfter current (clock w) then (Failed tokenExpired, w)
             else (Failed (authenticationFailure e), w))
      | Inr i \<Rightarrow>
          (case ValidateBinding q i (clock w) of
             Some e \<Rightarrow> (Failed (authenticationFailure e), w)
           | None \<Rightarrow>
               let C = conn_identity (conns w c) in
               if ID i \<noteq> ID C \<or> ClientID i \<noteq> ClientID C \<or> VerifiedEmail i \<noteq> VerifiedEmail C
               then (Failed (fatalError codeUnauthenticated False
                       ''reauthentication changed the connection principal'' closeAuth), w)
               else (case replaceLease previous (ExpiresAt i) c w of
                  (False, w1) \<Rightarrow> (Failed tokenExpired, w1)
                | (True, w1) \<Rightarrow>
                    orSlow (enqueue P \<lparr>Opcode = OpcodeReauthOK,
                      Payload = [VInt requestID, VInt (UnixMilli (ExpiresAt i))]\<rparr> True c w1))))"

section \<open>The gate\<close>

text \<open>\<open>home.handle\<close> (lines 331-354 of \<open>home.go\<close>).\<close>

definition handleHome ::
  "protocol \<Rightarrow> int \<Rightarrow> nat \<Rightarrow> nat \<Rightarrow> frame \<Rightarrow> relay \<Rightarrow> outcome \<times> relay" where
  "handleHome P received h c f w =
     (let op = Opcode f in
      if op \<in> {OpcodeStateSync, OpcodeStateACLSync, OpcodeEventSync, OpcodeEventACLSync,
               OpcodeFunctionSync}
      then handleDeclaration P h c f w
      else if op \<in> {OpcodeStateSet, OpcodeStateResync} then handleState P h c f w
      else if op \<in> {OpcodeSubscribe, OpcodeUnsubscribe, OpcodeEvent} then handleEvent P h c f w
      else if op \<in> {OpcodeCall, OpcodeCallResult, OpcodeCallError, OpcodeCallCancel,
                    OpcodeCallCredit}
      then handleCall P received h c f w
      else (Failed (applicationError codeUnexpectedFrame False
              ''frame is not implemented by this relay'' closeProtocol), w))"

text \<open>Lines 279-295.\<close>

definition frameGate :: "protocol \<Rightarrow> nat \<Rightarrow> frame \<Rightarrow> relay \<Rightarrow> relayError option" where
  "frameGate P c f w =
     (let C = conns w c; op = Opcode f in
      if phase C = phaseClosed
      then Some (fatalError codeUnavailable True ''connection is closing'' closeUnavailable)
      else if authLeaseExpired w c then Some tokenExpired
      else if phase C = phaseDraining \<and> op \<noteq> OpcodeCallResult \<and> op \<noteq> OpcodeCallError
      then Some (applicationError codeUnexpectedFrame False
             ''new requests are forbidden while draining'' closeProtocol)
      else if op = OpcodeHello \<or> op = OpcodeWelcome
      then Some (fatalError codeUnexpectedFrame False
             ''frame is not valid in the active session'' closeProtocol)
      else if \<not> incomingAllowed P (roleOf C) op
      then Some (applicationError codeWrongDirection False
             ''frame is not valid for this role'' closeAuthorization)
      else None)"

text \<open>\<open>handle\<close>; \<open>verify\<close> is the verifier, for a reauthentication that nothing interleaves with.\<close>

definition handle ::
  "protocol \<Rightarrow> (request \<Rightarrow> authError + identity) \<Rightarrow> int \<Rightarrow> nat \<Rightarrow> frame \<Rightarrow> relay \<Rightarrow> outcome \<times> relay"
where
  "handle P verify received c f w =
     (case frameGate P c f w of Some e \<Rightarrow> (Failed e, w) | None \<Rightarrow>
        if Opcode f = OpcodeReauth
        then (case beginReauth c f w of
                None \<Rightarrow> (Panicked, w)
              | Some (Inl e) \<Rightarrow> (Failed e, w)
              | Some (Inr (requestID, q, previous)) \<Rightarrow>
                  completeReauth P requestID q previous (verify q) c w)
        else (case conn_home (conns w c) of
                None \<Rightarrow> (Panicked, w)
              | Some h \<Rightarrow> handleHome P received h c f w))"

section \<open>The read loop\<close>

definition internalFailure :: relayError where
  "internalFailure = fatalError codeInternal True ''internal relay failure'' closeInternal"

text \<open>Lines 184-199: what follows a handled frame. The result says whether the loop reads on.\<close>

definition answer ::
  "protocol \<Rightarrow> int option \<Rightarrow> nat \<Rightarrow> frame \<Rightarrow> outcome \<times> relay \<Rightarrow> bool \<times> relay" where
  "answer P claimed c f result =
     (case result of
        (Handled, w) \<Rightarrow> (True, w)
      | (Panicked, w) \<Rightarrow> (False, fail P 0 internalFailure c w)
      | (Failed e, w) \<Rightarrow>
          (case frameCorrelation f of
             None \<Rightarrow> (False, fail P 0 internalFailure c w)
           | Some correlation \<Rightarrow>
               if fatal e then (False, fail P (opcodeByte P (Opcode f)) e c w)
               else
                 let response = errorFrame correlation (opcodeByte P (Opcode f)) e in
                 (case claimed of
                    Some requestID \<Rightarrow> enqueueRequestTerminal P response requestID True c w
                  | None \<Rightarrow> enqueue P response True c w)))"

text \<open>Lines 170-200: one decoded frame of an authenticated session.\<close>

definition frameStep ::
  "protocol \<Rightarrow> (request \<Rightarrow> authError + identity) \<Rightarrow> int \<Rightarrow> nat \<Rightarrow> frame \<Rightarrow> relay \<Rightarrow> bool \<times> relay"
where
  "frameStep P verify received c f w =
     (if opcodeByte P (Opcode f) \<ge> 128 then (True, w)
      else if requestIdentifier f
      then (case firstInteger f of
              None \<Rightarrow> (False, fail P 0 internalFailure c w)
            | Some requestID \<Rightarrow>
                (case beginRequest requestID c w of
                   (Some e, w1) \<Rightarrow>
                     enqueue P (errorFrame requestID (opcodeByte P (Opcode f)) e) True c w1
                 | (None, w1) \<Rightarrow>
                     answer P (Some requestID) c f (handle P verify received c f w1)))
      else answer P None c f (handle P verify received c f w))"

text \<open>What the socket delivers: a text message, bytes that do not decode, a frame, or its end.\<close>

datatype inbound = TextMessage | Undecodable protocolError | Decoded frame | SocketEnd

definition readStep ::
  "protocol \<Rightarrow> (request \<Rightarrow> authError + identity) \<Rightarrow> int \<Rightarrow> nat \<Rightarrow> inbound \<Rightarrow> relay \<Rightarrow> bool \<times> relay"
where
  "readStep P verify received c m w =
     (if cancelled (conns w c) then (False, w)
      else case m of
        SocketEnd \<Rightarrow> (False, w)
      | TextMessage \<Rightarrow>
          (False, fail P 0 (fatalError codeMalformedFrame False
             ''text messages are forbidden'' closeProtocol) c w)
      | Undecodable e \<Rightarrow> (False, fail P 0 (protocolFailure e) c w)
      | Decoded f \<Rightarrow> frameStep P verify received c f w)"

text \<open>Lines 128-151: the first message, with an authentication that nothing interleaves with.\<close>

definition helloStep ::
  "protocol \<Rightarrow> (request \<Rightarrow> authError + identity) \<Rightarrow> byte list option \<Rightarrow> nat \<Rightarrow> inbound \<Rightarrow> relay
     \<Rightarrow> bool \<times> relay" where
  "helloStep P verify random c m w =
     (case m of
        SocketEnd \<Rightarrow> (False, stop closeTimeout ''hello_timeout'' c w)
      | TextMessage \<Rightarrow>
          (False, fail P 0 (fatalError codeMalformedFrame False
             ''binary HELLO required'' closeProtocol) c w)
      | Undecodable e \<Rightarrow> (False, fail P 0 (protocolFailure e) c w)
      | Decoded f \<Rightarrow>
          if Opcode f \<noteq> OpcodeHello
          then (False, fail P (opcodeByte P (Opcode f)) (fatalError codeUnexpectedFrame False
                  ''HELLO must be the first frame'' closeProtocol) c w)
          else (case helloRequest f of
                  None \<Rightarrow> (False, fail P 0 internalFailure c w)
                | Some (Inl e) \<Rightarrow> (False, fail P (opcodeByte P OpcodeHello) e c w)
                | Some (Inr q) \<Rightarrow>
                    (case completeAuthentication P random q (verify q) c w of
                       (Some e, w1) \<Rightarrow> (False, fail P (opcodeByte P OpcodeHello) e c w1)
                     | (None, w1) \<Rightarrow> (True, w1))))"

text \<open>Lines 113-119: the end of the read loop.\<close>

definition endRun :: "protocol \<Rightarrow> nat \<Rightarrow> relay \<Rightarrow> relay" where
  "endRun P c w =
     (let w1 = detach P c w in
      if closeQueued (conns w1 c) then w1 else stop StatusNormalClosure ''closed'' c w1)"

text \<open>Lines 120-124: the writer has not finished in time.\<close>

definition writeTimeout :: "nat \<Rightarrow> relay \<Rightarrow> relay" where
  "writeTimeout c w = stop closeInternal ''write_timeout'' c w"

text \<open>A ping that is not answered (lines 610-615).\<close>

definition pingTimeout :: "nat \<Rightarrow> relay \<Rightarrow> relay" where
  "pingTimeout c w = stop closeTimeout ''liveness_timeout'' c w"

end
