(* ===== verification/Server.thy ===== *)
theory Server
  imports Session
begin

text \<open>
  The process (\<open>internal/relay/server.go\<close>): construction, the HTTP surface, session identifiers,
  the set of live connections, draining and closing.
\<close>

section \<open>Construction\<close>

definition newRelay :: "config \<Rightarrow> int \<Rightarrow> relay" where
  "newRelay configuration seed = \<lparr>
     cfg = configuration, admission = newAdmissionController, clock = 0,
     conns = (\<lambda>_. newConnection 0), nconns = 0,
     routes = (\<lambda>_. \<lparr>caller = 0, callee = 0, callerID = 0, calleeID = 0, credit = 0,
                    accepted = False, terminal = True, deadline = 0, route_timer = False\<rparr>),
     nroutes = 0, homes = (\<lambda>_. newHome [] []), nhomes = 0, nstages = 0,
     registry = [], registryClosed = False, closed = False, draining = False, live = [],
     drainRetryAfterMs = 0, drainReasonCode = 0, nextSession = seed, upgrades = [], serving = [] \<rparr>"

text \<open>\<open>New\<close>: \<open>hasVerifier\<close> says that the verifier is not nil, \<open>seed\<close> is \<open>randomSessionSeed()\<close>.\<close>

definition New ::
  "protocol \<Rightarrow> (string \<Rightarrow> url option) \<Rightarrow> config \<Rightarrow> bool \<Rightarrow> int \<Rightarrow> relay option"
where
  "New P url_parse configuration hasVerifier seed =
     (if Validate P url_parse configuration \<noteq> None \<or> \<not> hasVerifier then None
      else Some (newRelay configuration seed))"

text \<open>\<open>raw\<close> is the 64-bit word read from the random source, \<open>None\<close> where it fails; the mask is
  \<open>math.MaxInt64 >> 11\<close>.\<close>

definition randomSessionSeed :: "64 word option \<Rightarrow> int" where
  "randomSessionSeed raw =
     (case raw of None \<Rightarrow> 1
      | Some x \<Rightarrow> sint (and x (word_of_int ((2 ^ 63 - 1) div 2 ^ 11))))"

text \<open>\<open>CompareAndSwap\<close> succeeds when no other goroutine allocates in between; two rounds are
  enough (\<open>allocateSessionID_range\<close>).\<close>

fun sessionLoop :: "nat \<Rightarrow> int \<Rightarrow> int option \<times> int" where
  "sessionLoop 0 s = (None, s)"
| "sessionLoop (Suc fuel) s =
     (let next = wrap64 (s + 1) in
      if next > 0 \<and> next \<le> max_safe_integer then (Some next, next) else sessionLoop fuel 1)"

definition allocateSessionID :: "relay \<Rightarrow> int option \<times> relay" where
  "allocateSessionID w =
     (case sessionLoop 2 (nextSession w) of (i, s) \<Rightarrow> (i, w\<lparr>nextSession := s\<rparr>))"

section \<open>Live connections\<close>

text \<open>\<open>server.closed\<close> also means that the server's context is cancelled, and with it the context
  of every connection made from it.\<close>

definition makeConnection :: "int \<Rightarrow> relay \<Rightarrow> nat \<times> relay" where
  "makeConnection session w =
     (let c = nconns w in
      (c, w\<lparr>conns := (conns w)(c := (newConnection session)\<lparr>cancelled := closed w\<rparr>),
            nconns := c + 1\<rparr>))"

definition trackConnection :: "nat \<Rightarrow> relay \<Rightarrow> bool \<times> relay" where
  "trackConnection c w = (if closed w then (False, w) else (True, w\<lparr>live := sadd c (live w)\<rparr>))"

definition forgetConnection :: "nat \<Rightarrow> relay \<Rightarrow> relay" where
  "forgetConnection c w = w\<lparr>live := removeAll c (live w)\<rparr>"

section \<open>Drain and close\<close>

fun drainAll :: "protocol \<Rightarrow> int \<Rightarrow> int \<Rightarrow> nat list \<Rightarrow> relay \<Rightarrow> relay" where
  "drainAll P retryAfterMs reasonCode [] w = w"
| "drainAll P retryAfterMs reasonCode (c # cs) w =
     drainAll P retryAfterMs reasonCode cs (startDraining P retryAfterMs reasonCode c w)"

definition Drain :: "protocol \<Rightarrow> int \<Rightarrow> int \<Rightarrow> relay \<Rightarrow> relay" where
  "Drain P retryAfterMs reasonCode w =
     (if closed w \<or> draining w then w
      else drainAll P retryAfterMs reasonCode (live w)
        (w\<lparr>draining := True, drainRetryAfterMs := retryAfterMs, drainReasonCode := reasonCode\<rparr>))"

text \<open>Lines 102-117: the end of the drain window.\<close>

definition drainWindowEnds :: "relay \<Rightarrow> relay" where
  "drainWindowEnds w =
     (if closed w then w else stopAll StatusServiceRestart ''draining'' (live w) w)"

definition Close :: "relay \<Rightarrow> relay" where
  "Close w =
     (if closed w then w
      else closeRegistry (w\<lparr>closed := True, conns := (\<lambda>c. (conns w c)\<lparr>cancelled := True\<rparr>)\<rparr>))"

section \<open>HTTP\<close>

definition websocketSubprotocol :: string where "websocketSubprotocol = ''miakapp''"

definition originAllowed :: "config \<Rightarrow> string list \<Rightarrow> bool" where
  "originAllowed configuration origins =
     (case origins of
        [] \<Rightarrow> True
      | [origin] \<Rightarrow>
          \<not> (origin = [] \<or> CHR '','' \<in> set origin) \<and> origin \<in> set (AllowedOrigins configuration)
      | _ \<Rightarrow> False)"

definition hasSubprotocol :: "string list \<Rightarrow> string \<Rightarrow> bool" where
  "hasSubprotocol headers expectedName =
     list_ex (\<lambda>header. list_ex (\<lambda>candidate. TrimSpace candidate = expectedName)
       (splitOn CHR '','' header)) headers"

text \<open>A request as the handlers read it, and a reply: its status, the headers the source sets
  itself, in order, and the text it writes (\<open>http.Error\<close> adds headers of its own and ends the
  text with a newline).\<close>

record httpRequest =
  url_path :: string
  http_method :: string
  RemoteAddr :: string
  Origins :: "string list"
  Protocols :: "string list"

record httpReply =
  http_status :: int
  headers :: "(string \<times> string) list"
  body :: string

definition http_Error :: "int \<Rightarrow> (string \<times> string) list \<Rightarrow> string \<Rightarrow> httpReply" where
  "http_Error code hs msg = \<lparr>http_status = code, headers = hs, body = msg\<rparr>"

text \<open>\<open>serveWebSocket\<close> before the upgrade: a refusal, or the source address whose admission the
  session holds. Admission is taken first and given back on every refusal.\<close>

definition securityHeaders :: "(string \<times> string) list" where
  "securityHeaders =
     [(''Cache-Control'', ''no-store''), (''X-Content-Type-Options'', ''nosniff'')]"

definition serveWebSocket ::
  "netlib \<Rightarrow> httpRequest \<Rightarrow> relay \<Rightarrow> (httpReply + addr) \<times> relay" where
  "serveWebSocket N q w =
     (case acquireConnection (cfg w) N (clock w) (RemoteAddr q) (admission w) of
        (Inl e, A) \<Rightarrow>
          (Inl (case e of
             errInvalidSourceAddress \<Rightarrow>
               http_Error 400 securityHeaders ''invalid connection source''
           | errConnectionRate \<Rightarrow>
               http_Error 429 (securityHeaders @ [(''Retry-After'', ''60'')])
                 ''connection rate exceeded''
           | errConnectionCapacity \<Rightarrow>
               http_Error 503 (securityHeaders @ [(''Retry-After'', ''1'')])
                 ''relay capacity unavailable''), w\<lparr>admission := A\<rparr>)
      | (Inr source, A) \<Rightarrow>
          let token = \<lparr>token_source = source, token_once = False\<rparr>;
              refused = w\<lparr>admission := snd (release (clock w) (token, A))\<rparr> in
          if http_method q \<noteq> ''GET''
          then (Inl (http_Error 405 (securityHeaders @ [(''Allow'', ''GET'')])
                  ''method not allowed''), refused)
          else if \<not> originAllowed (cfg w) (Origins q)
          then (Inl (http_Error 403 securityHeaders ''origin not allowed''), refused)
          else if \<not> hasSubprotocol (Protocols q) websocketSubprotocol
          then (Inl (http_Error 400 securityHeaders
                  ''miakapp WebSocket subprotocol required''), refused)
          else (Inr source, w\<lparr>admission := A, upgrades := token # upgrades w\<rparr>))"

text \<open>A request whose upgrade fails (lines 215-226) returns, and its deferred release runs.\<close>

definition abandonUpgrade :: "connectionAdmission \<Rightarrow> relay \<Rightarrow> relay" where
  "abandonUpgrade token w =
     w\<lparr>upgrades := remove1 token (upgrades w),
       admission := snd (release (clock w) (token, admission w))\<rparr>"

text \<open>After the upgrade (lines 229-233): the connection is created and tracked, and the request runs it
  with the token it holds. \<open>None\<close>: the server is closed, or there is no identifier; then the request
  returns.\<close>

definition openSession :: "connectionAdmission \<Rightarrow> relay \<Rightarrow> nat option \<times> relay" where
  "openSession token w =
     (case allocateSessionID w of
        (None, w1) \<Rightarrow> (None, abandonUpgrade token w1)
      | (Some session, w1) \<Rightarrow>
          (case makeConnection session w1 of (c, w2) \<Rightarrow>
             (case trackConnection c w2 of
                (True, w3) \<Rightarrow>
                  (Some c, w3\<lparr>upgrades := remove1 token (upgrades w3),
                              serving := put c token (serving w3)\<rparr>)
              | (False, w3) \<Rightarrow> (None, abandonUpgrade token w3))))"

text \<open>The deferred calls of \<open>serveWebSocket\<close> when the session is over (lines 196, 234).\<close>

definition closeSession :: "nat \<Rightarrow> relay \<Rightarrow> relay" where
  "closeSession c w =
     (case get (serving w) c of
        None \<Rightarrow> w
      | Some token \<Rightarrow>
          let w1 = forgetConnection c w in
          w1\<lparr>serving := del c (serving w1),
             admission := snd (release (clock w1) (token, admission w1))\<rparr>)"

definition ping :: "httpRequest \<Rightarrow> httpReply" where
  "ping q =
     (if http_method q \<noteq> ''GET'' \<and> http_method q \<noteq> ''HEAD''
      then http_Error 405 [(''Allow'', ''GET, HEAD'')] ''method not allowed''
      else \<lparr>http_status = 200,
            headers = [(''Content-Type'', ''text/plain; charset=utf-8''),
                       (''Cache-Control'', ''no-store'')],
            body = (if http_method q = ''GET'' then ''pong'' @ [CHR 0x0A] else [])\<rparr>)"

definition ServeHTTP :: "netlib \<Rightarrow> httpRequest \<Rightarrow> relay \<Rightarrow> (httpReply + addr) \<times> relay" where
  "ServeHTTP N q w =
     (if url_path q = ''/ping'' then (Inl (ping q), w)
      else if url_path q = ''/ws'' then serveWebSocket N q w
      else (Inl (http_Error 404 [] ''404 page not found''), w))"

end
