(* ===== verification/Contracts.thy ===== *)
theory Contracts
  imports Server
begin

text \<open>
  Every handler keeps what the primitive operations keep. \<open>session_contract\<close> (see
  \<open>Outbound_Inv\<close>) covers the handlers that do not touch calls; \<open>call_contract\<close> adds the
  operations on routes, and with them every frame a session can send and every timer;
  \<open>system_contract\<close> adds the operations of the process, and with them every step of the relay.
\<close>

lemma book_only_simps [simp]:
  "book_only C (C\<lparr>stage := st\<rparr>)" "book_only C (C\<lparr>subscriptions := xs\<rparr>)"
  "book_only C (C\<lparr>lastStateRevision := n\<rparr>)" "book_only C (C\<lparr>requestIDs := sadd r (requestIDs C)\<rparr>)"
  "book_only C (C\<lparr>eventIDs := xs\<rparr>)" "book_only C (C\<lparr>generation := n\<rparr>)"
  "book_only C (C\<lparr>conn_identity := i\<rparr>)" "book_only C (C\<lparr>detachOnce := b\<rparr>)"
  "book_only C (C\<lparr>drainOnce := True\<rparr>)" "book_only C (C\<lparr>bootstrapped := b\<rparr>)"
  "book_only C (C\<lparr>leaseExpired := b\<rparr>)" "book_only C C"
  by (auto simp: book_only_def same_queue_def)

context session_contract
begin

lemma I_updHome: "I w \<Longrightarrow> I (updHome h g w)"
  by (erule I_shared) simp_all

lemma I_setStage: "I w \<Longrightarrow> I (setStage st c w)"
  unfolding setStage_def by (erule I_book) simp

lemma I_prune: "I w \<Longrightarrow> I (pruneUsers H us w)"
proof (induction us arbitrary: w)
  case (Cons p us)
  have "I (updConn (snd p) (\<lambda>C. C\<lparr>subscriptions :=
      filter (keepSubscription H (userOf C)) (subscriptions C)\<rparr>) w)"
    using Cons.prems by (rule I_book) simp
  then show ?case by (simp add: Cons.IH)
qed simp

lemma I_pruneSubscriptions: "I w \<Longrightarrow> I (pruneSubscriptionsLocked h w)"
  by (simp add: pruneSubscriptionsLocked_def I_prune)

lemma I_userViewLoop: "I w \<Longrightarrow> I (snd (userViewLoop H prev caps us w))"
proof (induction us arbitrary: w)
  case (Cons p us)
  obtain s c where p: "p = (s, c)" by (cases p)
  have "I (updConn c (\<lambda>C. C\<lparr>lastStateRevision := revision H\<rparr>) w)" using Cons.prems by (rule I_book) simp
  then show ?case using Cons by (simp add: p Let_def split_beta)
qed simp

lemma I_userViewActions: "I w \<Longrightarrow> I (snd (userViewActionsLocked h prev caps w))"
  by (simp add: userViewActionsLocked_def I_userViewLoop)

lemma I_userViewActions': "userViewActionsLocked h prev caps w = (as, w') \<Longrightarrow> I w \<Longrightarrow> I w'"
  by (metis I_userViewActions snd_conv)

lemma I_activate: "I w \<Longrightarrow> I (snd (activateLocked P h c r st w))"
  by (auto simp: activateLocked_def Let_def split: option.splits prod.splits bool.splits
      intro!: I_setStage I_dispatch I_pruneSubscriptions I_updHome elim!: I_enqueue' I_userViewActions')

lemma I_ack: "I w \<Longrightarrow> I (snd (ackDeclarationLocked P op r p c w))"
  by (auto simp: ackDeclarationLocked_def split: prod.splits bool.splits elim: I_enqueue')

lemma I_handleStateSync: "I w \<Longrightarrow> I (snd (handleStateSync P h c r f w))"
proof -
  assume "I w"
  let ?w = "updConn c (\<lambda>C. C\<lparr>stage := map_option (\<lambda>st. st\<lparr>stage_timer := False\<rparr>) (stage C)\<rparr>) w"
  have w: "I ?w" using \<open>I w\<close> by (rule I_book) simp
  have h: "I (updHome h g ?w)" for g using w by (rule I_updHome)
  have s: "I (setStage st c ((updHome h g ?w)\<lparr>nstages := n\<rparr>))" for st g n
    by (intro I_setStage I_shared [OF h [of g]]) simp_all
  show ?thesis
    using w h by (auto simp: handleStateSync_def Let_def split: option.splits prod.splits bool.splits
      intro: I_setStage I_enqueue' [OF _ s])
qed

lemma I_handleEventSync: "I w \<Longrightarrow> I (snd (handleEventSync P h c r st f w))"
  by (auto simp: handleEventSync_def Let_def split: option.splits prod.splits bool.splits
      intro!: I_setStage I_updHome elim!: I_enqueue')

lemma I_handleFunctionSync: "I w \<Longrightarrow> I (snd (handleFunctionSync P h c r st f w))"
  by (auto simp: handleFunctionSync_def Let_def split: option.splits prod.splits
      intro!: I_activate I_setStage I_updHome)

lemma I_declaration: "I w \<Longrightarrow> I (snd (handleDeclaration P h c f w))"
  by (simp add: handleDeclaration_def I_handleStateSync I_handleEventSync I_handleFunctionSync I_ack
      I_setStage split: option.splits)

lemma I_expireStage: "I w \<Longrightarrow> I (expireStage P ref c w)"
  by (simp add: expireStage_def I_enqueue I_setStage)

lemma I_setRevisions: "I w \<Longrightarrow> I (setRevisions rv as w)"
proof (induction as arbitrary: w)
  case (Cons a as)
  have "I (updConn (act_connection a) (\<lambda>C. C\<lparr>lastStateRevision := rv\<rparr>) w)"
    using Cons.prems by (rule I_book) simp
  then show ?case by (simp add: Cons.IH)
qed simp

lemma I_commitStateSet: "I w \<Longrightarrow> I (snd (commitStateSet P h c r ms paths cs w))"
  by (auto simp: commitStateSet_def Let_def split: option.splits prod.splits bool.splits
      intro!: I_dispatch I_setRevisions I_updHome elim!: I_enqueue')

lemma I_applyStateSet: "I w \<Longrightarrow> I (snd (applyStateSet P h c f w))"
  by (simp add: applyStateSet_def Let_def I_commitStateSet split: option.splits sum.splits)

lemma I_resync: "I w \<Longrightarrow> I (snd (resync P h c f w))"
proof -
  assume "I w"
  then have w: "I (updConn c (\<lambda>C. C\<lparr>lastStateRevision := r\<rparr>) w)" for r by (rule I_book) simp
  show ?thesis using \<open>I w\<close>
    by (auto simp: resync_def Let_def split: option.splits prod.splits bool.splits
        intro: I_terminal' [OF _ I_enqueue' [OF _ w]] I_enqueue' [OF _ w])
qed

lemma I_handleState: "I w \<Longrightarrow> I (snd (handleState P h c f w))"
  by (simp add: handleState_def I_resync I_applyStateSet)

lemma I_subs: "I w \<Longrightarrow> I (updConn c (\<lambda>C. C\<lparr>subscriptions := g C\<rparr>) w)"
  by (erule I_book) simp

lemma I_subscribe: "I w \<Longrightarrow> I (snd (subscribe P h c f w))"
  by (auto simp: subscribe_def Let_def split: option.splits sum.splits prod.splits bool.splits
      elim!: I_enqueue' intro!: I_subs)

lemma I_unsubscribe: "I w \<Longrightarrow> I (snd (unsubscribe P h c f w))"
  by (auto simp: unsubscribe_def Let_def split: option.splits sum.splits prod.splits bool.splits
      elim!: I_enqueue' intro!: I_subs)

lemma I_deliver: "I w \<Longrightarrow> I (snd (deliver P H t i f us w))"
  by (induction us arbitrary: w) (auto simp: split_beta I_enqueue)

lemma I_deliver': "deliver P H t i f us w = (ok, w') \<Longrightarrow> I w \<Longrightarrow> I w'"
  by (metis I_deliver snd_conv)

lemma I_routeCoordinatorEvent:
  "I w \<Longrightarrow> I (snd (routeCoordinatorEventLocked P h c fl t i k tg f w))"
  by (simp add: routeCoordinatorEventLocked_def Let_def split_beta I_enqueue I_deliver
      split: option.split bool.split)

lemma I_routeEvent: "I w \<Longrightarrow> I (snd (routeEventLocked P h c ow sl fl t i k tg f w))"
  by (auto simp: routeEventLocked_def Let_def I_routeCoordinatorEvent
      split: option.splits prod.splits bool.splits elim: I_enqueue')

lemma I_routeClaimed: "I w \<Longrightarrow> I (snd (routeClaimedEvent P h c e i k tg p w))"
  by (simp add: routeClaimedEvent_def Let_def I_routeEvent split: option.splits)

lemma I_publish: "I w \<Longrightarrow> I (snd (publishEvent P h c f w))"
proof -
  assume w: "I w"
  then have "I (updConn c (\<lambda>C. C\<lparr>eventIDs := sadd i (eventIDs C)\<rparr>) w)" for i by (rule I_book) simp
  with w show ?thesis
    by (auto simp: publishEvent_def claimEventID_def I_routeClaimed split: option.splits)
qed

lemma I_event: "I w \<Longrightarrow> I (snd (handleEvent P h c f w))"
  by (simp add: handleEvent_def I_subscribe I_unsubscribe I_publish)

lemma I_beginRequest: "I w \<Longrightarrow> I (snd (beginRequest r c w))"
  by (simp add: beginRequest_def I_book)

lemma I_stopAll: "I w \<Longrightarrow> I (stopAll st rs cs w)"
  by (induction cs arbitrary: w) (auto intro: I_stop)

lemma I_deleteIfUnused: "I w \<Longrightarrow> I (deleteIfUnused h w)"
  by (auto simp: deleteIfUnused_def Let_def intro: I_shared)

lemma I_closeHome: "I w \<Longrightarrow> I (closeHome h w)"
  by (simp add: closeHome_def Let_def I_deleteIfUnused I_stopAll I_updHome)

lemma I_closeHomes: "I w \<Longrightarrow> I (closeHomes hs w)"
  by (induction hs arbitrary: w) (auto intro: I_closeHome)

lemma I_closeRegistry: "I w \<Longrightarrow> I (closeRegistry w)"
  by (auto simp: closeRegistry_def intro!: I_closeHomes elim: I_shared)

lemma I_removeCoordinator: "I w \<Longrightarrow> I (snd (removeCoordinatorLocked h n w))"
  by (simp add: removeCoordinatorLocked_def Let_def I_userViewActions I_pruneSubscriptions
      I_updHome split: option.split)

lemma I_expireCoordinator: "I w \<Longrightarrow> I (expireCoordinator P h n g w)"
  by (simp add: expireCoordinator_def Let_def split_beta I_deleteIfUnused I_dispatch I_updHome
      I_removeCoordinator split: option.split)

lemma I_acquire: "I w \<Longrightarrow> I (snd (acquire rnd i w))"
  by (auto simp: acquire_def Let_def I_updHome split: option.split intro: I_shared)

lemma I_releaseHome: "I w \<Longrightarrow> I (releaseHome h w)"
  by (simp add: releaseHome_def I_deleteIfUnused I_updHome)

lemma I_install: "I w \<Longrightarrow> I (installLeaseLocked e c w)"
  unfolding installLeaseLocked_def by (erule I_book) (simp add: book_only_def same_queue_def)

lemma I_initialLease: "I w \<Longrightarrow> I (snd (activateInitialLease c w))"
  by (simp add: activateInitialLease_def Let_def I_book I_install)

lemma I_replaceLease: "I w \<Longrightarrow> I (snd (replaceLease d e c w))"
  by (simp add: replaceLease_def Let_def I_install)

lemma I_expireLease: "I w \<Longrightarrow> I (expireLease P g c w)"
  by (simp add: expireLease_def I_fail I_book)

lemma I_orSlow: "I (snd p) \<Longrightarrow> I (snd (orSlow p))"
  by (simp add: orSlow_def split_beta split: bool.split)

lemma I_completeReauth: "I w \<Longrightarrow> I (snd (completeReauth P r q d a c w))"
  by (simp add: completeReauth_def Let_def split_beta I_orSlow I_enqueue I_replaceLease
      split: sum.split option.split bool.split)

lemma I_enqueueAll: "I w \<Longrightarrow> I (snd (enqueueAll P fs c w))"
  by (induction fs arbitrary: w) (simp_all add: split_beta I_enqueue split: bool.split)

lemma I_bootstrap: "I w \<Longrightarrow> I (snd (bootstrap P h c e fs w))"
  by (simp add: bootstrap_def Let_def split_beta I_enqueue I_enqueueAll I_initialLease
      split: bool.split)

end

section \<open>Calls\<close>

locale call_contract = session_contract +
  assumes I_remove: "I w \<Longrightarrow> I (removeRouteLocked r w)"
    and I_route: "I w \<Longrightarrow> (\<And>R. (caller (g R), callee (g R), callerID (g R), calleeID (g R),
        terminal (g R), accepted (g R)) =
        (caller R, callee R, callerID R, calleeID R, terminal R, accepted R)) \<Longrightarrow>
      I (updRoute r g w)"
    and I_dispatchCall: "I w \<Longrightarrow> rq_id q \<notin> set (keys (calls (conns w c))) \<Longrightarrow>
      int (length (calls (conns w c))) < MaxInflightCalls P \<Longrightarrow>
      I (snd (dispatchCall P c d q until w))"
begin

lemma I_startCall: "I w \<Longrightarrow> I (snd (startCall P t h c f w))"
  by (simp add: startCall_def Let_def I_dispatchCall split: option.split sum.split)

lemma I_origin: "I (snd p) \<Longrightarrow> I (snd (originUnavailable p))"
  by (simp add: originUnavailable_def split_beta split: bool.split)

lemma I_forwardResult: "I w \<Longrightarrow> I (snd (forwardCallResult P h c f w))"
  by (simp add: forwardCallResult_def Let_def I_origin I_enqueue I_stream I_remove I_route
      split: option.split sum.split "value.split")

lemma I_forwardError: "I w \<Longrightarrow> I (snd (forwardCallError P h c f w))"
  by (simp add: forwardCallError_def Let_def I_origin I_enqueue I_remove
      split: option.split sum.split)

lemma I_cancelCall: "I w \<Longrightarrow> I (snd (cancelCall P h c f w))"
  by (simp add: cancelCall_def Let_def I_orSlow I_enqueue I_remove split: option.split)

lemma I_creditCall: "I w \<Longrightarrow> I (snd (creditCall P h c f w))"
  by (simp add: creditCall_def Let_def split_beta I_enqueue I_route split: option.split bool.split)

lemma I_call: "I w \<Longrightarrow> I (snd (handleCall P t h c f w))"
  by (simp add: handleCall_def I_startCall I_forwardResult I_forwardError I_cancelCall I_creditCall)

lemma I_expireCall: "I w \<Longrightarrow> I (expireCall P r w)"
  by (simp add: expireCall_def I_dispatch I_remove)

lemma I_terminateLoop: "I w \<Longrightarrow> I (snd (terminateLoop c ps w))"
  by (induction ps arbitrary: w) (simp_all add: Let_def split_beta I_remove)

lemma I_terminate: "I w \<Longrightarrow> I (snd (terminateCallsForConnectionLocked c w))"
  by (simp add: terminateCallsForConnectionLocked_def I_terminateLoop)

lemma I_attachUser: "I w \<Longrightarrow> I (snd (attachUser P h c w))"
  by (simp add: attachUser_def Let_def userBootstrapLocked_def I_updHome I_book split: option.split)

lemma I_attachCoordinator: "I w \<Longrightarrow> I (snd (attachCoordinator h c w))"
  by (simp add: attachCoordinator_def Let_def split_beta I_updHome I_book I_terminate
      split: option.split)

lemma I_register: "I w \<Longrightarrow> I (snd (registerSession P h c w))"
  by (simp add: registerSession_def Let_def I_attachUser I_attachCoordinator I_updHome)

lemma I_attach: "I w \<Longrightarrow> I (snd (attach P h c w))"
  by (simp add: attach_def Let_def split_beta I_register I_bootstrap I_dispatch I_fail
      split: option.split sum.split)

lemma I_detachHome: "I w \<Longrightarrow> I (detachHome P h c w)"
  by (simp add: detachHome_def Let_def split_beta I_dispatch I_terminate I_updHome I_setStage)

lemma I_detach: "I w \<Longrightarrow> I (detach P c w)"
  by (simp add: detach_def Let_def I_releaseHome I_detachHome I_book split: option.split)

lemma I_handleHome: "I w \<Longrightarrow> I (snd (handleHome P t h c f w))"
  by (simp add: handleHome_def Let_def I_declaration I_handleState I_event I_call)

lemma I_handle: "I w \<Longrightarrow> I (snd (handle P v t c f w))"
  by (simp add: handle_def I_completeReauth I_handleHome split: option.split sum.split prod.split)

lemma I_answer: "I (snd p) \<Longrightarrow> I (snd (answer P cl c f p))"
  by (simp add: answer_def Let_def split_beta I_fail I_enqueue I_terminal split: outcome.split option.split)

lemma I_frameStep: "I w \<Longrightarrow> I (snd (frameStep P v t c f w))"
  by (simp add: frameStep_def split_beta I_fail I_answer I_handle I_beginRequest I_enqueue
      split: option.split)

lemma I_readStep: "I w \<Longrightarrow> I (snd (readStep P v t c m w))"
  by (simp add: readStep_def I_fail I_frameStep split: inbound.split)

lemma I_endRun: "I w \<Longrightarrow> I (endRun P c w)"
  by (simp add: endRun_def Let_def I_stop I_detach)

end

sublocale relay_invariant \<subseteq> call_contract
proof unfold_locales
  show route: "I (updRoute r g w)" if "I w" for w r g
    using that by (rule I_local) simp_all
  show remove: "I (removeRouteLocked r w)" if "I w" for w r
    using that by (rule I_local) (simp_all add: removeRouteLocked_def Let_def)
  show "I (snd (dispatchCall P c d q until w))" if w: "I w" for w q c d until
  proof -
    have a: "I (snd (allocateCalleeCallIDLocked d w))"
      using w by (rule I_local)
        (simp_all add: allocateCalleeCallIDLocked_def Let_def split: option.split)
    have i: "I (insertRoute R v)" if "I v" for R v
      using that by (rule I_local) (simp_all add: insertRoute_def Let_def same_session_def same_queue_def)
    show ?thesis
      by (simp add: dispatchCall_def Let_def split_beta w a i route remove I_enqueue
          split: option.split bool.split)
  qed
qed

end
