(* ===== verification/Call_Inv.thy ===== *)
theory Call_Inv
  imports Contracts
begin

text \<open>
  The call table: routes and the maps of their two ends agree, every route in a map has been
  dispatched and not ended, and the maps stay bounded. \<open>call_table\<close> is kept by every handler
  (an interpretation of \<open>call_contract\<close>).
\<close>

section \<open>The invariant\<close>

definition route_at :: "callRoute \<Rightarrow> nat \<Rightarrow> int \<Rightarrow> bool" where
  "route_at R c i \<longleftrightarrow> caller R = c \<and> callerID R = i \<or> callee R = c \<and> calleeID R = i"

definition table_sound :: "relay \<Rightarrow> bool" where
  "table_sound w \<longleftrightarrow>
     (\<forall>c i r. get (calls (conns w c)) i = Some r \<longrightarrow>
        \<not> terminal (routes w r) \<and> route_at (routes w r) c i)"

definition table_complete :: "relay \<Rightarrow> bool" where
  "table_complete w \<longleftrightarrow>
     (\<forall>r. \<not> terminal (routes w r) \<longrightarrow> r < nroutes w \<and>
        (\<forall>c i. route_at (routes w r) c i \<longrightarrow> get (calls (conns w c)) i = Some r))"

definition table_bounded :: "protocol \<Rightarrow> relay \<Rightarrow> bool" where
  "table_bounded P w \<longleftrightarrow>
     (\<forall>c. wf_map (calls (conns w c)) \<and>
          int (length (calls (conns w c))) \<le> max 0 (MaxInflightCalls P + 1) \<and>
          0 \<le> nextCallID (conns w c) \<and> nextCallID (conns w c) \<le> max_safe_integer)"

definition all_accepted :: "relay \<Rightarrow> bool" where
  "all_accepted w \<longleftrightarrow> (\<forall>r. \<not> terminal (routes w r) \<longrightarrow> accepted (routes w r))"

definition table_ok :: "protocol \<Rightarrow> relay \<Rightarrow> bool" where
  "table_ok P w \<longleftrightarrow> table_sound w \<and> table_complete w \<and> table_bounded P w"

definition call_table :: "protocol \<Rightarrow> relay \<Rightarrow> bool" where
  "call_table P w \<longleftrightarrow> table_ok P w \<and> all_accepted w"

lemma table_ok_same:
  assumes "table_ok P w" "nroutes w' = nroutes w"
    and "\<And>c. calls (conns w' c) = calls (conns w c)"
    and "\<And>c. nextCallID (conns w' c) = nextCallID (conns w c)"
    and "\<And>r. terminal (routes w' r) = terminal (routes w r)"
    and "\<And>r c i. route_at (routes w' r) c i = route_at (routes w r) c i"
  shows "table_ok P w'"
  using assms(1) unfolding table_ok_def table_sound_def table_complete_def table_bounded_def
    assms(2-6) .

lemma call_table_same:
  assumes "call_table P w" "routes w' = routes w" "nroutes w' = nroutes w"
    and "\<And>c. calls (conns w' c) = calls (conns w c)"
    and "\<And>c. nextCallID (conns w' c) = nextCallID (conns w c)"
  shows "call_table P w'"
  using assms(1) table_ok_same [of P w w'] unfolding call_table_def all_accepted_def assms(2-5)
  by blast

lemma call_table_queues: "only_queues w w' \<Longrightarrow> call_table P w \<Longrightarrow> call_table P w'"
  by (erule call_table_same) (simp_all add: only_queues_world only_queues_conn)

lemma table_ok_queues: "only_queues w w' \<Longrightarrow> table_ok P w \<Longrightarrow> table_ok P w'"
  by (erule table_ok_same) (simp_all add: only_queues_world only_queues_conn)

lemma table_ok_soundD:
  "table_ok P w \<Longrightarrow> get (calls (conns w c)) i = Some r \<Longrightarrow>
   \<not> terminal (routes w r) \<and> route_at (routes w r) c i"
  unfolding table_ok_def table_sound_def by blast

lemma table_ok_completeD:
  assumes "table_ok P w" "\<not> terminal (routes w r)"
  shows "r < nroutes w" "route_at (routes w r) c i \<Longrightarrow> get (calls (conns w c)) i = Some r"
  using assms unfolding table_ok_def table_complete_def by blast+

lemma table_ok_boundedD:
  assumes "table_ok P w"
  shows "wf_map (calls (conns w c))"
    "int (length (calls (conns w c))) \<le> max 0 (MaxInflightCalls P + 1)"
    "0 \<le> nextCallID (conns w c)" "nextCallID (conns w c) \<le> max_safe_integer"
  using assms unfolding table_ok_def table_bounded_def by blast+

lemma call_table_ok: "call_table P w \<Longrightarrow> table_ok P w"
  by (simp add: call_table_def)

lemma call_table_acceptedD: "call_table P w \<Longrightarrow> \<not> terminal (routes w r) \<Longrightarrow> accepted (routes w r)"
  unfolding call_table_def all_accepted_def by blast

section \<open>Allocation\<close>

lemma nextCalleeID_range: "1 \<le> nextCalleeID i \<and> nextCalleeID i \<le> max_safe_integer"
  by (auto simp: nextCalleeID_def Let_def)

lemma nextCalleeID_mod:
  "1 \<le> i \<Longrightarrow> i \<le> max_safe_integer \<Longrightarrow> nextCalleeID i = i mod max_safe_integer + 1"
  by (cases "i = max_safe_integer") (simp_all add: nextCalleeID_def wrap64_id)

lemma nextCalleeID_iter:
  "1 \<le> i \<Longrightarrow> i \<le> max_safe_integer \<Longrightarrow>
   (nextCalleeID ^^ n) i = (i - 1 + int n) mod max_safe_integer + 1"
proof (induction n)
  case (Suc n)
  let ?j = "(i - 1 + int n) mod max_safe_integer + 1"
  have j: "1 \<le> ?j" "?j \<le> max_safe_integer"
    using pos_mod_bound [of max_safe_integer "i - 1 + int n"] by auto
  have "nextCalleeID ?j = ?j mod max_safe_integer + 1" using j by (rule nextCalleeID_mod)
  also have "\<dots> = (i - 1 + int (Suc n)) mod max_safe_integer + 1"
    by (simp add: mod_simps algebra_simps)
  finally show ?case using Suc by simp
qed simp

lemma allocateLoop_None:
  "allocateLoop n used i = None \<longleftrightarrow> (\<forall>k < n. (nextCalleeID ^^ Suc k) i \<in> set used)"
proof (induction n arbitrary: i)
  case (Suc n)
  have "(\<forall>k < Suc n. (nextCalleeID ^^ Suc k) i \<in> set used) \<longleftrightarrow>
      nextCalleeID i \<in> set used \<and> (\<forall>k < n. (nextCalleeID ^^ Suc k) (nextCalleeID i) \<in> set used)"
    by (simp add: All_less_Suc2 funpow_swap1)
  with Suc show ?case by (simp add: Let_def)
qed simp

lemma allocateLoop_Some:
  "allocateLoop n used i = Some j \<Longrightarrow> j \<notin> set used \<and> 1 \<le> j \<and> j \<le> max_safe_integer"
proof (induction n arbitrary: i)
  case (Suc n)
  then show ?case
    using nextCalleeID_range [of i] by (cases "nextCalleeID i \<in> set used") (auto simp: Let_def)
qed simp

text \<open>Fuel is enough: the identifiers a loop visits are distinct, so one of them is free.\<close>

lemma allocate_total:
  assumes "int (length used) < max_safe_integer"
  shows "allocateLoop (Suc (length used)) used i \<noteq> None"
proof
  let ?n = "Suc (length used)" and ?f = "\<lambda>k. (nextCalleeID ^^ Suc k) i"
  define i1 where "i1 = nextCalleeID i"
  have f: "?f k = (i1 - 1 + int k) mod max_safe_integer + 1" for k
    using nextCalleeID_iter [of i1 k] nextCalleeID_range [of i] by (simp add: i1_def funpow_swap1)
  assume "allocateLoop ?n used i = None"
  then have "?f ` {..<?n} \<subseteq> set used" by (auto simp only: allocateLoop_None lessThan_iff)
  moreover have "inj_on ?f {..<?n}"
  proof (rule inj_onI)
    fix a b assume ab: "a \<in> {..<?n}" "b \<in> {..<?n}" and eq: "?f a = ?f b"
    then have "(i1 - 1 + int a) mod max_safe_integer = (i1 - 1 + int b) mod max_safe_integer"
      by (simp only: f)
    then have "max_safe_integer dvd int a - int b"
      by (metis add_diff_cancel_left mod_eq_dvd_iff)
    moreover have "\<bar>int a - int b\<bar> < max_safe_integer" using ab assms by auto
    ultimately show "a = b" using dvd_imp_le_int [of "int a - int b" max_safe_integer] by force
  qed
  ultimately have "?n \<le> card (set used)"
    by (metis List.finite_set card_image card_lessThan card_mono)
  then show False using card_length [of used] by simp
qed


section \<open>Inserting and removing routes\<close>

lemma removeRoute_calls:
  "\<not> terminal (routes w r) \<Longrightarrow>
   calls (conns (removeRouteLocked r w) c) =
     (let R = routes w r; m = calls (conns w c);
          m1 = (if c = caller R then del (callerID R) m else m)
      in if c = callee R then del (calleeID R) m1 else m1)"
  by (simp add: removeRouteLocked_def Let_def)

lemma removeRoute_simps [simp]:
  "nroutes (removeRouteLocked r w) = nroutes w"
  "nextCallID (conns (removeRouteLocked r w) c) = nextCallID (conns w c)"
  "terminal (routes (removeRouteLocked r w) r)"
  "q \<noteq> r \<Longrightarrow> routes (removeRouteLocked r w) q = routes w q"
  by (auto simp: removeRouteLocked_def Let_def)

lemma length_del_le: "length (del k m) \<le> length m"
  by (induction m) auto

lemma length_del_del_le: "length (del k (del j m)) \<le> length m"
  by (rule le_trans [OF length_del_le length_del_le])

lemma removeRoute_table:
  assumes "table_ok P w" shows "table_ok P (removeRouteLocked r w)"
proof (cases "terminal (routes w r)")
  case False
  let ?w = "removeRouteLocked r w"
  have g: "get (calls (conns ?w c)) i = (if route_at (routes w r) c i then None
      else get (calls (conns w c)) i)" for c i
    using False by (auto simp: removeRoute_calls Let_def route_at_def)
  have ids: "q = r" if "\<not> terminal (routes w q)" "route_at (routes w q) c i"
      "route_at (routes w r) c i" for c i q
    using table_ok_completeD(2) [OF assms that(1,2)] table_ok_completeD(2) [OF assms False that(3)]
    by simp
  have r: "routes ?w = (routes w)(r := (routes w r)\<lparr>terminal := True, route_timer := False\<rparr>)"
    using False by (simp add: removeRouteLocked_def Let_def)
  have "table_sound ?w"
    unfolding table_sound_def
  proof (intro allI impI)
    fix c i q assume "get (calls (conns ?w c)) i = Some q"
    then have q: "\<not> route_at (routes w r) c i" "get (calls (conns w c)) i = Some q"
      by (simp_all add: g split: if_splits)
    with table_ok_soundD [OF assms q(2)]
    show "\<not> terminal (routes ?w q) \<and> route_at (routes ?w q) c i" by (auto simp: r)
  qed
  moreover have "table_complete ?w"
    unfolding table_complete_def
  proof (intro allI impI conjI)
    fix q assume "\<not> terminal (routes ?w q)"
    then have q: "\<not> terminal (routes w q)" "q \<noteq> r" by (simp_all add: r split: if_splits)
    note C = table_ok_completeD [OF assms q(1)]
    show "q < nroutes ?w" using C(1) by simp
    fix c i assume "route_at (routes ?w q) c i"
    then have at: "route_at (routes w q) c i" using q(2) by (simp add: r)
    have "\<not> route_at (routes w r) c i" using ids [OF q(1) at] q(2) by blast
    then show "get (calls (conns ?w c)) i = Some q" using C(2) [OF at] by (simp add: g)
  qed
  moreover have "table_bounded P ?w"
  proof -
    have "int (length (calls (conns ?w c))) \<le> int (length (calls (conns w c)))" for c
      by (simp add: removeRoute_calls [OF False] Let_def length_del_le length_del_del_le)
    moreover have "wf_map (calls (conns ?w c))" for c
      using table_ok_boundedD(1) [OF assms] by (simp add: removeRoute_calls [OF False] Let_def)
    ultimately show ?thesis
      unfolding table_bounded_def removeRoute_simps
      using table_ok_boundedD [OF assms] by (meson order_trans)
  qed
  ultimately show ?thesis by (simp add: table_ok_def)
qed (use assms in \<open>simp add: removeRouteLocked_def\<close>)


text \<open>\<open>insertRoute\<close> is used with identifiers that are free at both ends.\<close>

lemma insertRoute_simps [simp]:
  "nroutes (insertRoute R w) = Suc (nroutes w)"
  "routes (insertRoute R w) = (routes w)(nroutes w := R)"
  "nextCallID (conns (insertRoute R w) c) = nextCallID (conns w c)"
  by (auto simp: insertRoute_def Let_def)

lemma insertRoute_get:
  "get (calls (conns (insertRoute R w) c)) i =
     (if route_at R c i then Some (nroutes w) else get (calls (conns w c)) i)"
  by (auto simp: insertRoute_def Let_def route_at_def)

lemma length_put_le: "length (put k v m) \<le> Suc (length m)"
  by (simp add: length_put)

lemma insertRoute_length:
  "int (length (calls (conns (insertRoute R w) c))) \<le>
     int (length (calls (conns w c))) + (if c = caller R then 1 else 0) + (if c = callee R then 1 else 0)"
  by (auto simp: insertRoute_def Let_def length_put)

lemma insertRoute_wf: "wf_map (calls (conns w c)) \<Longrightarrow> wf_map (calls (conns (insertRoute R w) c))"
  by (auto simp: insertRoute_def Let_def)

lemma removeRoute_call_table:
  assumes "call_table P w" shows "call_table P (removeRouteLocked r w)"
proof -
  have "accepted (routes (removeRouteLocked r w) q)" if "\<not> terminal (routes (removeRouteLocked r w) q)" for q
    using that call_table_acceptedD [OF assms, of q] by (cases "q = r") simp_all
  then show ?thesis using removeRoute_table [OF call_table_ok [OF assms]]
    by (simp add: call_table_def all_accepted_def)
qed

lemma insertRoute_table:
  assumes "table_ok P w" "\<not> terminal R"
    and free: "get (calls (conns w (caller R))) (callerID R) = None"
      "get (calls (conns w (callee R))) (calleeID R) = None"
    and room: "int (length (calls (conns w (caller R)))) < MaxInflightCalls P"
      "int (length (calls (conns w (callee R)))) < MaxInflightCalls P"
  shows "table_ok P (insertRoute R w)"
proof -
  let ?w = "insertRoute R w" and ?r = "nroutes w"
  have fresh: "terminal (routes w q)" if "q \<ge> ?r" for q
    using table_ok_completeD(1) [OF assms(1)] that by force
  have none: "get (calls (conns w c)) i = None" if "route_at R c i" for c i
    using that free by (auto simp: route_at_def)
  have "table_sound ?w"
    unfolding table_sound_def
  proof (intro allI impI)
    fix c i q assume q: "get (calls (conns ?w c)) i = Some q"
    show "\<not> terminal (routes ?w q) \<and> route_at (routes ?w q) c i"
    proof (cases "route_at R c i")
      case True
      then show ?thesis using q assms(2) by (simp add: insertRoute_get)
    next
      case False
      then have "get (calls (conns w c)) i = Some q" using q by (simp add: insertRoute_get)
      note S = table_ok_soundD [OF assms(1) this]
      then have "q \<noteq> ?r" using fresh by blast
      then show ?thesis using S by simp
    qed
  qed
  moreover have "table_complete ?w"
    unfolding table_complete_def
  proof (intro allI impI conjI)
    fix q assume "\<not> terminal (routes ?w q)"
    then have q: "q = ?r \<or> q \<noteq> ?r \<and> \<not> terminal (routes w q)" by (auto split: if_splits)
    show "q < nroutes ?w" using q table_ok_completeD(1) [OF assms(1), of q] by auto
    fix c i assume at: "route_at (routes ?w q) c i"
    show "get (calls (conns ?w c)) i = Some q"
    proof (cases "q = ?r")
      case False
      then have "get (calls (conns w c)) i = Some q"
        using q at table_ok_completeD(2) [OF assms(1)] by simp
      moreover have "\<not> route_at R c i" using none calculation by force
      ultimately show ?thesis by (simp add: insertRoute_get)
    qed (use at in \<open>simp add: insertRoute_get\<close>)
  qed
  moreover have "table_bounded P ?w"
    unfolding table_bounded_def insertRoute_simps
  proof (intro allI conjI)
    fix c
    show "wf_map (calls (conns ?w c))"
      by (rule insertRoute_wf) (rule table_ok_boundedD(1) [OF assms(1)])
    show "int (length (calls (conns ?w c))) \<le> max 0 (MaxInflightCalls P + 1)"
      using insertRoute_length [of R w c] room table_ok_boundedD(2) [OF assms(1), of c]
      by (auto split: if_splits)
  qed (use table_ok_boundedD(3,4) [OF assms(1)] in auto)
  ultimately show ?thesis by (simp add: table_ok_def)
qed

section \<open>Preservation\<close>

lemma allocate_spec:
  "allocateCalleeCallIDLocked d w = (Some i, w') \<Longrightarrow>
   w' = updConn d (\<lambda>C. C\<lparr>nextCallID := i\<rparr>) w \<and> get (calls (conns w d)) i = None \<and>
   1 \<le> i \<and> i \<le> max_safe_integer"
  by (auto simp: allocateCalleeCallIDLocked_def Let_def get_None_keys split: option.splits
      dest!: allocateLoop_Some simp: image_iff simp del: allocateLoop.simps) force+

lemma allocate_None: "allocateCalleeCallIDLocked d w = (None, w') \<Longrightarrow> w' = w"
  by (auto simp: allocateCalleeCallIDLocked_def Let_def split: option.splits
      simp del: allocateLoop.simps)

lemma nextCallID_table:
  assumes "call_table P w" "1 \<le> i" "i \<le> max_safe_integer"
  shows "call_table P (updConn d (\<lambda>C. C\<lparr>nextCallID := i\<rparr>) w)"
proof -
  let ?w = "updConn d (\<lambda>C. C\<lparr>nextCallID := i\<rparr>) w"
  note ok = call_table_ok [OF assms(1)]
  have c: "calls (conns ?w c) = calls (conns w c)" for c by simp
  have r: "routes ?w = routes w" "nroutes ?w = nroutes w" by simp_all
  have "table_sound ?w"
    using ok unfolding table_ok_def table_sound_def c r by (rule conjunct1)
  moreover have "table_complete ?w"
    using ok unfolding table_ok_def table_complete_def c r by (elim conjE)
  moreover have "table_bounded P ?w"
    unfolding table_bounded_def c using table_ok_boundedD [OF ok] assms(2,3) by simp
  moreover have "all_accepted ?w"
    using assms(1) unfolding call_table_def all_accepted_def r by (rule conjunct2)
  ultimately show ?thesis by (simp add: call_table_def table_ok_def)
qed

lemma accept_table:
  assumes "table_ok P w" "\<And>q. q \<noteq> r \<Longrightarrow> \<not> terminal (routes w q) \<Longrightarrow> accepted (routes w q)"
  shows "call_table P (updRoute r (\<lambda>R. R\<lparr>accepted := True, route_timer := True\<rparr>) w)"
proof -
  have "table_ok P (updRoute r (\<lambda>R. R\<lparr>accepted := True, route_timer := True\<rparr>) w)"
    by (rule table_ok_same [OF assms(1)]) (auto simp: route_at_def)
  then show ?thesis using assms(2) by (auto simp: call_table_def all_accepted_def)
qed

text \<open>A dispatched call is in both maps and accepted, or in neither.\<close>

lemma dispatchCall_table:
  assumes "call_table P w" and free: "rq_id q \<notin> set (keys (calls (conns w c)))"
    and room: "int (length (calls (conns w c))) < MaxInflightCalls P"
  shows "call_table P (snd (dispatchCall P c d q until w))"
proof (cases "int (length (calls (conns w d))) \<ge> MaxInflightCalls P")
  case False
  note full = this
  show ?thesis
  proof (cases "allocateCalleeCallIDLocked d w")
    case (Pair j w1)
    show ?thesis
    proof (cases j)
      case None
      then show ?thesis using Pair full assms(1) allocate_None [of d w w1]
        by (simp add: dispatchCall_def)
    next
      case (Some i)
      note A = allocate_spec [of d w i w1]
      have w1: "w1 = updConn d (\<lambda>C. C\<lparr>nextCallID := i\<rparr>) w" and
        i: "get (calls (conns w d)) i = None" "1 \<le> i" "i \<le> max_safe_integer"
        using A Pair Some by auto
      have t1: "call_table P w1" unfolding w1 using assms(1) i(2,3) by (rule nextCallID_table)
      have same: "calls (conns w1 x) = calls (conns w x)" for x by (simp add: w1)
      define R where "R = \<lparr>caller = c, callee = d, callerID = rq_id q, calleeID = i,
          credit = rq_credit q, accepted = False, terminal = False, deadline = until,
          route_timer = False\<rparr>"
      define w2 where "w2 = insertRoute R w1"
      have t2: "table_ok P w2"
        unfolding w2_def
        by (rule insertRoute_table [OF call_table_ok [OF t1]])
          (use free i room full same in \<open>auto simp: R_def get_None_keys\<close>)
      have acc: "accepted (routes w2 x)" if "x \<noteq> nroutes w1" "\<not> terminal (routes w2 x)" for x
        using that call_table_acceptedD [OF t1, of x] by (simp add: w2_def)
      define f where "f = dispatchFrame (conns w1 c) q i (until - clock w1)"
      obtain ok w3 where 3: "enqueue P f False d w2 = (ok, w3)" by (meson surj_pair)
      have o3: "only_queues w2 w3" using only_queues_enqueue [of w2 P f False d] 3 by simp
      have t3: "table_ok P w3" using o3 t2 by (rule table_ok_queues)
      have acc3: "accepted (routes w3 x)" if "x \<noteq> nroutes w1" "\<not> terminal (routes w3 x)" for x
        using that acc by (simp add: only_queues_world [OF o3])
      have t4: "call_table P (removeRouteLocked (nroutes w1) w3)"
      proof -
        have "accepted (routes (removeRouteLocked (nroutes w1) w3) x)"
          if "\<not> terminal (routes (removeRouteLocked (nroutes w1) w3) x)" for x
          using that acc3 by (cases "x = nroutes w1") simp_all
        then show ?thesis using removeRoute_table [OF t3] by (simp add: call_table_def all_accepted_def)
      qed
      have t5: "call_table P (updRoute (nroutes w1) (\<lambda>R. R\<lparr>accepted := True, route_timer := True\<rparr>) w3)"
        by (rule accept_table [OF t3]) (rule acc3)
      have t6: "call_table P (snd (enqueue P g False c
          (updRoute (nroutes w1) (\<lambda>R. R\<lparr>accepted := True, route_timer := True\<rparr>) w3)))" for g
        by (rule call_table_queues [OF only_queues_enqueue t5])
      show ?thesis
        using full t1 t4 t6
        by (simp add: dispatchCall_def Pair Some Let_def 3 split_beta
            split: option.split bool.split flip: f_def R_def w2_def)
    qed
  qed
qed (use assms in \<open>simp add: dispatchCall_def\<close>)


text \<open>Every handler keeps the call table.\<close>

interpretation call_inv: call_contract P "call_table P" for P
proof unfold_locales
  show "call_table P (updConn c g w)"
    if "call_table P w" "\<And>C. book_only C (g C)" for w c and g :: "connection \<Rightarrow> connection"
    using that(1) by (rule call_table_same) (use that(2) in \<open>simp_all add: book_only_def\<close>)
  show "call_table P (updRoute r g w)"
    if "call_table P w" and g: "\<And>R. (caller (g R), callee (g R), callerID (g R), calleeID (g R),
        terminal (g R), accepted (g R)) =
        (caller R, callee R, callerID R, calleeID R, terminal R, accepted R)"
    for w r and g :: "callRoute \<Rightarrow> callRoute"
  proof -
    have "table_ok P (updRoute r g w)"
      by (rule table_ok_same [OF call_table_ok [OF that(1)]]) (use g in \<open>auto simp: route_at_def\<close>)
    moreover have "accepted (routes (updRoute r g w) q)" if "\<not> terminal (routes (updRoute r g w) q)" for q
      using that g [of "routes w r"] call_table_acceptedD [OF \<open>call_table P w\<close>, of q]
      by (cases "q = r") simp_all
    ultimately show ?thesis by (simp add: call_table_def all_accepted_def)
  qed
qed (blast intro: call_table_queues only_queues_fail only_queues_stop only_queues_enqueueMessage
    removeRoute_call_table dispatchCall_table | erule call_table_same; simp)+

end
