(* ===== verification/Ownership.thy ===== *)
theory Ownership
  imports Call_Inv
begin

text \<open>
  Ownership: every path, topic and function that has an owner is in the active configuration of
  that coordinator and of no other, and the home state is the union of what the active
  configurations hold. Every handler that changes ownership keeps this as long as the home is
  open.
\<close>

section \<open>Owner maps\<close>

definition owns_ok :: "(string \<times> string) list \<Rightarrow> (string \<Rightarrow> string set) \<Rightarrow> bool" where
  "owns_ok owners holds \<longleftrightarrow> (\<forall>p n. get owners p = Some n \<longleftrightarrow> p \<in> holds n)"

lemma fold_del_get: "get (fold del ks m) x = (if x \<in> set ks then None else get m x)"
  by (induction ks arbitrary: m) auto

lemma putAll_get:
  "wf_map kvs \<Longrightarrow> get (putAll kvs m) x = (case get kvs x of Some v \<Rightarrow> Some v | None \<Rightarrow> get m x)"
proof (induction kvs arbitrary: m)
  case (Cons p kvs)
  then have "get kvs (fst p) = None" by (simp add: get_None_keys)
  with Cons show ?case by (auto simp: putAll_def split: option.split)
qed (simp add: putAll_def)

lemma putAll_const:
  "get (putAll (map (\<lambda>k. (k, v)) ks) m) x = (if x \<in> set ks then Some v else get m x)"
  by (induction ks arbitrary: m) (auto simp: putAll_def)

lemma ownedElsewhere_iff:
  "ownedElsewhere owners name p \<longleftrightarrow> (\<exists>n. get owners p = Some n \<and> n \<noteq> [] \<and> n \<noteq> name)"
  by (auto simp: ownedElsewhere_def split: option.split)

lemma owns_claim:
  assumes "owns_ok owners holds" "holds [] = {}" "set old = holds name"
    and "\<forall>p \<in> set xs. \<not> ownedElsewhere owners name p"
  shows "owns_ok (putAll (map (\<lambda>k. (k, name)) xs) (fold del old owners)) (holds(name := set xs))"
  unfolding owns_ok_def
proof (intro allI)
  fix p n
  have o: "get owners p = Some m \<longleftrightarrow> p \<in> holds m" for m using assms(1) by (simp add: owns_ok_def)
  have e: "p \<in> set xs \<Longrightarrow> p \<in> holds m \<Longrightarrow> m = name" for m
    using assms(2,4) o [of m] by (cases "m = []") (auto simp: ownedElsewhere_iff)
  show "get (putAll (map (\<lambda>k. (k, name)) xs) (fold del old owners)) p = Some n \<longleftrightarrow>
      p \<in> (holds(name := set xs)) n"
    using o [of n] o [of name] e [of n] by (auto simp: putAll_const fold_del_get assms(3))
qed

lemma owns_release:
  assumes "owns_ok owners holds" "set old = holds name"
  shows "owns_ok (fold del old owners) (holds(name := {}))"
  unfolding owns_ok_def
proof (intro allI)
  fix p n
  have o: "get owners p = Some m \<longleftrightarrow> p \<in> holds m" for m using assms(1) by (simp add: owns_ok_def)
  show "get (fold del old owners) p = Some n \<longleftrightarrow> p \<in> (holds(name := {})) n"
    using o [of n] o [of name] by (auto simp: fold_del_get assms(2))
qed

section \<open>The invariant\<close>

definition held :: "(coordinatorConfig \<Rightarrow> string list) \<Rightarrow> home \<Rightarrow> string \<Rightarrow> string set" where
  "held part H n = (case slotActive H n of None \<Rightarrow> {} | Some cf \<Rightarrow> set (part cf))"

abbreviation topicsOf :: "coordinatorConfig \<Rightarrow> string list" where
  "topicsOf cf \<equiv> keys (cfg_events cf)"

definition state_ok :: "home \<Rightarrow> bool" where
  "state_ok H \<longleftrightarrow>
     (\<forall>p. get (state H) p = Option.bind (get (stateOwners H) p)
        (\<lambda>n. Option.bind (slotActive H n) (\<lambda>cf. get (cfg_state cf) p))) \<and>
     (\<forall>n cf. slotActive H n = Some cf \<longrightarrow> set (keys (cfg_state cf)) \<subseteq> set (ownedState cf))"

definition own_ok :: "home \<Rightarrow> bool" where
  "own_ok H \<longleftrightarrow>
     slotActive H [] = None \<and>
     owns_ok (stateOwners H) (held ownedState H) \<and>
     owns_ok (topicOwners H) (held topicsOf H) \<and>
     owns_ok (functionOwners H) (held cfg_functions H) \<and>
     state_ok H"

lemma own_ok_newHome: "own_ok (newHome e i)"
  by (simp add: own_ok_def owns_ok_def held_def state_ok_def newHome_def slotActive_def)

lemma own_ok_same:
  assumes "own_ok H" "\<And>n. slotActive H' n = slotActive H n"
    and "stateOwners H' = stateOwners H" "topicOwners H' = topicOwners H"
    and "functionOwners H' = functionOwners H" "state H' = state H"
  shows "own_ok H'"
  using assms(1) unfolding own_ok_def owns_ok_def held_def state_ok_def assms(2-6) .

text \<open>No path has two owners, and what is owned is what is declared.\<close>

lemma own_ok_unique:
  assumes "own_ok H" "slotActive H m = Some cf" "slotActive H n = Some cg"
    and "p \<in> set (ownedState cf)" "p \<in> set (ownedState cg)"
  shows "m = n"
proof -
  have "get (stateOwners H) p = Some m" "get (stateOwners H) p = Some n"
    using assms by (auto simp: own_ok_def owns_ok_def held_def)
  then show ?thesis by simp
qed

section \<open>Activation\<close>

lemma slotActive_updSlot:
  "slotActive (updSlot n g H) m =
     (if m = n then Option.bind (get (coordinators H) n) (\<lambda>s. active (g s)) else slotActive H m)"
  by (cases "get (coordinators H) n") (simp_all add: slotActive_def updSlot_get)

lemma slotActive_cong: "coordinators H' = coordinators H \<Longrightarrow> slotActive H' n = slotActive H n"
  by (simp add: slotActive_def)

lemma activatedHome_simps:
  "stateOwners (activatedHome H name st) = stateOwners (claimOwnership name st (releasePrevious (slotActive H name) H))"
  "topicOwners (activatedHome H name st) = topicOwners (claimOwnership name st (releasePrevious (slotActive H name) H))"
  "functionOwners (activatedHome H name st) = functionOwners (claimOwnership name st (releasePrevious (slotActive H name) H))"
  "state (activatedHome H name st) = state (claimOwnership name st (releasePrevious (slotActive H name) H))"
  "users (activatedHome H name st) = users H" "home_closed (activatedHome H name st) = home_closed H"
  "epoch (activatedHome H name st) = epoch H"
  by (simp_all add: activatedHome_def Let_def claimOwnership_def commitIDs_def releasePrevious_def
      releaseOwnership_def split: option.split)

lemma activatedHome_active:
  assumes "get (coordinators H) name \<noteq> None"
  shows "slotActive (activatedHome H name st) m =
    (if m = name then Some (configFromStage st) else slotActive H m)"
proof -
  let ?H1 = "claimOwnership name st (commitIDs st (releasePrevious (slotActive H name) H))"
  have 1: "coordinators ?H1 = coordinators H"
    by (simp add: claimOwnership_def commitIDs_def releasePrevious_def releaseOwnership_def
        split: option.split)
  have "slotActive (updSlot name (\<lambda>s. s\<lparr>active := Some (configFromStage st), ready := True\<rparr>) K) m =
      (if m = name then Some (configFromStage st) else slotActive H m)"
    if "coordinators K = coordinators H" for K
    using assms that slotActive_cong [OF that] by (auto simp: slotActive_updSlot)
  then show ?thesis by (simp add: activatedHome_def Let_def 1)
qed

lemma claim_owners:
  "stateOwners (claimOwnership name st (releasePrevious prev H)) =
     putAll (map (\<lambda>k. (k, name)) (keys (stg_state st)))
       (fold del (case prev of None \<Rightarrow> [] | Some cf \<Rightarrow> ownedState cf) (stateOwners H))"
  "topicOwners (claimOwnership name st (releasePrevious prev H)) =
     putAll (map (\<lambda>k. (k, name)) (keys (stg_events st)))
       (fold del (case prev of None \<Rightarrow> [] | Some cf \<Rightarrow> topicsOf cf) (topicOwners H))"
  "functionOwners (claimOwnership name st (releasePrevious prev H)) =
     putAll (map (\<lambda>k. (k, name)) (stg_functions st))
       (fold del (case prev of None \<Rightarrow> [] | Some cf \<Rightarrow> cfg_functions cf) (functionOwners H))"
  "state (claimOwnership name st (releasePrevious prev H)) =
     putAll (stg_state st) (fold del (case prev of None \<Rightarrow> [] | Some cf \<Rightarrow> ownedState cf) (state H))"
  by (simp_all add: claimOwnership_def releasePrevious_def releaseOwnership_def comp_def
      split: option.split)

lemma activation_own_ok:
  assumes ok: "own_ok H" and slot: "get (coordinators H) name \<noteq> None" and name: "name \<noteq> []"
    and free: "\<not> list_ex (ownedElsewhere (stateOwners H) name) (keys (stg_state st))"
      "\<not> list_ex (ownedElsewhere (topicOwners H) name) (keys (stg_events st))"
      "\<not> list_ex (ownedElsewhere (functionOwners H) name) (stg_functions st)"
    and wf: "wf_map (stg_state st)"
  shows "own_ok (activatedHome H name st)"
proof -
  let ?H = "activatedHome H name st"
  note act = activatedHome_active [OF slot, of st]
  have held: "held part ?H = (held part H)(name := set (part (configFromStage st)))" for part
    by (rule ext) (simp add: held_def act)
  have empty: "held part H [] = {}" for part using ok by (simp add: held_def own_ok_def)
  have old: "set (case slotActive H name of None \<Rightarrow> [] | Some cf \<Rightarrow> part cf) = held part H name" for part
    by (simp add: held_def split: option.split)
  have O: "owns_ok (stateOwners ?H) (held ownedState ?H)"
    unfolding held activatedHome_simps claim_owners
    using owns_claim [where owners = "stateOwners H" and holds = "held ownedState H" and name = name and
        old = "case slotActive H name of None \<Rightarrow> [] | Some cf \<Rightarrow> ownedState cf" and xs = "keys (stg_state st)"]
      empty old ok free(1)
    by (simp add: configFromStage_def own_ok_def list_ex_iff)
  moreover have "owns_ok (topicOwners ?H) (held topicsOf ?H)"
    unfolding held activatedHome_simps claim_owners
    using owns_claim [where owners = "topicOwners H" and holds = "held topicsOf H" and name = name and
        old = "case slotActive H name of None \<Rightarrow> [] | Some cf \<Rightarrow> topicsOf cf" and xs = "keys (stg_events st)"]
      empty old ok free(2)
    by (simp add: configFromStage_def own_ok_def list_ex_iff)
  moreover have "owns_ok (functionOwners ?H) (held cfg_functions ?H)"
    unfolding held activatedHome_simps claim_owners
    using owns_claim [where owners = "functionOwners H" and holds = "held cfg_functions H" and name = name and
        old = "case slotActive H name of None \<Rightarrow> [] | Some cf \<Rightarrow> cfg_functions cf" and xs = "stg_functions st"]
      empty old ok free(3)
    by (simp add: configFromStage_def own_ok_def list_ex_iff)
  moreover have "state_ok ?H"
    unfolding state_ok_def
  proof (intro conjI allI impI)
    fix p
    let ?old = "case slotActive H name of None \<Rightarrow> [] | Some cf \<Rightarrow> ownedState cf"
    have s: "get (state ?H) p = (case get (stg_state st) p of Some v \<Rightarrow> Some v
        | None \<Rightarrow> if p \<in> set ?old then None else get (state H) p)"
      by (cases "get (stg_state st) p")
        (simp_all add: activatedHome_simps claim_owners putAll_get wf fold_del_get)
    have o: "get (stateOwners ?H) p = (if p \<in> set (keys (stg_state st)) then Some name
        else if p \<in> set ?old then None else get (stateOwners H) p)"
      by (simp only: activatedHome_simps claim_owners putAll_const fold_del_get)
    have mine: "p \<in> set ?old" if "get (stateOwners H) p = Some name"
      using that ok old [of ownedState] by (auto simp: own_ok_def owns_ok_def)
    have S: "get (state H) p = Option.bind (get (stateOwners H) p)
        (\<lambda>n. Option.bind (slotActive H n) (\<lambda>cf. get (cfg_state cf) p))"
      using ok by (simp add: own_ok_def state_ok_def)
    show "get (state ?H) p = Option.bind (get (stateOwners ?H) p)
        (\<lambda>n. Option.bind (slotActive ?H n) (\<lambda>cf. get (cfg_state cf) p))"
    proof (cases "get (stg_state st) p")
      case (Some v)
      then have "p \<in> set (keys (stg_state st))" by (rule get_in_keys)
      then show ?thesis unfolding s o act by (simp add: Some configFromStage_def)
    next
      case None
      then have "p \<notin> set (keys (stg_state st))" by (simp add: get_None_keys)
      then show ?thesis unfolding s o act using None S mine
        by (cases "get (stateOwners H) p") auto
    qed
  next
    fix n cf assume "slotActive ?H n = Some cf"
    then show "set (keys (cfg_state cf)) \<subseteq> set (ownedState cf)"
      using ok by (auto simp: act configFromStage_def own_ok_def state_ok_def simp del: set_map
          split: if_splits)
  qed
  ultimately show ?thesis using ok name by (simp add: own_ok_def act)
qed

section \<open>Mutation and removal\<close>

lemma applyMutations_cong:
  "p \<in> fst ` set changes \<Longrightarrow> get (applyMutations changes st) p = get (applyMutations changes st') p"
proof (induction changes arbitrary: st st')
  case (Cons ch changes)
  show ?case
  proof (cases "p \<in> fst ` set changes")
    case True
    then show ?thesis
      using Cons.IH [of "applyMutation ch st" "applyMutation ch st'"] by (simp add: applyMutations_def)
  next
    case False
    then have p: "p = fst ch" using Cons.prems by auto
    have "get (applyMutations changes (applyMutation ch s)) p = snd ch" for s
      using applyMutations_other [OF False] by (simp add: p applyMutation_def split: option.split)
    then show ?thesis by (simp add: applyMutations_def)
  qed
qed simp

lemma applyMutations_keys:
  "set (keys (applyMutations changes st)) \<subseteq> set (keys st) \<union> fst ` set changes"
proof (induction changes arbitrary: st)
  case (Cons ch changes)
  have "set (keys (applyMutation ch st)) \<subseteq> insert (fst ch) (set (keys st))"
    by (auto simp: applyMutation_def keys_put keys_del simp del: set_map split: option.split)
  with Cons.IH [of "applyMutation ch st"] show ?case by (auto simp: applyMutations_def simp del: set_map)
qed (simp add: applyMutations_def)

lemma slotActive_mutated:
  "slotActive (mutatedHome name changes H) m =
     (if m = name
      then map_option (\<lambda>cf. cf\<lparr>cfg_state := applyMutations changes (cfg_state cf)\<rparr>) (slotActive H name)
      else slotActive H m)"
  by (cases "get (coordinators H) name")
    (simp_all add: mutatedHome_def slotActive_def updSlot_get)

lemma mutation_own_ok:
  assumes ok: "own_ok H" and cf: "slotActive H name = Some cf"
    and mine: "fst ` set changes \<subseteq> set (ownedState cf)"
  shows "own_ok (mutatedHome name changes H)"
proof -
  let ?H = "mutatedHome name changes H"
  have held: "held part ?H = held part H" if "\<And>cf st. part (cf\<lparr>cfg_state := st\<rparr>) = part cf" for part
    by (rule ext) (simp add: held_def slotActive_mutated that split: option.split)
  have owner: "get (stateOwners H) p = Some name" if "p \<in> fst ` set changes" for p
    using that mine ok cf by (auto simp: own_ok_def owns_ok_def held_def)
  have S: "get (state H) p = Option.bind (get (stateOwners H) p)
      (\<lambda>n. Option.bind (slotActive H n) (\<lambda>cf. get (cfg_state cf) p))" for p
    using ok by (simp add: own_ok_def state_ok_def)
  have K: "set (keys (cfg_state cg)) \<subseteq> set (ownedState cg)" if "slotActive H n = Some cg" for n cg
    using ok that by (simp add: own_ok_def state_ok_def)
  have "state_ok ?H"
    unfolding state_ok_def
  proof (intro conjI allI impI)
    fix p
    show "get (state ?H) p = Option.bind (get (stateOwners ?H) p)
        (\<lambda>n. Option.bind (slotActive ?H n) (\<lambda>cf. get (cfg_state cf) p))"
    proof (cases "p \<in> fst ` set changes")
      case True
      then show ?thesis
        using owner applyMutations_cong [OF True, of "state H" "cfg_state cf"]
        by (simp add: slotActive_mutated cf)
    next
      case False
      then show ?thesis
        using S [of p] by (cases "get (stateOwners H) p")
          (simp_all add: slotActive_mutated applyMutations_other cf)
    qed
  next
    fix n cg assume "slotActive ?H n = Some cg"
    then show "set (keys (cfg_state cg)) \<subseteq> set (ownedState cg)"
      using K [OF cf] K [of n cg] mine applyMutations_keys [of changes "cfg_state cf"]
      by (auto simp: slotActive_mutated cf simp del: set_map split: if_splits) blast
  qed
  then show ?thesis using ok held [of ownedState] held [of topicsOf] held [of cfg_functions] cf
    by (simp add: own_ok_def slotActive_mutated)
qed

text \<open>Removing a coordinator: its ownership goes, then its configuration.\<close>

lemma removedHome_active:
  "slotActive (removedHome name cf H) m = (if m = name then None else slotActive H m)"
proof -
  have "coordinators (releaseOwnership cf H) = coordinators H" by (simp add: releaseOwnership_def)
  then show ?thesis
    using slotActive_cong [of "removedHome name cf H"
        "updSlot name (\<lambda>s. s\<lparr>active := None\<rparr>) (releaseOwnership cf H)" m]
      slotActive_cong [of "releaseOwnership cf H" H m]
    by (cases "get (coordinators H) name") (auto simp: removedHome_def Let_def slotActive_updSlot)
qed

lemma removal_own_ok:
  assumes ok: "own_ok H" and cf: "slotActive H name = Some cf"
  shows "own_ok (removedHome name cf H)"
proof -
  let ?H = "removedHome name cf H"
  have held: "held part ?H = (held part H)(name := {})" for part
    by (rule ext) (simp add: held_def removedHome_active)
  have mine: "set (part cf) = held part H name" for part by (simp add: held_def cf)
  have owners: "stateOwners ?H = fold del (ownedState cf) (stateOwners H)"
    "topicOwners ?H = fold del (topicsOf cf) (topicOwners H)"
    "functionOwners ?H = fold del (cfg_functions cf) (functionOwners H)"
    "state ?H = fold del (ownedState cf) (state H)"
    by (simp_all add: removedHome_def Let_def releaseOwnership_def)
  have O: "owns_ok (stateOwners ?H) (held ownedState ?H)"
    unfolding held owners using ok by (intro owns_release mine) (simp add: own_ok_def)
  moreover have "owns_ok (topicOwners ?H) (held topicsOf ?H)"
    unfolding held owners using ok by (intro owns_release mine) (simp add: own_ok_def)
  moreover have "owns_ok (functionOwners ?H) (held cfg_functions ?H)"
    unfolding held owners using ok by (intro owns_release mine) (simp add: own_ok_def)
  moreover have "state_ok ?H"
    unfolding state_ok_def
  proof (intro conjI allI impI)
    fix p
    have "get (state H) p = Option.bind (get (stateOwners H) p)
        (\<lambda>n. Option.bind (slotActive H n) (\<lambda>cf. get (cfg_state cf) p))"
      using ok by (simp add: own_ok_def state_ok_def)
    moreover have "p \<in> set (ownedState cf)" if "get (stateOwners H) p = Some name"
      using that ok by (auto simp: own_ok_def owns_ok_def held_def cf)
    ultimately show "get (state ?H) p = Option.bind (get (stateOwners ?H) p)
        (\<lambda>n. Option.bind (slotActive ?H n) (\<lambda>cf. get (cfg_state cf) p))"
      by (cases "get (stateOwners H) p") (auto simp: owners fold_del_get removedHome_active)
  next
    fix n cg assume "slotActive ?H n = Some cg"
    then show "set (keys (cfg_state cg)) \<subseteq> set (ownedState cg)"
      using ok by (auto simp: removedHome_active own_ok_def state_ok_def split: if_splits)
  qed
  ultimately show ?thesis using ok by (simp add: own_ok_def removedHome_active)
qed

lemma held_iff: "x \<in> held part H n \<longleftrightarrow> (\<exists>cf. slotActive H n = Some cf \<and> x \<in> set (part cf))"
  by (auto simp: held_def split: option.split)

lemma own_okD:
  assumes "own_ok H"
  shows "get (stateOwners H) p = Some n \<longleftrightarrow> (\<exists>cf. slotActive H n = Some cf \<and> p \<in> set (ownedState cf))"
    and "get (topicOwners H) t = Some n \<longleftrightarrow> (\<exists>cf. slotActive H n = Some cf \<and> t \<in> set (topicsOf cf))"
    and "get (functionOwners H) f = Some n \<longleftrightarrow>
      (\<exists>cf. slotActive H n = Some cf \<and> f \<in> set (cfg_functions cf))"
    and "get (state H) p = Option.bind (get (stateOwners H) p)
      (\<lambda>m. Option.bind (slotActive H m) (\<lambda>cf. get (cfg_state cf) p))"
  using assms unfolding own_ok_def owns_ok_def held_iff state_ok_def by blast+

end
