(* ===== verification/Home_Contracts.thy ===== *)
theory Home_Contracts
  imports Ownership
begin

text \<open>
  The contract for invariants of homes: a predicate that depends on ownership, dictionaries and
  stages only, and that the few operations on those keep, is kept by every handler, timer and
  lifecycle operation of the relay. \<open>home_contract\<close> is interpreted for ownership in
  \<open>Ownership_Inv\<close>.
\<close>

section \<open>Homes\<close>

text \<open>The part of a connection and of a home that ownership, dictionaries and stages depend
  on.\<close>

definition home_view :: "connection \<Rightarrow> identity \<times> nat option \<times> declarationStage option" where
  "home_view C = (conn_identity C, conn_home C, stage C)"

definition home_core :: "home \<Rightarrow> home" where
  "home_core H = H\<lparr>references := 0, revision := 0, policy := 0, connections := [], users := [],
     coordinators := []\<rparr>"

definition same_core :: "home \<Rightarrow> home \<Rightarrow> bool" where
  "same_core H H' \<longleftrightarrow> home_core H' = home_core H \<and> (\<forall>n. slotActive H' n = slotActive H n)"

lemma same_core_refl [simp]: "same_core H H"
  by (simp add: same_core_def)

lemma home_view_simps [simp]:
  "home_view (C\<lparr>subscriptions := xs\<rparr>) = home_view C"
  "home_view (C\<lparr>lastStateRevision := n\<rparr>) = home_view C"
  "home_view (C\<lparr>requestIDs := xs\<rparr>) = home_view C" "home_view (C\<lparr>eventIDs := xs\<rparr>) = home_view C"
  "home_view (C\<lparr>generation := n\<rparr>) = home_view C" "home_view (C\<lparr>detachOnce := b\<rparr>) = home_view C"
  "home_view (C\<lparr>drainOnce := b\<rparr>) = home_view C" "home_view (C\<lparr>bootstrapped := b\<rparr>) = home_view C"
  "home_view (C\<lparr>leaseExpired := b\<rparr>) = home_view C" "home_view (C\<lparr>calls := m\<rparr>) = home_view C"
  "home_view (C\<lparr>nextCallID := n\<rparr>) = home_view C" "home_view (C\<lparr>phase := p\<rparr>) = home_view C"
  by (simp_all add: home_view_def)

locale home_contract = outbound_contract +
  assumes V_shared: "I w \<Longrightarrow> (\<And>c. home_view (conns w' c) = home_view (conns w c)) \<Longrightarrow>
      homes w' = homes w \<Longrightarrow> nhomes w' = nhomes w \<Longrightarrow> cfg w' = cfg w \<Longrightarrow>
      registry w' = registry w \<or> (\<exists>k. registry w' = del k (registry w)) \<Longrightarrow> I w'"
    and V_home: "I w \<Longrightarrow> same_core (homes w h) (k (homes w h)) \<Longrightarrow> I (updHome h k w)"
    and V_declare: "I w \<Longrightarrow> conn_home (conns w c) = Some h \<Longrightarrow>
      I (snd (handleDeclaration P h c f w))"
    and V_set: "I w \<Longrightarrow> conn_home (conns w c) = Some h \<Longrightarrow> I (snd (applyStateSet P h c f w))"
    and V_unstage: "I w \<Longrightarrow> I (setStage None c w)"
    and V_leave: "I w \<Longrightarrow> home_closed (homes w h) \<Longrightarrow>
      I (updHome h (\<lambda>H. H\<lparr>coordinators := del n (coordinators H)\<rparr>) w)"
    and V_close: "I w \<Longrightarrow>
      I (updHome h (\<lambda>H. H\<lparr>home_closed := True, coordinators := closedCoordinators (coordinators H)\<rparr>) w)"
    and V_removed: "I w \<Longrightarrow> slotActive (homes w h) n = Some cf \<Longrightarrow> I (updHome h (removedHome n cf) w)"
    and V_newHome: "I w \<Longrightarrow> get (registry w) i = None \<Longrightarrow>
      int (length (registry w)) < MaxHomes (cfg w) \<Longrightarrow>
      I (w\<lparr>homes := (homes w)(nhomes w := (newHome e i)\<lparr>references := 1\<rparr>),
           nhomes := nhomes w + 1, registry := put i (nhomes w) (registry w)\<rparr>)"
    and V_identity: "I w \<Longrightarrow> conn_home (conns w c) = None \<Longrightarrow>
      (Role ident = RoleCoordinator \<longrightarrow> CoordinatorName ident \<noteq> []) \<Longrightarrow>
      I (updConn c (\<lambda>C. C\<lparr>conn_identity := ident\<rparr>) w)"
    and V_join: "I w \<Longrightarrow> conn_home (conns w c) = None \<Longrightarrow> h < nhomes w \<Longrightarrow>
      home_id (homes w h) = HomeID (conn_identity (conns w c)) \<Longrightarrow>
      I (updConn c (\<lambda>C. C\<lparr>conn_home := Some h, phase := phaseActive\<rparr>) w)"
    and V_registered: "I w \<Longrightarrow> get (registry w) name = Some h \<Longrightarrow>
      h < nhomes w \<and> home_id (homes w h) = name"
begin

lemma V_conn: "I w \<Longrightarrow> (\<And>C. home_view (g C) = home_view C) \<Longrightarrow> I (updConn c g w)"
  by (erule V_shared) simp_all

lemma V_route: "I w \<Longrightarrow> I (updRoute r g w)"
  by (erule V_shared) simp_all

lemma V_resync: "I w \<Longrightarrow> I (snd (resync P h c f w))"
  by (simp add: resync_def Let_def split_beta V_conn I_enqueue I_terminal
      split: option.split bool.split)

lemma V_handleState: "I w \<Longrightarrow> conn_home (conns w c) = Some h \<Longrightarrow> I (snd (handleState P h c f w))"
  by (simp add: handleState_def V_resync V_set)

lemma V_subscribe: "I w \<Longrightarrow> I (snd (subscribe P h c f w))"
  using subscribe_cases [of P h c f w] by (auto simp: V_conn I_enqueue)

lemma V_unsubscribe: "I w \<Longrightarrow> I (snd (unsubscribe P h c f w))"
  by (simp add: unsubscribe_def Let_def split_beta V_conn I_enqueue
      split: option.split sum.split bool.split)

lemma V_deliver: "I w \<Longrightarrow> I (snd (deliver P H t i f us w))"
  by (induction us arbitrary: w) (auto simp: split_beta I_enqueue)

lemma V_routeCoordinatorEvent:
  "I w \<Longrightarrow> I (snd (routeCoordinatorEventLocked P h c fl t i k tg f w))"
  by (simp add: routeCoordinatorEventLocked_def Let_def split_beta I_enqueue V_deliver
      split: option.split bool.split)

lemma V_routeEvent: "I w \<Longrightarrow> I (snd (routeEventLocked P h c ow sl fl t i k tg f w))"
  by (simp add: routeEventLocked_def Let_def split_beta I_enqueue V_routeCoordinatorEvent
      split: option.split bool.split)

lemma V_publish: "I w \<Longrightarrow> I (snd (publishEvent P h c f w))"
  by (simp add: publishEvent_def claimEventID_def routeClaimedEvent_def Let_def V_routeEvent V_conn
      split: option.split)

lemma V_event: "I w \<Longrightarrow> I (snd (handleEvent P h c f w))"
  by (simp add: handleEvent_def V_subscribe V_unsubscribe V_publish)

lemma V_remove: "I w \<Longrightarrow> I (removeRouteLocked r w)"
  by (simp add: removeRouteLocked_def Let_def V_conn V_route)

lemma V_insert: "I w \<Longrightarrow> I (insertRoute R w)"
proof -
  assume "I w"
  then have "I (w\<lparr>routes := (routes w)(nroutes w := R), nroutes := Suc (nroutes w)\<rparr>)"
    by (rule V_shared) simp_all
  then show ?thesis by (simp add: insertRoute_def Let_def V_conn)
qed

lemma V_allocate: "I w \<Longrightarrow> I (snd (allocateCalleeCallIDLocked d w))"
  by (simp add: allocateCalleeCallIDLocked_def Let_def V_conn split: option.split)

lemma V_dispatchCall: "I w \<Longrightarrow> I (snd (dispatchCall P c d q until w))"
  by (simp add: dispatchCall_def Let_def split_beta V_allocate V_insert V_route V_remove I_enqueue
      split: option.split bool.split)

lemma V_orSlow: "I (snd p) \<Longrightarrow> I (snd (orSlow p))"
  by (simp add: orSlow_def split_beta split: bool.split)

lemma V_origin: "I (snd p) \<Longrightarrow> I (snd (originUnavailable p))"
  by (simp add: originUnavailable_def split_beta split: bool.split)

lemma V_startCall: "I w \<Longrightarrow> I (snd (startCall P t h c f w))"
  by (simp add: startCall_def Let_def V_dispatchCall split: option.split sum.split)

lemma V_forwardResult: "I w \<Longrightarrow> I (snd (forwardCallResult P h c f w))"
  by (simp add: forwardCallResult_def Let_def V_origin I_enqueue I_stream V_remove V_route
      split: option.split sum.split "value.split")

lemma V_forwardError: "I w \<Longrightarrow> I (snd (forwardCallError P h c f w))"
  by (simp add: forwardCallError_def Let_def V_origin I_enqueue V_remove
      split: option.split sum.split)

lemma V_cancelCall: "I w \<Longrightarrow> I (snd (cancelCall P h c f w))"
  by (simp add: cancelCall_def Let_def V_orSlow I_enqueue V_remove split: option.split)

lemma V_creditCall: "I w \<Longrightarrow> I (snd (creditCall P h c f w))"
  by (simp add: creditCall_def Let_def split_beta I_enqueue V_route split: option.split bool.split)

lemma V_call: "I w \<Longrightarrow> I (snd (handleCall P t h c f w))"
  by (simp add: handleCall_def V_startCall V_forwardResult V_forwardError V_cancelCall V_creditCall)

lemma V_handleHome:
  "I w \<Longrightarrow> conn_home (conns w c) = Some h \<Longrightarrow> I (snd (handleHome P t h c f w))"
  by (simp add: handleHome_def Let_def V_declare V_handleState V_event V_call)

lemma V_expireCall: "I w \<Longrightarrow> I (expireCall P r w)"
  by (simp add: expireCall_def I_dispatch V_remove)

lemma V_terminateLoop: "I w \<Longrightarrow> I (snd (terminateLoop c ps w))"
  by (induction ps arbitrary: w) (simp_all add: Let_def split_beta V_remove)

lemma V_terminate: "I w \<Longrightarrow> I (snd (terminateCallsForConnectionLocked c w))"
  by (simp add: terminateCallsForConnectionLocked_def V_terminateLoop)

lemma V_install: "I w \<Longrightarrow> I (installLeaseLocked e c w)"
  by (simp add: installLeaseLocked_def V_conn home_view_def)

lemma V_replaceLease: "I w \<Longrightarrow> I (snd (replaceLease d e c w))"
  by (simp add: replaceLease_def Let_def V_install)

lemma V_expireLease: "I w \<Longrightarrow> I (expireLease P g c w)"
  by (simp add: expireLease_def I_fail V_conn)

lemma V_completeReauth: "I w \<Longrightarrow> I (snd (completeReauth P r q d a c w))"
  by (simp add: completeReauth_def Let_def split_beta V_orSlow I_enqueue V_replaceLease
      split: sum.split option.split bool.split)

lemma V_handle: "I w \<Longrightarrow> I (snd (handle P v t c f w))"
  by (simp add: handle_def V_completeReauth V_handleHome split: option.split sum.split prod.split)

lemma V_answer: "I (snd p) \<Longrightarrow> I (snd (answer P cl c f p))"
  by (simp add: answer_def Let_def split_beta I_fail I_enqueue I_terminal
      split: outcome.split option.split)

lemma V_frameStep: "I w \<Longrightarrow> I (snd (frameStep P v t c f w))"
  by (simp add: frameStep_def beginRequest_def split_beta I_fail V_answer V_handle V_conn I_enqueue
      split: option.split)

lemma V_readStep: "I w \<Longrightarrow> I (snd (readStep P v t c m w))"
  by (simp add: readStep_def I_fail V_frameStep split: inbound.split)

lemma V_expireStage: "I w \<Longrightarrow> I (expireStage P ref c w)"
  by (simp add: expireStage_def I_enqueue V_unstage)

lemma V_references: "I w \<Longrightarrow> I (updHome h (\<lambda>H. H\<lparr>references := n H\<rparr>) w)"
  by (rule V_home) (simp_all add: same_core_def home_core_def slotActive_def)

lemma V_deleteIfUnused: "I w \<Longrightarrow> I (deleteIfUnused h w)"
  by (auto simp: deleteIfUnused_def Let_def) (erule V_shared; auto)

lemma V_releaseHome: "I w \<Longrightarrow> I (releaseHome h w)"
  by (simp add: releaseHome_def V_deleteIfUnused V_references)

lemma V_members:
  "I w \<Longrightarrow> I (updHome h (addConnection s c) w)"
  "I w \<Longrightarrow> I (updHome h (dropConnection s) w)"
  "I w \<Longrightarrow> I (updHome h (\<lambda>H. H\<lparr>users := u H\<rparr>) w)"
  "I w \<Longrightarrow> I (updHome h (\<lambda>H. dropConnection s (H\<lparr>users := u H\<rparr>)) w)"
  by (rule V_home; simp add: same_core_def home_core_def slotActive_def addConnection_def
      dropConnection_def)+

lemma V_slot:
  assumes "I w" "\<And>s. active (g s) = active s"
  shows "I (updHome h (updSlot n g) w)"
proof (rule V_home [OF assms(1)])
  let ?H = "homes w h"
  have "slotActive (updSlot n g ?H) m = slotActive ?H m" for m
    using assms(2) by (cases "get (coordinators ?H) n") (simp_all add: slotActive_def updSlot_get)
  moreover have "home_core (updSlot n g ?H) = home_core ?H"
    by (simp add: updSlot_def home_core_def split: option.split)
  ultimately show "same_core ?H (updSlot n g ?H)" by (simp add: same_core_def)
qed

lemma V_putSlot:
  assumes "I w" "active s = slotActive (homes w h) n"
  shows "I (updHome h (\<lambda>H. H\<lparr>coordinators := put n s (coordinators H)\<rparr>) w)"
  using assms by (intro V_home) (simp_all add: same_core_def home_core_def slotActive_def)

lemma V_delSlot:
  assumes "I w" "slotActive (homes w h) n = None"
  shows "I (updHome h (\<lambda>H. H\<lparr>coordinators := del n (coordinators H)\<rparr>) w)"
  using assms by (intro V_home) (simp_all add: same_core_def home_core_def slotActive_def)

lemma V_attachUser: "I w \<Longrightarrow> I (snd (attachUser P h c w))"
  by (simp add: attachUser_def Let_def userBootstrapLocked_def V_members V_conn split: option.split)

lemma V_attachCoordinator: "I w \<Longrightarrow> I (snd (attachCoordinator h c w))"
proof -
  assume "I w"
  let ?w = "updHome h (addConnection (sessionID (conns w c)) c) w" and ?n = "nameOf (conns w c)"
  let ?slot = "case get (coordinators (homes ?w h)) ?n of None \<Rightarrow> newSlot | Some s \<Rightarrow> s"
  have w: "I ?w" using \<open>I w\<close> by (rule V_members)
  have s: "active ?slot = slotActive (homes ?w h) ?n"
    by (simp add: slotActive_def newSlot_def split: option.split)
  have 1: "I (updHome h (\<lambda>H. H\<lparr>coordinators := put ?n ?slot (coordinators H)\<rparr>) ?w)"
    using w s by (rule V_putSlot)
  have 2: "I (updHome h (takeSlot ?n c) v)" if "I v" for v
    unfolding takeSlot_def using that by (rule V_slot) simp
  show ?thesis
    using w 1 2 by (simp add: attachCoordinator_def Let_def split_beta V_members V_conn V_terminate
        del: updHome_simps split: option.split)
qed

lemma V_register: "I w \<Longrightarrow> I (snd (registerSession P h c w))"
  by (simp add: registerSession_def Let_def V_attachUser V_attachCoordinator V_members)

lemma V_enqueueAll: "I w \<Longrightarrow> I (snd (enqueueAll P fs c w))"
  by (induction fs arbitrary: w) (simp_all add: split_beta I_enqueue split: bool.split)

lemma V_initialLease: "I w \<Longrightarrow> I (snd (activateInitialLease c w))"
  by (simp add: activateInitialLease_def Let_def V_conn V_install)

lemma V_bootstrap: "I w \<Longrightarrow> I (snd (bootstrap P h c e fs w))"
  by (simp add: bootstrap_def Let_def split_beta I_enqueue V_enqueueAll V_initialLease
      split: bool.split)

lemma V_attach: "I w \<Longrightarrow> I (snd (attach P h c w))"
  by (simp add: attach_def Let_def split_beta V_register V_bootstrap I_dispatch I_fail
      split: option.split sum.split)

lemma V_leaveSlot: "I w \<Longrightarrow> I (updHome h (\<lambda>_. snd (leaveSlot c C (homes w h))) w)"
proof -
  assume w: "I w"
  let ?H = "homes w h" and ?n = "nameOf C"
  have keep: "I (updHome h (\<lambda>_. ?H) w)" using w by (rule V_home) simp
  have upd: "I (updHome h (\<lambda>_. updSlot ?n g ?H) w)" if "\<And>s. active (g s) = active s" for g
    using V_slot [OF w that, of h ?n] by (simp add: updHome_def)
  have closed: "I (updHome h (\<lambda>_. ?H\<lparr>coordinators := del ?n (coordinators ?H)\<rparr>) w)"
    if "home_closed ?H" using V_leave [OF w that, of ?n] by (simp add: updHome_def)
  have del: "I (updHome h (\<lambda>_. ?H\<lparr>coordinators := del ?n (coordinators ?H)\<rparr>) w)"
    if "get (coordinators ?H) ?n = Some s" "active s = None" for s
    using V_delSlot [OF w, of h ?n] that by (simp add: updHome_def slotActive_def)
  show ?thesis
    using keep upd closed del by (auto simp: leaveSlot_def Let_def split: option.split)
qed

lemma V_detachHome: "I w \<Longrightarrow> I (detachHome P h c w)"
  by (simp add: detachHome_def Let_def split_beta I_dispatch V_terminate V_members V_unstage
      V_leaveSlot)

lemma V_detach: "I w \<Longrightarrow> I (detach P c w)"
  by (simp add: detach_def Let_def V_releaseHome V_detachHome V_conn split: option.split)

lemma V_endRun: "I w \<Longrightarrow> I (endRun P c w)"
  by (simp add: endRun_def Let_def I_stop V_detach)

lemma V_prune: "I w \<Longrightarrow> I (pruneSubscriptionsLocked h w)"
proof -
  have "I (pruneUsers H us w)" if "I w" for H us
    using that by (induction us arbitrary: w) (simp_all add: V_conn)
  then show "I w \<Longrightarrow> I (pruneSubscriptionsLocked h w)" by (simp add: pruneSubscriptionsLocked_def)
qed

lemma V_userViews: "I w \<Longrightarrow> I (snd (userViewActionsLocked h prev caps w))"
proof -
  have "I (snd (userViewLoop H prev caps us w))" if "I w" for H us
    using that
  proof (induction us arbitrary: w)
    case (Cons p us)
    obtain s c where p: "p = (s, c)" by (cases p)
    have "I (updConn c (\<lambda>C. C\<lparr>lastStateRevision := revision H\<rparr>) w)"
      using Cons.prems by (rule V_conn) simp
    then show ?case using Cons by (simp add: p Let_def split_beta)
  qed simp
  then show "I w \<Longrightarrow> I (snd (userViewActionsLocked h prev caps w))"
    by (simp add: userViewActionsLocked_def)
qed

lemma V_removeCoordinator: "I w \<Longrightarrow> I (snd (removeCoordinatorLocked h n w))"
  by (simp add: removeCoordinatorLocked_def Let_def V_userViews V_prune V_removed
      split: option.split)

lemma V_stopAll: "I w \<Longrightarrow> I (stopAll st rs cs w)"
  by (induction cs arbitrary: w) (auto intro: I_stop)

lemma V_closeHome: "I w \<Longrightarrow> I (closeHome h w)"
  by (simp add: closeHome_def Let_def V_deleteIfUnused V_stopAll V_close)

lemma V_closeHomes: "I w \<Longrightarrow> I (closeHomes hs w)"
  by (induction hs arbitrary: w) (auto intro: V_closeHome)

lemma V_closeRegistry: "I w \<Longrightarrow> I (closeRegistry w)"
  by (auto simp: closeRegistry_def intro!: V_closeHomes elim: V_shared)

lemma V_startDraining: "I w \<Longrightarrow> I (startDraining P a b c w)"
  by (simp add: startDraining_def Let_def split_beta V_conn I_enqueue split: bool.split)

lemma V_drainAll: "I w \<Longrightarrow> I (drainAll P a b cs w)"
  by (induction cs arbitrary: w) (auto intro: V_startDraining)

lemma V_authentication:
  assumes "I w" "conn_home (conns w c) = None"
    and "req_Role q = RoleCoordinator \<longrightarrow> req_CoordinatorName q \<noteq> []"
  shows "I (snd (completeAuthentication P random q ans c w))"
proof (cases ans)
  case (Inr i)
  show ?thesis
  proof (cases "ValidateBinding q i (clock w)")
    case None
    then have i: "Role i = RoleCoordinator \<longrightarrow> CoordinatorName i \<noteq> []"
      using assms(3) by (auto simp: ValidateBinding_None bound_identity_def)
    let ?w1 = "updConn c (\<lambda>C. C\<lparr>conn_identity := i\<rparr>) w"
    have 1: "I ?w1" using assms(1,2) i by (rule V_identity)
    obtain r w2 where a: "acquire random (HomeID i) ?w1 = (r, w2)" by (meson surj_pair)
    have 2: "I w2"
      using a 1 V_newHome [OF 1] V_references [OF 1]
      by (auto simp: acquire_def Let_def split: if_splits option.splits)
    have h: "h < nhomes w2" if "r = Inr h" for h
      using a that V_registered [OF 1]
      by (auto simp: acquire_def Let_def split: if_splits option.splits)
    have hid: "home_id (homes w2 h) = HomeID i" if "r = Inr h" for h
      using a that V_registered [OF 1]
      by (auto simp: acquire_def Let_def newHome_def split: if_splits option.splits)
    have id2: "conn_identity (conns w2 c) = i"
      using a by (auto simp: acquire_def Let_def split: if_splits option.splits)
    have c: "conn_home (conns w2 c) = None"
      using a assms(2) by (auto simp: acquire_def Let_def split: if_splits option.splits)
    have 3: "I (snd (attach P h c (updConn c (\<lambda>C. C\<lparr>conn_home := Some h, phase := phaseActive\<rparr>) w2)))"
      if "r = Inr h" for h
      using V_attach [OF V_join [OF 2 c h [OF that]]] hid [OF that] id2 by simp
    show ?thesis
      using assms(1) 2 3
      by (simp add: completeAuthentication_def Inr None Let_def a split_beta V_startDraining
          split: sum.split option.split acquireError.split)
  qed (use assms Inr in \<open>simp add: completeAuthentication_def\<close>)
qed (use assms in \<open>simp add: completeAuthentication_def\<close>)

lemma V_expireCoordinator:
  assumes "I w" shows "I (expireCoordinator P h n g w)"
proof -
  let ?w1 = "updHome h (updSlot n (\<lambda>s. s\<lparr>grace := None\<rparr>)) w"
  let ?w2 = "snd (removeCoordinatorLocked h n ?w1)"
  have 1: "I ?w1" using assms by (rule V_slot) simp
  have 2: "I ?w2" using 1 by (rule V_removeCoordinator)
  have h: "homes (snd (userViewActionsLocked h pv b v)) = homes v" for pv b v
  proof -
    have "homes (snd (userViewLoop H pv b us v)) = homes v" for H us
      by (induction us arbitrary: v) (auto simp: Let_def split_beta)
    then show ?thesis by (simp add: userViewActionsLocked_def)
  qed
  have "slotActive (homes ?w2 h) n = None"
    by (cases "slotActive (homes ?w1 h) n")
      (simp_all add: removeCoordinatorLocked_def Let_def h pruneSubscriptionsLocked_def
        removedHome_active)
  then have "I (updHome h (\<lambda>H. H\<lparr>coordinators := del n (coordinators H)\<rparr>) ?w2)"
    using 2 by (intro V_delSlot)
  then show ?thesis using assms
    by (simp add: expireCoordinator_def Let_def split_beta V_deleteIfUnused I_dispatch
        split: option.split)
qed

end

end
