(* ===== verification/Ownership_Inv.thy ===== *)
theory Ownership_Inv
  imports Home_Contracts
begin

text \<open>
  The ownership invariant over a whole relay: every open home has one owner for each path, topic and
  function, a coordinator that joined has a name, a declaration under construction is a proper map,
  the registry names at most the configured number of homes, each by its identifier, and a session
  has joined the home its verified identity names. The theory proves the laws of the interface \<^term>\<open>home_contract\<close> for it, so that every
  handler, timer and lifecycle operation of the relay keeps it.
\<close>

section \<open>Ownership is kept\<close>

definition owned :: "relay \<Rightarrow> bool" where
  "owned w \<longleftrightarrow>
     (\<forall>h. home_closed (homes w h) \<or> own_ok (homes w h)) \<and>
     (\<forall>c. roleOf (conns w c) = RoleCoordinator \<longrightarrow>
        nameOf (conns w c) \<noteq> []) \<and>
     (\<forall>c st. stage (conns w c) = Some st \<longrightarrow> wf_map (stg_state st)) \<and>
     (\<forall>p \<in> set (registry w). snd p < nhomes w \<and> home_id (homes w (snd p)) = fst p) \<and>
     wf_map (registry w) \<and> int (length (registry w)) \<le> MaxHomes (cfg w) \<and>
     (\<forall>c h. conn_home (conns w c) = Some h \<longrightarrow>
        h < nhomes w \<and> home_id (homes w h) = HomeID (conn_identity (conns w c)))"

lemma ownedD:
  assumes "owned w"
  shows "home_closed (homes w h) \<or> own_ok (homes w h)"
    and "roleOf (conns w c) = RoleCoordinator \<Longrightarrow> nameOf (conns w c) \<noteq> []"
    and "stage (conns w c) = Some st \<Longrightarrow> wf_map (stg_state st)"
    and "p \<in> set (registry w) \<Longrightarrow> snd p < nhomes w \<and> home_id (homes w (snd p)) = fst p"
    and "wf_map (registry w)" "int (length (registry w)) \<le> MaxHomes (cfg w)"
    and "conn_home (conns w c) = Some h \<Longrightarrow>
      h < nhomes w \<and> home_id (homes w h) = HomeID (conn_identity (conns w c))"
  using assms unfolding owned_def by blast+

lemma owned_change:
  assumes "owned w"
    and "\<And>h. home_closed (homes w' h) \<or> own_ok (homes w' h)"
    and "\<And>h. home_id (homes w' h) = home_id (homes w h)"
    and "\<And>c. home_view (conns w' c) = home_view (conns w c)"
    and "registry w' = registry w \<or> (\<exists>k. registry w' = del k (registry w))"
    and "nhomes w' = nhomes w" "cfg w' = cfg w"
  shows "owned w'"
proof -
  have v: "conn_identity (conns w' c) = conn_identity (conns w c)"
    "conn_home (conns w' c) = conn_home (conns w c)" "stage (conns w' c) = stage (conns w c)" for c
    using assms(4) [of c] by (simp_all add: home_view_def)
  have "int (length (del k (registry w))) \<le> MaxHomes (cfg w)" for k
    using ownedD(6) [OF assms(1)] length_delete_le [of k "registry w"] by simp
  then have r: "set (registry w') \<subseteq> set (registry w)" "wf_map (registry w')"
    "int (length (registry w')) \<le> MaxHomes (cfg w)"
    using assms(5) ownedD(5,6) [OF assms(1)] by (auto simp: set_del)
  show ?thesis unfolding owned_def v assms(3,6,7)
    using assms(2) r ownedD [OF assms(1)] by blast
qed

lemma home_coreD:
  assumes "home_core H' = home_core H"
  shows "stateOwners H' = stateOwners H"
    "topicOwners H' = topicOwners H"
    "functionOwners H' = functionOwners H"
    "state H' = state H"
    "home_closed H' = home_closed H"
    "home_id H' = home_id H"
    "epoch H' = epoch H"
    "pathsByName H' = pathsByName H"
    "pathsByID H' = pathsByID H"
    "nextPathID H' = nextPathID H"
    "topicsByName H' = topicsByName H"
    "topicsByID H' = topicsByID H"
    "nextTopicID H' = nextTopicID H"
    "functionsByName H' = functionsByName H"
    "functionsByID H' = functionsByID H"
    "nextFunctionID H' = nextFunctionID H"
proof -
  show "stateOwners H' = stateOwners H" using arg_cong [OF assms, of stateOwners] by (simp add: home_core_def)
  show "topicOwners H' = topicOwners H" using arg_cong [OF assms, of topicOwners] by (simp add: home_core_def)
  show "functionOwners H' = functionOwners H" using arg_cong [OF assms, of functionOwners] by (simp add: home_core_def)
  show "state H' = state H" using arg_cong [OF assms, of state] by (simp add: home_core_def)
  show "home_closed H' = home_closed H" using arg_cong [OF assms, of home_closed] by (simp add: home_core_def)
  show "home_id H' = home_id H" using arg_cong [OF assms, of home_id] by (simp add: home_core_def)
  show "epoch H' = epoch H" using arg_cong [OF assms, of epoch] by (simp add: home_core_def)
  show "pathsByName H' = pathsByName H" using arg_cong [OF assms, of pathsByName] by (simp add: home_core_def)
  show "pathsByID H' = pathsByID H" using arg_cong [OF assms, of pathsByID] by (simp add: home_core_def)
  show "nextPathID H' = nextPathID H" using arg_cong [OF assms, of nextPathID] by (simp add: home_core_def)
  show "topicsByName H' = topicsByName H" using arg_cong [OF assms, of topicsByName] by (simp add: home_core_def)
  show "topicsByID H' = topicsByID H" using arg_cong [OF assms, of topicsByID] by (simp add: home_core_def)
  show "nextTopicID H' = nextTopicID H" using arg_cong [OF assms, of nextTopicID] by (simp add: home_core_def)
  show "functionsByName H' = functionsByName H" using arg_cong [OF assms, of functionsByName] by (simp add: home_core_def)
  show "functionsByID H' = functionsByID H" using arg_cong [OF assms, of functionsByID] by (simp add: home_core_def)
  show "nextFunctionID H' = nextFunctionID H" using arg_cong [OF assms, of nextFunctionID] by (simp add: home_core_def)
qed

lemma same_core_own: "same_core H H' \<Longrightarrow> own_ok H \<Longrightarrow> own_ok H'"
  using home_coreD [of H' H] by (intro own_ok_same [of H H']) (simp_all add: same_core_def)

lemma same_core_id: "same_core H H' \<Longrightarrow> home_id H' = home_id H"
  using home_coreD(6) [of H' H] by (simp add: same_core_def)

lemma same_core_closed: "same_core H H' \<Longrightarrow> home_closed H' = home_closed H"
  using home_coreD(5) [of H' H] by (simp add: same_core_def)

lemma owned_each: "owned w \<Longrightarrow> \<not> home_closed (homes w h) \<Longrightarrow> own_ok (homes w h)"
  using ownedD(1) by blast

lemma owned_home:
  assumes "owned w" "home_closed (k (homes w h)) \<or> own_ok (k (homes w h))"
    and "home_id (k (homes w h)) = home_id (homes w h)"
  shows "owned (updHome h k w)"
  using assms owned_each [OF assms(1)] by (intro owned_change [OF assms(1)]) auto

lemma owned_conn:
  assumes "owned w" "\<And>C. home_view (g C) = home_view C" shows "owned (updConn c g w)"
  using owned_each [OF assms(1)] assms(2) by (intro owned_change [OF assms(1)]) auto

lemma owned_queues: assumes "only_queues w w'" "owned w" shows "owned w'"
  using owned_each [OF assms(2)]
  by (intro owned_change [OF assms(2)])
    (auto simp: only_queues_world [OF assms(1)] only_queues_conn [OF assms(1)] home_view_def)

lemma owned_setStage:
  "owned w \<Longrightarrow> (\<And>st. s = Some st \<Longrightarrow> wf_map (stg_state st)) \<Longrightarrow> owned (setStage s c w)"
  by (simp add: owned_def setStage_def)

text \<open>Reserving identifiers touches no owner.\<close>

definition same_own :: "home \<Rightarrow> home \<Rightarrow> bool" where
  "same_own H H' \<longleftrightarrow>
     coordinators H' = coordinators H \<and> stateOwners H' = stateOwners H \<and>
     topicOwners H' = topicOwners H \<and> functionOwners H' = functionOwners H \<and>
     state H' = state H \<and> home_closed H' = home_closed H \<and> home_id H' = home_id H"

lemma same_own_ok: "same_own H H' \<Longrightarrow> own_ok H \<Longrightarrow> own_ok H'"
  by (rule own_ok_same) (auto simp: same_own_def slotActive_def)

lemma reserve_same:
  "same_own H (snd (reservePathIDLocked n H))" "same_own H (snd (reserveTopicIDLocked n H))"
  "same_own H (snd (reserveFunctionIDLocked n H))"
  by (simp_all add: same_own_def reservePathIDLocked_def reserveTopicIDLocked_def
      reserveFunctionIDLocked_def)

lemma reserveAll_same:
  "(\<And>n H. same_own H (snd (rf n H))) \<Longrightarrow> same_own H (snd (reserveAll rf names H))"
proof (induction names arbitrary: H)
  case (Cons n names)
  from Cons.IH [OF Cons.prems, of "snd (rf n H)"] Cons.prems [of H n] show ?case
    by (simp add: split_beta same_own_def)
qed (simp add: same_own_def)

lemma owned_same: "owned w \<Longrightarrow> same_own (homes w h) H' \<Longrightarrow> owned (updHome h (\<lambda>_. H') w)"
  using owned_each [of w h] same_own_ok [of "homes w h" H']
  by (intro owned_home) (auto simp: same_own_def)

lemma parseEntries_wf:
  "parseEntries item raws m = Some m' \<Longrightarrow> wf_map m \<Longrightarrow> wf_map m'"
  by (induction raws arbitrary: m) (auto split: bind_splits)

lemma parseState_wf: "parseStateSlice raw = Some m \<Longrightarrow> wf_map m"
  by (auto simp: parseStateSlice_def split: bind_splits intro: parseEntries_wf)

lemma activatedHome_id [simp]: "home_id (activatedHome H n st) = home_id H"
  by (simp add: activatedHome_def Let_def claimOwnership_def commitIDs_def releasePrevious_def
      releaseOwnership_def split: option.split)

lemma activateLocked_owned:
  assumes w: "owned w" and slot: "get (coordinators (homes w h)) (nameOf (conns w c)) \<noteq> None"
    and name: "nameOf (conns w c) \<noteq> []" and st: "wf_map (stg_state st)"
  shows "owned (snd (activateLocked P h c r st w))"
proof (cases "validateActivationLocked P w (homes w h) (nameOf (conns w c)) r st (configFromStage st)")
  case None
  let ?H = "homes w h" and ?n = "nameOf (conns w c)" and ?f = "functionSyncOK r st"
  have free: "\<not> list_ex (ownedElsewhere (stateOwners ?H) ?n) (keys (stg_state st))"
    "\<not> list_ex (ownedElsewhere (topicOwners ?H) ?n) (keys (stg_events st))"
    "\<not> list_ex (ownedElsewhere (functionOwners ?H) ?n) (stg_functions st)"
    using None by (auto simp: validateActivationLocked_def split: if_splits)
  obtain ok w1 where e: "enqueue P ?f True c w = (ok, w1)" by (meson surj_pair)
  have q: "only_queues w w1" using only_queues_enqueue [of w P ?f True c] by (simp add: e)
  have 1: "owned w1" using q w by (rule owned_queues)
  have 2: "owned (updHome h (\<lambda>H. activatedHome H ?n st) w1)"
    by (rule owned_home [OF 1])
      (use ownedD(1) [OF w, of h] activation_own_ok [OF _ slot name free st] in
        \<open>auto simp: only_queues_world [OF q] activatedHome_simps\<close>)
  have unstage: "owned (setStage None c v)" if "owned v" for v
    using that by (rule owned_setStage) simp
  have views: "owned (snd (userViewActionsLocked h pv b v))" if "owned v" for pv b v
  proof -
    have "owned (snd (userViewLoop H pv b us v))" if "owned v" for H us
      using that
    proof (induction us arbitrary: v)
      case (Cons p us)
      obtain s d where p: "p = (s, d)" by (cases p)
      have "owned (updConn d (\<lambda>C. C\<lparr>lastStateRevision := revision H\<rparr>) v)"
        using Cons.prems by (rule owned_conn) simp
      then show ?case using Cons by (simp add: p Let_def split_beta)
    qed simp
    with that show ?thesis by (simp add: userViewActionsLocked_def)
  qed
  have prune: "owned (pruneSubscriptionsLocked h v)" if "owned v" for v
  proof -
    have "owned (pruneUsers H us v)" if "owned v" for H us
      using that by (induction us arbitrary: v) (simp_all add: owned_conn)
    with that show ?thesis by (simp add: pruneSubscriptionsLocked_def)
  qed
  have disp: "owned (dispatch P as v)" if "owned v" for as v
    using only_queues_dispatch that by (rule owned_queues)
  show ?thesis
    using 1 2 unstage views prune disp
    by (simp add: activateLocked_def Let_def None e split_beta split: bool.split)
qed (use owned_setStage [OF w, of None] in \<open>simp add: activateLocked_def Let_def\<close>)

lemma owned_enqueue: "owned w \<Longrightarrow> owned (snd (enqueue P f p c w))"
  by (rule owned_queues [OF only_queues_enqueue])

lemma owned_shared:
  assumes "owned w" "\<And>c. home_view (conns w' c) = home_view (conns w c)"
    and "homes w' = homes w" "nhomes w' = nhomes w" "cfg w' = cfg w"
    and "registry w' = registry w \<or> (\<exists>k. registry w' = del k (registry w))"
  shows "owned w'"
  using ownedD(1) [OF assms(1)] assms(2-6) by (intro owned_change [OF assms(1)]) simp_all

lemma owned_bump: "owned w \<Longrightarrow> owned (w\<lparr>nstages := n\<rparr>)"
  by (erule owned_shared) simp_all

lemma owned_ack: "owned w \<Longrightarrow> owned (snd (ackDeclarationLocked P op r p c w))"
  by (simp add: ackDeclarationLocked_def split_beta owned_enqueue split: bool.split)

lemma handleStateSync_owned:
  assumes "owned w" shows "owned (snd (handleStateSync P h c r f w))"
proof -
  let ?w = "updConn c (\<lambda>C. C\<lparr>stage := map_option (\<lambda>st. st\<lparr>stage_timer := False\<rparr>) (stage C)\<rparr>) w"
  have w: "owned ?w"
    using assms by (auto simp: owned_def)
  show ?thesis
  proof (cases "Option.bind (payload_at (Payload f) 1) parseStateSlice")
    case (Some decl)
    then have decl: "wf_map decl" by (auto split: bind_splits dest: parseState_wf)
    obtain ids H1 where r: "reserveAll reservePathIDLocked (keys decl) (homes ?w h) = (ids, H1)"
      by (meson surj_pair)
    have "same_own (homes ?w h) H1"
      using reserveAll_same [where rf = reservePathIDLocked, OF reserve_same(1), of "homes ?w h" "keys decl"] by (simp only: r snd_conv)
    then have 1: "owned (updHome h (\<lambda>_. H1) ?w)" by (rule owned_same [OF w])
    have 2: "owned (setStage (Some (newStage n decl ids)) c
        ((updHome h (\<lambda>_. H1) ?w)\<lparr>nstages := m\<rparr>))" for n m
      using owned_bump [OF 1] by (rule owned_setStage) (simp add: newStage_def decl)
    show ?thesis
      using w 1 owned_enqueue [OF 2] owned_setStage [OF owned_enqueue [OF 2], of None]
      by (simp add: handleStateSync_def Let_def Some r split_beta
          del: updConn_simps updHome_simps One_nat_def split: option.split bool.split)
  qed (use w in \<open>simp add: handleStateSync_def\<close>)
qed

lemma handleEventSync_owned:
  assumes "owned w" "wf_map (stg_state st)"
  shows "owned (snd (handleEventSync P h c r st f w))"
proof (cases "Option.bind (payload_at (Payload f) 1) parseEventSlice")
  case (Some decl)
  obtain ids H1 where r: "reserveAll reserveTopicIDLocked (keys decl) (homes w h) = (ids, H1)"
    by (meson surj_pair)
  have "same_own (homes w h) H1"
    using reserveAll_same [where rf = reserveTopicIDLocked, OF reserve_same(2), of "homes w h" "keys decl"] by (simp only: r snd_conv)
  then have 1: "owned (updHome h (\<lambda>_. H1) w)" by (rule owned_same [OF assms(1)])
  have 2: "owned (setStage (Some (st\<lparr>stg_events := decl, topicIDs := ids,
      expected := OpcodeEventACLSync\<rparr>)) c (updHome h (\<lambda>_. H1) w))"
    using 1 by (rule owned_setStage) (auto simp: assms(2))
  show ?thesis
    using owned_enqueue [OF 2] owned_setStage [OF 2, of None]
    by (simp add: handleEventSync_def Let_def Some r split_beta del: updHome_simps One_nat_def
        split: option.split bool.split)
qed (use assms in \<open>simp add: handleEventSync_def\<close>)

lemma handleFunctionSync_owned:
  assumes "owned w" "wf_map (stg_state st)" "nameOf (conns w c) \<noteq> []"
    and "get (coordinators (homes w h)) (nameOf (conns w c)) \<noteq> None"
  shows "owned (snd (handleFunctionSync P h c r st f w))"
proof (cases "Option.bind (payload_at (Payload f) 1) parseFunctionSlice")
  case (Some decl)
  obtain ids H1 where r: "reserveAll reserveFunctionIDLocked decl (homes w h) = (ids, H1)"
    by (meson surj_pair)
  have s: "same_own (homes w h) H1"
    using reserveAll_same [where rf = reserveFunctionIDLocked, OF reserve_same(3), of "homes w h" decl] by (simp only: r snd_conv)
  let ?st = "st\<lparr>stg_functions := decl, functionIDs := ids\<rparr>"
  let ?w = "setStage (Some ?st) c (updHome h (\<lambda>_. H1) w)"
  have "owned (updHome h (\<lambda>_. H1) w)" using assms(1) s by (rule owned_same)
  then have w: "owned ?w" by (rule owned_setStage) (auto simp: assms(2))
  have "owned (snd (activateLocked P h c r ?st ?w))"
    by (rule activateLocked_owned [OF w])
      (use assms(2-4) s in \<open>simp_all add: setStage_def same_own_def\<close>)
  then show ?thesis by (simp add: handleFunctionSync_def Let_def Some r del: One_nat_def)
qed (use assms in \<open>simp add: handleFunctionSync_def\<close>)

lemma activeCoordinator_slot:
  "activeCoordinatorLocked w h c b = None \<Longrightarrow> get (coordinators (homes w h)) (nameOf (conns w c)) \<noteq> None"
  by (auto simp: activeCoordinatorLocked_def split: option.splits)

lemma declaration_owned:
  assumes "owned w" "conn_home (conns w c) = Some h"
  shows "owned (snd (handleDeclaration P h c f w))"
proof -
  have unstage: "owned (setStage None c w)" using assms(1) by (rule owned_setStage) simp
  have restage: "owned (snd (ackDeclarationLocked P op r p c (setStage (Some st') c w)))"
    if "stage (conns w c) = Some st" "stg_state st' = stg_state st" for op r p st st'
    using ownedD(3) [OF assms(1) that(1)] that(2)
    by (intro owned_ack owned_setStage [OF assms(1)]) auto
  have name: "nameOf (conns w c) \<noteq> []" if "roleOf (conns w c) = RoleCoordinator"
    using ownedD(2) [OF assms(1), of c] that by simp
  show ?thesis
    using assms(1) unstage name restage handleStateSync_owned [OF assms(1)]
      handleEventSync_owned [OF assms(1) ownedD(3) [OF assms(1)]]
      handleFunctionSync_owned [OF assms(1) ownedD(3) [OF assms(1)]] activeCoordinator_slot
    by (simp add: handleDeclaration_def split: option.split)
qed

lemma owned_setRevisions: "owned w \<Longrightarrow> owned (setRevisions rv acts w)"
  by (induction acts arbitrary: w) (simp_all add: owned_conn)

lemma applyStateSet_owned:
  assumes "owned w" shows "owned (snd (applyStateSet P h c f w))"
proof -
  obtain out w' where a: "applyStateSet P h c f w = (out, w')" by (meson surj_pair)
  from a have "owned w'"
  proof (cases rule: applyStateSet_cases)
    case (committed requestID ms cf paths changes)
    from committed(7) show ?thesis
    proof (cases rule: commit_cases)
      case (applied w1 acts)
      let ?n = "nameOf (conns w c)" and ?H = "homes w h"
      have mine: "fst ` set changes \<subseteq> set (ownedState cf)"
        using resolveMutations_ok [OF committed(5)] decodeMutations_paths [OF committed(6)]
        by (metis set_map subsetI)
      have 1: "owned w1" using owned_enqueue [OF assms, of P "stateSetOK requestID ?H" True c]
        by (simp add: applied(2))
      have h: "homes w1 h = ?H"
        using enqueue_frame(6) [of P "stateSetOK requestID ?H" True c w] by (simp add: applied(2))
      have 2: "owned (updHome h (mutatedHome ?n changes) w1)"
        by (rule owned_home [OF 1])
          (use ownedD(1) [OF assms, of h] mutation_own_ok [OF _ committed(4) mine] in
            \<open>auto simp: h mutatedHome_def\<close>)
      have 3: "owned (setRevisions rv acts (updHome h (mutatedHome ?n changes) w1))" for rv
        using 2 by (rule owned_setRevisions)
      show ?thesis unfolding applied(4) by (rule owned_queues [OF only_queues_dispatch 3])
    qed (use owned_queues [OF _ assms] in blast)
  qed (use assms in simp)
  then show ?thesis by (simp add: a)
qed

interpretation own_inv: home_contract P owned for P
proof unfold_locales
  show "owned (updHome h k w)" if "owned w" "same_core (homes w h) (k (homes w h))" for w h k
    by (rule owned_home [OF that(1)])
      (use ownedD(1) [OF that(1), of h] same_core_own [OF that(2)] same_core_closed [OF that(2)]
        same_core_id [OF that(2)] in auto)
  show "owned (updHome h (removedHome n cf) w)" if "owned w" "slotActive (homes w h) n = Some cf"
    for w h n cf
    by (rule owned_home [OF that(1)])
      (use ownedD(1) [OF that(1), of h] removal_own_ok [OF _ that(2)] in
        \<open>auto simp: removedHome_def Let_def releaseOwnership_def\<close>)
  show "owned (w\<lparr>homes := (homes w)(nhomes w := (newHome e i)\<lparr>references := 1\<rparr>),
      nhomes := nhomes w + 1, registry := put i (nhomes w) (registry w)\<rparr>)"
    if w: "owned w" and i: "get (registry w) i = None"
      and room: "int (length (registry w)) < MaxHomes (cfg w)" for w e i
  proof -
    have new: "own_ok ((newHome e i)\<lparr>references := 1\<rparr>)"
      by (rule own_ok_same [OF own_ok_newHome [of e i]]) (simp_all add: slotActive_def)
    have "int (length (put i (nhomes w) (registry w))) \<le> MaxHomes (cfg w)"
      using room i by (simp add: length_put get_None_keys)
    moreover have "snd p < Suc (nhomes w) \<and>
        home_id (((homes w)(nhomes w := (newHome e i)\<lparr>references := 1\<rparr>)) (snd p)) = fst p"
      if "p \<in> set (put i (nhomes w) (registry w))" for p
      using that set_put_subset [of i "nhomes w" "registry w"] ownedD(4) [OF w, of p]
      by (auto simp: newHome_def)
    ultimately show ?thesis
      using ownedD [OF w] new unfolding owned_def by force
  qed
  show "owned (updConn c (\<lambda>C. C\<lparr>conn_identity := ident\<rparr>) w)"
    if "owned w" "conn_home (conns w c) = None"
      "Role ident = RoleCoordinator \<longrightarrow> CoordinatorName ident \<noteq> []" for w c ident
    using that(2,3) ownedD [OF that(1)] by (auto simp: owned_def)
  show "owned (updConn c (\<lambda>C. C\<lparr>conn_home := Some h, phase := phaseActive\<rparr>) w)"
    if "owned w" "h < nhomes w" "home_id (homes w h) = HomeID (conn_identity (conns w c))" for w c h
    using that(2,3) ownedD [OF that(1)] by (auto simp: owned_def)
  show "h < nhomes w \<and> home_id (homes w h) = name"
    if "owned w" "get (registry w) name = Some h" for w name h
    using ownedD(4) [OF that(1), of "(name, h)"] map_of_SomeD [OF that(2)] by simp
  show "owned w'" if "owned w" "\<And>c. home_view (conns w' c) = home_view (conns w c)"
    "homes w' = homes w" "nhomes w' = nhomes w" "cfg w' = cfg w"
    "registry w' = registry w \<or> (\<exists>k. registry w' = del k (registry w))" for w w'
    using that by (rule owned_shared)
  show "owned (setStage None c w)" if "owned w" for w c
    using that by (rule owned_setStage) simp
qed (auto simp: owned_conn owned_setStage declaration_owned applyStateSet_owned
    intro: owned_queues [OF only_queues_enqueueMessage] owned_queues [OF only_queues_fail]
      owned_queues [OF only_queues_stop] owned_home
    elim: owned_change)

end
