(* ===== verification/Relay_Steps.thy ===== *)
theory Relay_Steps
  imports Ownership_Inv
begin

text \<open>
  The relay as a transition system. Every step is one operation of one goroutine: a request, a
  message of one session, one round of its writer, a timer, or a call of the process. The
  goroutines interleave as the scheduler likes, so a run is any sequence of steps.

  Four invariants hold in every reachable state: the budget of queued bytes, the call table, the
  limits of admission and the ownership of paths, topics and functions. Each is proved once per
  contract it satisfies.
\<close>

section \<open>Steps\<close>

text \<open>The codec's HELLO of a coordinator carries a name that is not empty.\<close>

definition named_hello :: "inbound \<Rightarrow> bool" where
  "named_hello m \<longleftrightarrow>
     (case m of Decoded f \<Rightarrow>
        (case helloRequest f of
           Some (Inr q) \<Rightarrow> req_Role q = RoleCoordinator \<longrightarrow> req_CoordinatorName q \<noteq> []
         | _ \<Rightarrow> True)
      | _ \<Rightarrow> True)"

text \<open>A connection is allocated at an address nothing has written to.\<close>

definition untouched :: "relay \<Rightarrow> nat \<Rightarrow> bool" where
  "untouched w c \<longleftrightarrow> conns w c = newConnection 0"

text \<open>
  An authentication, or a reauthentication, runs while the verifier works; what it does to the
  relay it does when the answer arrives. \<open>hello\<close> and \<open>reauthenticated\<close> are that moment, for any
  answer and any earlier reading of the lease.
\<close>

inductive relay_step :: "protocol \<Rightarrow> netlib \<Rightarrow> relay \<Rightarrow> relay \<Rightarrow> bool" for P N where
  time_passes: "clock w \<le> t \<Longrightarrow> relay_step P N w (w\<lparr>clock := t\<rparr>)"
| request_arrives: "relay_step P N w (snd (ServeHTTP N q w))"
| upgrade_fails: "token \<in> set (upgrades w) \<Longrightarrow> relay_step P N w (abandonUpgrade token w)"
| session_opens: "token \<in> set (upgrades w) \<Longrightarrow> untouched w (nconns w) \<Longrightarrow>
    relay_step P N w (snd (openSession token w))"
| hello: "conn_home (conns w c) = None \<Longrightarrow> named_hello m \<Longrightarrow>
    relay_step P N w (snd (helloStep P verify random c m w))"
| reads: "relay_step P N w (snd (readStep P verify received c m w))"
| reauthenticated: "relay_step P N w
    (snd (answer P claimed c f (completeReauth P requestID q previous verdict c w)))"
| writes: "relay_step P N w (writeStep written c w)"
| lease_timer: "relay_step P N w (expireLease P g c w)"
| stage_timer: "relay_step P N w (expireStage P ref c w)"
| call_timer: "relay_step P N w (expireCall P r w)"
| grace_timer: "relay_step P N w (expireCoordinator P h name gen w)"
| ping_fails: "relay_step P N w (pingTimeout c w)"
| fail_detaches: "detaching (conns w c) \<Longrightarrow> relay_step P N w (detach P c w)"
| run_ends: "relay_step P N w (endRun P c w)"
| write_times_out: "relay_step P N w (writeTimeout c w)"
| session_closes: "relay_step P N w (closeSession c w)"
| drains: "relay_step P N w (Drain P retryAfterMs reasonCode w)"
| drain_window: "relay_step P N w (drainWindowEnds w)"
| closes: "relay_step P N w (Close w)"

text \<open>The states a relay constructed by \<open>New\<close> can reach.\<close>

inductive reachable_from :: "protocol \<Rightarrow> netlib \<Rightarrow> relay \<Rightarrow> relay \<Rightarrow> bool" for P N w0 where
  start: "reachable_from P N w0 w0"
| next_step: "reachable_from P N w0 w \<Longrightarrow> relay_step P N w w' \<Longrightarrow> reachable_from P N w0 w'"

inductive_cases relay_stepE: "relay_step P N w w'"

lemma reachable_induct:
  assumes "reachable_from P N w0 w" "I w0" "\<And>w w'. I w \<Longrightarrow> relay_step P N w w' \<Longrightarrow> I w'"
  shows "I w"
  using assms by (induction rule: reachable_from.induct) auto

section \<open>Invariants of the traffic\<close>

text \<open>A predicate on queues, budget and calls is blind to the rest of the process state.\<close>

definition same_traffic :: "connection \<Rightarrow> connection \<Rightarrow> bool" where
  "same_traffic C C' \<longleftrightarrow> same_queue C C' \<and> calls C' = calls C \<and> nextCallID C' = nextCallID C \<and>
     set (requestIDs C) \<subseteq> set (requestIDs C') \<and> (drainOnce C \<longrightarrow> drainOnce C')"

lemma same_traffic_refl [simp]: "same_traffic C C"
  by (simp add: same_traffic_def same_queue_def)

text \<open>The steps at the door: a request is admitted or refused, its upgrade fails or opens a session, a
  session closes.\<close>

definition door_step :: "netlib \<Rightarrow> relay \<Rightarrow> relay \<Rightarrow> bool" where
  "door_step N w w' \<longleftrightarrow>
     (\<exists>q. w' = snd (ServeHTTP N q w)) \<or>
     (\<exists>token \<in> set (upgrades w). w' = abandonUpgrade token w) \<or>
     (\<exists>token \<in> set (upgrades w). untouched w (nconns w) \<and> w' = snd (openSession token w)) \<or>
     (\<exists>c. w' = closeSession c w)"

locale traffic_contract = call_contract +
  assumes I_world: "I w \<Longrightarrow> cfg w' = cfg w \<Longrightarrow> admission w' = admission w \<Longrightarrow>
      nconns w' = nconns w \<Longrightarrow> live w' = live w \<Longrightarrow> upgrades w' = upgrades w \<Longrightarrow> serving w' = serving w \<Longrightarrow>
      routes w' = routes w \<Longrightarrow> nroutes w' = nroutes w \<Longrightarrow>
      (\<And>c. same_traffic (conns w c) (conns w' c)) \<Longrightarrow> I w'"
begin

lemma I_traffic: "I w \<Longrightarrow> (\<And>C. same_traffic C (g C)) \<Longrightarrow> I (updConn c g w)"
  by (erule I_world) simp_all

lemma I_startDraining: "I w \<Longrightarrow> I (startDraining P a b c w)"
  by (simp add: startDraining_def Let_def split_beta I_enqueue I_traffic same_traffic_def
      same_queue_def split: bool.split)

lemma I_drainAll: "I w \<Longrightarrow> I (drainAll P a b cs w)"
  by (induction cs arbitrary: w) (simp_all add: I_startDraining)

lemma I_Drain: "I w \<Longrightarrow> I (Drain P a b w)"
proof -
  assume "I w"
  then have "I (w\<lparr>draining := True, drainRetryAfterMs := a, drainReasonCode := b\<rparr>)"
    by (rule I_world) (simp_all add: same_traffic_def same_queue_def)
  with \<open>I w\<close> show ?thesis by (simp add: Drain_def I_drainAll)
qed

lemma I_drainWindow: "I w \<Longrightarrow> I (drainWindowEnds w)"
  by (simp add: drainWindowEnds_def I_stopAll)

lemma I_Close: "I w \<Longrightarrow> I (Close w)"
proof -
  assume "I w"
  then have "I (w\<lparr>closed := True, conns := (\<lambda>c. (conns w c)\<lparr>cancelled := True\<rparr>)\<rparr>)"
    by (rule I_world) (simp_all add: same_traffic_def same_queue_def)
  with \<open>I w\<close> show ?thesis by (simp add: Close_def I_closeRegistry)
qed

lemma I_authentication: "I w \<Longrightarrow> I (snd (completeAuthentication P random q verdict c w))"
  by (simp add: completeAuthentication_def Let_def split_beta I_traffic same_traffic_def same_queue_def
      I_acquire I_attach I_startDraining split: sum.split option.split acquireError.split)

lemma I_hello: "I w \<Longrightarrow> I (snd (helloStep P verify random c m w))"
  by (simp add: helloStep_def split_beta I_stop I_fail I_authentication
      split: inbound.split option.split sum.split)

text \<open>Every step is one at the door, a round of a writer, or kept.\<close>

lemma I_inner:
  "relay_step P N w w' \<Longrightarrow> I w \<Longrightarrow> door_step N w w' \<or> (\<exists>b c. w' = writeStep b c w) \<or> I w'"
proof (induction rule: relay_step.induct)
  case (time_passes w t)
  from time_passes.prems have "I (w\<lparr>clock := t\<rparr>)" by (rule I_world) simp_all
  then show ?case by blast
next
  case (request_arrives q w)
  then show ?case by (auto simp: door_step_def)
next
  case (upgrade_fails token w)
  then show ?case by (auto simp: door_step_def)
next
  case (session_opens token w)
  then show ?case by (auto simp: door_step_def)
next
  case (session_closes w c)
  then show ?case by (auto simp: door_step_def)
next
  case (writes w b c)
  then show ?case by blast
qed (simp_all add: I_hello I_readStep I_answer I_completeReauth I_expireLease I_expireStage
    I_expireCall I_expireCoordinator I_stop pingTimeout_def writeTimeout_def I_detach I_endRun
    I_Drain I_drainWindow I_Close)

end

text \<open>A predicate that is blind to who is at the door, and that the admission of a connection and its
  release keep.\<close>

locale door_contract = traffic_contract +
  assumes I_door: "I w \<Longrightarrow> I (w\<lparr>nconns := n, live := l, upgrades := us, serving := ss\<rparr>)"
    and I_acquired: "I w \<Longrightarrow>
      I (w\<lparr>admission := snd (acquireConnection (cfg w) N t remote (admission w))\<rparr>)"
    and I_released: "I w \<Longrightarrow> I (w\<lparr>admission := releaseConnection t source (admission w)\<rparr>)"
begin

lemma I_passed: "I w \<Longrightarrow> cfg w' = cfg w \<Longrightarrow> admission w' = admission w \<Longrightarrow>
    routes w' = routes w \<Longrightarrow> nroutes w' = nroutes w \<Longrightarrow>
    (\<And>c. same_traffic (conns w c) (conns w' c)) \<Longrightarrow> I w'"
  by (rule I_world [OF I_door [where n = "nconns w'" and l = "live w'" and us = "upgrades w'" and ss = "serving w'"]])
    simp_all

lemma I_release: "I w \<Longrightarrow> I (w\<lparr>admission := snd (release t (token, admission w))\<rparr>)"
  using I_released by (simp add: release_def)

lemma I_serve: "I w \<Longrightarrow> I (snd (ServeHTTP N q w))"
proof -
  assume "I w"
  obtain r A where a: "acquireConnection (cfg w) N (clock w) (RemoteAddr q) (admission w) = (r, A)"
    by (meson surj_pair)
  have A: "I (w\<lparr>admission := A\<rparr>)"
    using I_acquired [OF \<open>I w\<close>, of N "clock w" "RemoteAddr q"] by (simp add: a)
  have R: "I (w\<lparr>admission := snd (release t (token, A))\<rparr>)" for t token
    using I_release [OF A] by simp
  have "I (w\<lparr>admission := A, upgrades := us\<rparr>)" for us by (rule I_passed [OF A]) simp_all
  with A R \<open>I w\<close> show ?thesis
    by (simp add: ServeHTTP_def serveWebSocket_def Let_def a split: sum.split)
qed

lemma I_abandon: "I w \<Longrightarrow> I (abandonUpgrade token w)"
proof -
  assume "I w"
  then have "I (w\<lparr>admission := snd (release (clock w) (token, admission w))\<rparr>)" by (rule I_release)
  then show ?thesis unfolding abandonUpgrade_def by (rule I_passed) simp_all
qed

lemma I_openSession: "I w \<Longrightarrow> untouched w (nconns w) \<Longrightarrow> I (snd (openSession token w))"
proof -
  assume w: "I w" "untouched w (nconns w)"
  have s: "I (w\<lparr>nextSession := s\<rparr>)" for s by (rule I_passed [OF w(1)]) simp_all
  have c: "I (w\<lparr>nextSession := s, conns := (conns w)(nconns w := (newConnection i)\<lparr>cancelled := b\<rparr>),
      nconns := n\<rparr>)" for s n i b
    using w(2) by (intro I_passed [OF w(1)])
      (simp_all add: untouched_def newConnection_def same_traffic_def same_queue_def)
  have "I (w\<lparr>nextSession := s, conns := (conns w)(nconns w := (newConnection i)\<lparr>cancelled := b\<rparr>),
      nconns := n, live := l, upgrades := us, serving := ss\<rparr>)" for s n i b l us ss
    by (rule I_passed [OF c [where s = s and i = i and b = b and n = n]]) simp_all
  with I_abandon [OF s] I_abandon [OF c] show ?thesis
    by (simp add: openSession_def allocateSessionID_def makeConnection_def trackConnection_def
        Let_def split_beta split: option.split bool.split)
qed

lemma I_closeSession: "I w \<Longrightarrow> I (closeSession c w)"
proof -
  assume w: "I w"
  have "I ((forgetConnection c w)\<lparr>serving := ss\<rparr>)" for ss
    by (rule I_passed [OF w]) (simp_all add: forgetConnection_def)
  from I_release [OF this] w show ?thesis
    by (simp add: closeSession_def Let_def split: option.split)
qed

lemma I_at_door: "door_step N w w' \<Longrightarrow> I w \<Longrightarrow> I w'"
  by (auto simp: door_step_def I_serve I_abandon I_openSession I_closeSession)

lemma I_step_or_write: "relay_step P N w w' \<Longrightarrow> I w \<Longrightarrow> I w' \<or> (\<exists>b c. w' = writeStep b c w)"
  using I_inner I_at_door by blast

end

locale system_contract = door_contract +
  assumes I_write: "I w \<Longrightarrow> I (writeStep b c w)"
begin

lemma I_step: "relay_step P N w w' \<Longrightarrow> I w \<Longrightarrow> I w'"
  using I_step_or_write I_write by blast

lemma I_reachable: "reachable_from P N w0 w \<Longrightarrow> I w0 \<Longrightarrow> I w"
  by (rule reachable_induct) (auto intro: I_step)

end

section \<open>Invariants of the homes\<close>

context home_contract
begin

lemma V_world: "I w \<Longrightarrow> conns w' = conns w \<Longrightarrow> homes w' = homes w \<Longrightarrow> nhomes w' = nhomes w \<Longrightarrow>
    cfg w' = cfg w \<Longrightarrow> registry w' = registry w \<Longrightarrow> I w'"
  by (erule V_shared) simp_all

lemma V_Drain: "I w \<Longrightarrow> I (Drain P a b w)"
proof -
  assume "I w"
  then have "I (w\<lparr>draining := True, drainRetryAfterMs := a, drainReasonCode := b\<rparr>)"
    by (rule V_world) simp_all
  with \<open>I w\<close> show ?thesis by (simp add: Drain_def V_drainAll)
qed

lemma V_Close: "I w \<Longrightarrow> I (Close w)"
proof -
  assume "I w"
  then have "I (w\<lparr>closed := True, conns := (\<lambda>c. (conns w c)\<lparr>cancelled := True\<rparr>)\<rparr>)"
    by (rule V_shared) (simp_all add: home_view_def)
  with \<open>I w\<close> show ?thesis by (simp add: Close_def V_closeRegistry)
qed

lemma V_openSession: "I w \<Longrightarrow> untouched w (nconns w) \<Longrightarrow> I (snd (openSession token w))"
  by (erule V_shared)
    (simp_all add: openSession_def allocateSessionID_def makeConnection_def trackConnection_def
      abandonUpgrade_def Let_def split_beta home_view_def untouched_def newConnection_def
      split: option.split bool.split)

lemma V_abandon: "I w \<Longrightarrow> I (abandonUpgrade token w)"
  by (erule V_world) (simp_all add: abandonUpgrade_def)

lemma V_hello: "I w \<Longrightarrow> conn_home (conns w c) = None \<Longrightarrow> named_hello m \<Longrightarrow>
    I (snd (helloStep P verify random c m w))"
  by (cases m) (auto simp: helloStep_def named_hello_def split_beta I_stop
      split: option.split sum.split intro!: I_fail V_authentication)

lemma V_write: "I w \<Longrightarrow> I (writeStep b c w)"
proof -
  assume w: "I w"
  have popped: "I (snd (nextMessage c w))"
    using w by (rule V_shared) (simp_all add: nextMessage_def refund_def home_view_def split: list.split)
  have endr: "I (endRequest r c v)" if "I v" for r v
    using that by (simp add: endRequest_def V_conn)
  show ?thesis using popped
    by (simp add: writeStep_def Let_def split_beta I_stop endr split: option.split)
qed

lemma V_serve: "I w \<Longrightarrow> I (snd (ServeHTTP N q w))"
  by (erule V_world)
    (simp_all add: ServeHTTP_def serveWebSocket_def Let_def split_beta split: sum.split)

lemma V_closeSession: "I w \<Longrightarrow> I (closeSession c w)"
  by (erule V_world)
    (simp_all add: closeSession_def forgetConnection_def Let_def split: option.split)

lemma V_step: "relay_step P N w w' \<Longrightarrow> I w \<Longrightarrow> I w'"
proof (induction rule: relay_step.induct)
  case (time_passes w t)
  from time_passes.prems show ?case by (rule V_world) simp_all
qed (simp_all add: V_serve V_openSession V_hello V_readStep V_answer V_completeReauth V_write
    V_expireLease V_expireStage V_expireCall V_expireCoordinator I_stop pingTimeout_def writeTimeout_def V_abandon V_detach
    V_endRun V_closeSession V_Drain drainWindowEnds_def V_stopAll V_Close)

lemma V_reachable: "reachable_from P N w0 w \<Longrightarrow> I w0 \<Longrightarrow> I w"
  by (rule reachable_induct) (auto intro: V_step)

end

section \<open>The invariants of the relay\<close>

lemma releaseConnection_bytes [simp]:
  "adm_queuedBytes (releaseConnection t s A) = adm_queuedBytes A"
  by (simp add: releaseConnection_def Let_def setSource_def split: option.split)

lemma trackSource_bytes: "adm_queuedBytes (snd (trackSource cf t s A)) = adm_queuedBytes A"
  by (simp add: trackSource_def pruneSourcesLocked_def Let_def split: option.split)

lemma acquireConnection_bytes [simp]:
  "adm_queuedBytes (snd (acquireConnection cf N t remote A)) = adm_queuedBytes A"
  using trackSource_bytes [of cf t _ A]
  by (simp add: acquireConnection_def Let_def setSource_def split_beta split: sum.split option.split)

lemma queues_ok_world:
  assumes "queues_ok P w" "cfg w' = cfg w"
    and "adm_queuedBytes (admission w') = adm_queuedBytes (admission w)"
    and "\<And>c. same_queue (conns w c) (conns w' c)"
  shows "queues_ok P w'"
proof -
  have q: "queue (conns w' c) = queue (conns w c)"
    "queuedBytes (conns w' c) = queuedBytes (conns w c)"
    "queueClosed (conns w' c) = queueClosed (conns w c)"
    "closeQueued (conns w' c) = closeQueued (conns w c)" for c
    using assms(4) [of c] by (simp_all add: same_queue_def)
  show ?thesis using assms(1)
    unfolding queues_ok_def bytes_accounted_def conn_queue_ok_def q assms(2,3) .
qed

interpretation queue_system: system_contract P "queues_ok P" for P
proof unfold_locales
  show "queues_ok P w'" if "queues_ok P w" "cfg w' = cfg w" "admission w' = admission w"
    "\<And>c. same_traffic (conns w c) (conns w' c)" for w w'
    using that by (intro queues_ok_world [OF that(1)]) (simp_all add: same_traffic_def)
  show "queues_ok P (w\<lparr>nconns := n, live := l, upgrades := us, serving := ss\<rparr>)" if "queues_ok P w" for w n l us ss
    using that by (rule queues_ok_world) (simp_all add: same_queue_def)
  show "queues_ok P (w\<lparr>admission := snd (acquireConnection (cfg w) N t remote (admission w))\<rparr>)"
    if "queues_ok P w" for w N t remote
    using that by (rule queues_ok_world) (simp_all add: same_queue_def)
  show "queues_ok P (w\<lparr>admission := releaseConnection t source (admission w)\<rparr>)"
    if "queues_ok P w" for w t source
    using that by (rule queues_ok_world) (simp_all add: same_queue_def)
qed (rule writeStep_queues)

lemma writeStep_calls [simp]:
  "routes (writeStep b c w) = routes w" "nroutes (writeStep b c w) = nroutes w"
  "calls (conns (writeStep b c w) d) = calls (conns w d)"
  "nextCallID (conns (writeStep b c w) d) = nextCallID (conns w d)"
  by (simp_all add: writeStep_def nextMessage_def endRequest_def refund_def Let_def
      only_queues_world [OF only_queues_stop] only_queues_conn [OF only_queues_stop]
      split: list.split option.split)

interpretation call_system: system_contract P "call_table P" for P
proof unfold_locales
  show "call_table P w'" if "call_table P w" "routes w' = routes w" "nroutes w' = nroutes w"
    "\<And>c. same_traffic (conns w c) (conns w' c)" for w w'
    using that by (intro call_table_same [OF that(1)]) (simp_all add: same_traffic_def)
  show "call_table P (w\<lparr>nconns := n, live := l, upgrades := us, serving := ss\<rparr>)" if "call_table P w" for w n l us ss
    using that by (rule call_table_same) simp_all
  show "call_table P (w\<lparr>admission := A\<rparr>)" if "call_table P w" for w A
    using that by (rule call_table_same) simp_all
  show "call_table P (w\<lparr>admission := A\<rparr>)" if "call_table P w" for w A
    using that by (rule call_table_same) simp_all
  show "call_table P (writeStep b c w)" if "call_table P w" for w b c
    using that by (rule call_table_same) simp_all
qed

section \<open>Predicates that are blind to queues\<close>

text \<open>A predicate on the process state that no update of a connection touches, and that keeps when
  bytes are reserved and released, is kept by the outbound operations.\<close>

locale budget_contract =
  fixes I :: "relay \<Rightarrow> bool"
  assumes B_conn: "I w \<Longrightarrow> I (updConn c g w)"
    and B_refund: "I w \<Longrightarrow> I (refund n w)"
    and B_reserve: "reserveQueuedBytes (cfg w) n (admission w) = (b, A) \<Longrightarrow> I w \<Longrightarrow>
      I (w\<lparr>admission := A\<rparr>)"
begin

lemma B_stop: "I w \<Longrightarrow> I (stop s r c w)"
  by (simp add: stop_def Let_def stopLease_def B_conn B_refund)

lemma B_enqueueBytes: "I w \<Longrightarrow> I (snd (enqueueBytes m p c w))"
proof -
  assume "I w"
  define w1 where "w1 = (if p then evictStreamsLocked (msg_len m) c w else w)"
  have 1: "I w1"
    using \<open>I w\<close> by (simp add: w1_def evictStreamsLocked_def Let_def split_beta B_refund B_conn)
  show ?thesis
    using \<open>I w\<close> 1 B_conn [OF B_reserve [OF surjective_pairing 1]]
    by (simp add: enqueueBytes_def Let_def split_beta split: bool.split flip: w1_def)
qed

lemma B_makeRoom: "I w \<Longrightarrow> I (snd (failMakeRoom m c w))"
proof -
  assume "I w"
  define w1 where "w1 = refund (queuedBytes (conns w c))
      (updConn c (\<lambda>C. C\<lparr>queue := [], queuedBytes := 0\<rparr>) w)"
  have 1: "I w1" unfolding w1_def using \<open>I w\<close> by (intro B_refund B_conn)
  show ?thesis
    using \<open>I w\<close> 1 B_conn [OF B_reserve [OF surjective_pairing 1]]
    by (simp add: failMakeRoom_def Let_def split_beta B_conn split: bool.split flip: w1_def)
qed

lemma B_fail: "I w \<Longrightarrow> I (fail P op e c w)"
  by (simp add: fail_def Let_def split_beta B_stop B_enqueueBytes B_makeRoom B_conn
      split: option.split bool.split)

lemma B_message: "I w \<Longrightarrow> I (snd (enqueueMessage P f m p c w))"
  by (simp add: enqueueMessage_def split_beta B_stop B_enqueueBytes B_fail
      split: option.split bool.split)

lemma B_write: "I w \<Longrightarrow> I (writeStep b c w)"
  by (simp add: writeStep_def nextMessage_def endRequest_def Let_def B_stop B_refund B_conn
      split: list.split option.split)

end

sublocale budget_contract \<subseteq> outbound_contract P I for P
  by unfold_locales (auto intro: B_message B_fail B_stop)

text \<open>The admission controller inside the relay.\<close>

definition admitted :: "relay \<Rightarrow> bool" where
  "admitted w \<longleftrightarrow> admission_ok (cfg w) (admission w)"

interpretation admission_budget: budget_contract admitted
proof unfold_locales
  show "admitted (updConn c g w)" if "admitted w" for w c g using that by (simp add: admitted_def)
  show "admitted (refund n w)" if "admitted w" for w n
    using that by (simp add: admitted_def refund_def admission_ok_def releaseBytes_inv)
  show "admitted (w\<lparr>admission := A\<rparr>)"
    if "reserveQueuedBytes (cfg w) n (admission w) = (b, A)" "admitted w" for w n b A
    using that reserve_inv [of "cfg w" "admission w" n] by (simp add: admitted_def admission_ok_def)
qed

interpretation admission_relay: relay_invariant P admitted for P
  by unfold_locales (simp_all add: admitted_def)

interpretation admission_system: system_contract P admitted for P
proof unfold_locales
  show "admitted (w\<lparr>admission := snd (acquireConnection (cfg w) N t remote (admission w))\<rparr>)"
    if "admitted w" for w N t remote
    using that by (simp add: admitted_def admission_ok_def acquire_inv)
  show "admitted (w\<lparr>admission := releaseConnection t source (admission w)\<rparr>)"
    if "admitted w" for w t source
    using that by (simp add: admitted_def admission_ok_def releaseConnection_inv)
  show "admitted (writeStep b c w)" if "admitted w" for w b c
    using that by (rule admission_budget.B_write)
qed (simp_all add: admitted_def)

section \<open>The start\<close>

lemma new_relay_ok:
  assumes "codec_bounded P" "config_ok P configuration"
  shows "queues_ok P (newRelay configuration seed)"
  using assms
  by (auto simp: queues_ok_def newRelay_def newConnection_def conn_queue_ok_def bytes_accounted_def
      newAdmissionController_def config_ok_def codec_bounded_def)

lemma new_relay_calls: "call_table P (newRelay configuration seed)"
  by (simp add: call_table_def table_ok_def table_sound_def table_complete_def table_bounded_def
      all_accepted_def newRelay_def newConnection_def)

lemma new_relay_owned: "config_ok P configuration \<Longrightarrow> owned (newRelay configuration seed)"
  using own_ok_newHome [of "[]" "[]"]
  by (simp add: owned_def newRelay_def newConnection_def noIdentity_def config_ok_def)

lemma new_relay_admitted:
  "codec_bounded P \<Longrightarrow> config_ok P configuration \<Longrightarrow> admitted (newRelay configuration seed)"
  using admission_inv_new [of P configuration]
  by (simp add: admitted_def newRelay_def admission_ok_def codec_bounded_def config_ok_def)

end
