(* ===== verification/Call_Props.thy ===== *)
theory Call_Props
  imports Relay_Steps
begin

text \<open>
  What a call goes through: acceptance, credit, one terminal answer, and the end of its session.
\<close>

section \<open>Acceptance\<close>

lemma appended_last: "appended c m p w w' \<Longrightarrow> queue (conns w' c) \<noteq> [] \<and> last (queue (conns w' c)) = m"
  by (auto simp: appended_def)

text \<open>A frame that was queued is the last of its queue.\<close>

lemma enqueue_last:
  assumes "enqueue P f p c w = (True, w')"
  shows "\<exists>b. EncodeFrame P f = Some b \<and> queue (conns w' c) \<noteq> [] \<and>
    last (queue (conns w' c)) = plainMessage f b"
  using enqueue_ok [OF assms] appended_last by blast

lemma dispatchCall_Handled:
  assumes "dispatchCall P c d q until w = (Handled, w')"
  obtains i w1 w3 where "allocateCalleeCallIDLocked d w = (Some i, w1)" "clock w1 < until"
    "enqueue P (dispatchFrame (conns w1 c) q i (until - clock w1)) False d
      (insertRoute \<lparr>caller = c, callee = d, callerID = rq_id q, calleeID = i,
         credit = rq_credit q, accepted = False, terminal = False,
         deadline = until, route_timer = False\<rparr> w1) = (True, w3)"
    "enqueue P \<lparr>Opcode = OpcodeCallAccepted, Payload = [VInt (rq_id q)]\<rparr> False c
      (updRoute (nroutes w1) (\<lambda>R. R\<lparr>accepted := True, route_timer := True\<rparr>) w3) = (True, w')"
proof -
  obtain o1 w1 where a: "allocateCalleeCallIDLocked d w = (o1, w1)" by (meson surj_pair)
  with assms obtain i where i: "o1 = Some i"
    by (cases o1) (auto simp: dispatchCall_def split: if_splits)
  let ?f = "dispatchFrame (conns w1 c) q i (until - clock w1)"
  let ?R = "\<lparr>caller = c, callee = d, callerID = rq_id q, calleeID = i,
         credit = rq_credit q, accepted = False, terminal = False,
         deadline = until, route_timer = False\<rparr>"
  obtain ok3 w3 where e3: "enqueue P ?f False d (insertRoute ?R w1) = (ok3, w3)" by (meson surj_pair)
  obtain ok4 w4 where e4: "enqueue P \<lparr>Opcode = OpcodeCallAccepted, Payload = [VInt (rq_id q)]\<rparr> False c
      (updRoute (nroutes w1) (\<lambda>R. R\<lparr>accepted := True, route_timer := True\<rparr>) w3) = (ok4, w4)"
    by (meson surj_pair)
  have "clock w1 < until \<and> ok3 \<and> ok4 \<and> w4 = w'"
    using assms
    by (simp add: dispatchCall_def a i Let_def e3 e4 unavailableError_def
        split: if_splits option.splits bool.splits)
  then show ?thesis using that a i e3 e4 by simp
qed

text \<open>An accepted call has a live route that both ends know, and its caller is told last.\<close>

lemma dispatchCall_accepts:
  assumes "dispatchCall P c d q until w = (Handled, w')"
  shows "int (length (calls (conns w d))) < MaxInflightCalls P \<and> (\<exists>i b. 1 \<le> i \<and> i \<le> max_safe_integer \<and> get (calls (conns w d)) i = None \<and> clock w < until \<and>
    routes w' (nroutes w) = \<lparr>caller = c, callee = d, callerID = rq_id q, calleeID = i,
       credit = rq_credit q, accepted = True, terminal = False,
       deadline = until, route_timer = True\<rparr> \<and>
    get (calls (conns w' c)) (rq_id q) = Some (nroutes w) \<and>
    get (calls (conns w' d)) i = Some (nroutes w) \<and>
    EncodeFrame P \<lparr>Opcode = OpcodeCallAccepted, Payload = [VInt (rq_id q)]\<rparr> = Some b \<and>
    last (queue (conns w' c)) =
      plainMessage \<lparr>Opcode = OpcodeCallAccepted, Payload = [VInt (rq_id q)]\<rparr> b)"
proof (intro conjI)
  let ?acc = "\<lparr>Opcode = OpcodeCallAccepted, Payload = [VInt (rq_id q)]\<rparr>"
  from assms obtain i w1 w3 where a: "allocateCalleeCallIDLocked d w = (Some i, w1)"
    and t: "clock w1 < until"
    and e3: "enqueue P (dispatchFrame (conns w1 c) q i (until - clock w1)) False d
      (insertRoute \<lparr>caller = c, callee = d, callerID = rq_id q, calleeID = i,
         credit = rq_credit q, accepted = False, terminal = False,
         deadline = until, route_timer = False\<rparr> w1) = (True, w3)" (is "enqueue _ _ _ _ (insertRoute ?R w1) = _")
    and e4: "enqueue P ?acc False c
      (updRoute (nroutes w1) (\<lambda>R. R\<lparr>accepted := True, route_timer := True\<rparr>) w3) = (True, w')"
    by (rule dispatchCall_Handled)
  note w1 = allocate_spec [OF a]
  have q3: "only_queues (insertRoute ?R w1) w3"
    using only_queues_enqueue [of "insertRoute ?R w1" P _ False d] e3 by (metis snd_conv)
  have q4: "only_queues (updRoute (nroutes w1) (\<lambda>R. R\<lparr>accepted := True, route_timer := True\<rparr>) w3) w'"
    using only_queues_enqueue e4 by (metis snd_conv)
  have c: "calls (conns w' x) = calls (conns (insertRoute ?R w1) x)" for x
    using only_queues_conn [OF q4, of x] only_queues_conn [OF q3, of x] by simp
  have r: "routes w' (nroutes w) = ?R\<lparr>accepted := True, route_timer := True\<rparr>"
    using only_queues_world [OF q4] only_queues_world [OF q3] w1 by simp
  obtain b where b: "EncodeFrame P ?acc = Some b" "last (queue (conns w' c)) = plainMessage ?acc b"
    using enqueue_last [OF e4] by blast
  show "int (length (calls (conns w d))) < MaxInflightCalls P"
    using assms by (simp add: dispatchCall_def split: if_splits)
  show "\<exists>i b. 1 \<le> i \<and> i \<le> max_safe_integer \<and> get (calls (conns w d)) i = None \<and> clock w < until \<and>
    routes w' (nroutes w) = \<lparr>caller = c, callee = d, callerID = rq_id q, calleeID = i,
       credit = rq_credit q, accepted = True, terminal = False,
       deadline = until, route_timer = True\<rparr> \<and>
    get (calls (conns w' c)) (rq_id q) = Some (nroutes w) \<and>
    get (calls (conns w' d)) i = Some (nroutes w) \<and>
    EncodeFrame P ?acc = Some b \<and> last (queue (conns w' c)) = plainMessage ?acc b"
    by (rule exI [of _ i], rule exI [of _ b])
      (use w1 t r b c in \<open>simp add: insertRoute_get route_at_def\<close>)
qed

section \<open>One terminal answer\<close>

lemma calleeRoute_Inr:
  "calleeRoute w c i = Inr r \<longleftrightarrow> get (calls (conns w c)) i = Some r \<and> callee (routes w r) = c \<and>
     calleeID (routes w r) = i \<and> \<not> terminal (routes w r)"
  by (auto simp: calleeRoute_def split: option.split)

lemma callerRoute_Some:
  "callerRoute w c i = Some r \<longleftrightarrow> get (calls (conns w c)) i = Some r \<and> caller (routes w r) = c \<and>
     callerID (routes w r) = i \<and> \<not> terminal (routes w r)"
  by (auto simp: callerRoute_def split: option.split)

text \<open>A route that is gone answers nobody: neither end finds it.\<close>

lemma removed_unroutable:
  assumes "\<not> terminal (routes w r)"
  shows "calleeRoute (removeRouteLocked r w) (callee (routes w r)) (calleeID (routes w r)) \<noteq> Inr q"
    and "callerRoute (removeRouteLocked r w) (caller (routes w r)) (callerID (routes w r)) = None"
  using assms by (auto simp: calleeRoute_Inr callerRoute_def removeRoute_calls Let_def)

lemma routes_queues:
  assumes "only_queues w w'"
  shows "calleeRoute w' = calleeRoute w" "callerRoute w' = callerRoute w"
proof -
  have r: "routes w' = routes w" by (rule only_queues_world [OF assms])
  have c: "calls (conns w' c) = calls (conns w c)" "nextCallID (conns w' c) = nextCallID (conns w c)" for c
    by (rule only_queues_conn [OF assms])+
  show "calleeRoute w' = calleeRoute w" "callerRoute w' = callerRoute w"
    by (intro ext; simp only: calleeRoute_def callerRoute_def r c)+
qed

lemma forwardResult_final:
  assumes "forwardCallResult P h c f w = (Handled, w')" "payload_at (Payload f) 1 = Some (VBool True)"
    and "firstInteger f = Some i" "calleeRoute w c i = Inr r"
  shows "terminal (routes w' r)" "calleeRoute w' c i \<noteq> Inr q"
    and "\<exists>v b. payload_at (Payload f) 2 = Some v \<and>
      EncodeFrame P \<lparr>Opcode = OpcodeCallResult,
        Payload = [VInt (callerID (routes w r)), VBool True, v]\<rparr> = Some b \<and>
      last (queue (conns w' (caller (routes w r)))) = plainMessage \<lparr>Opcode = OpcodeCallResult,
        Payload = [VInt (callerID (routes w r)), VBool True, v]\<rparr> b"
proof -
  let ?R = "routes w r"
  from assms obtain v where v: "payload_at (Payload f) 2 = Some v"
    and e: "enqueue P \<lparr>Opcode = OpcodeCallResult, Payload = [VInt (callerID ?R), VBool True, v]\<rparr>
      True (caller ?R) (removeRouteLocked r w) = (True, w')"
    by (auto simp: forwardCallResult_def Let_def originUnavailable_def unavailableError_def
        simp del: One_nat_def split: option.splits prod.splits bool.splits)
  have q: "only_queues (removeRouteLocked r w) w'"
    using only_queues_enqueue e by (metis snd_conv)
  show "terminal (routes w' r)" using only_queues_world [OF q] by simp
  show "calleeRoute w' c i \<noteq> Inr q"
    using removed_unroutable(1) [of w r q] assms(4) unfolding routes_queues [OF q]
    by (auto simp: calleeRoute_Inr)
  show "\<exists>v b. payload_at (Payload f) 2 = Some v \<and>
      EncodeFrame P \<lparr>Opcode = OpcodeCallResult,
        Payload = [VInt (callerID (routes w r)), VBool True, v]\<rparr> = Some b \<and>
      last (queue (conns w' (caller (routes w r)))) = plainMessage \<lparr>Opcode = OpcodeCallResult,
        Payload = [VInt (callerID (routes w r)), VBool True, v]\<rparr> b"
    using v enqueue_last [OF e] by blast
qed

text \<open>A cancelled call is always answered as one that may have run: routes are accepted.\<close>

lemma cancel_answers:
  assumes "cancelCall P h c f w = (Handled, w')" "call_table P w" "firstInteger f = Some i"
  shows "\<exists>r b. callerRoute w c i = Some r \<and> terminal (routes w' r) \<and> callerRoute w' c i = None \<and>
    EncodeFrame P (callFailure i codeOutcomeUnknown ''call cancellation outcome is unknown'') = Some b \<and>
    last (queue (conns w' c)) =
      plainMessage (callFailure i codeOutcomeUnknown ''call cancellation outcome is unknown'') b"
proof -
  let ?fl = "callFailure i codeOutcomeUnknown ''call cancellation outcome is unknown''"
  from assms(1,3) obtain r reason where r: "callerRoute w c i = Some r"
    and h: "(if \<not> accepted (routes w r)
         then orSlow (enqueue P (callFailure i codeCancelled ''call cancelled before dispatch'')
                True c (removeRouteLocked r w))
         else orSlow (enqueue P ?fl True c (removeRouteLocked r
                (snd (enqueue P (callCancel (calleeID (routes w r)) reason) True
                   (callee (routes w r)) w))))) = (Handled, w')"
    by (auto simp: cancelCall_def Let_def simp del: One_nat_def split: option.splits if_splits)
  note R = r [unfolded callerRoute_Some]
  define w1 where
    "w1 = snd (enqueue P (callCancel (calleeID (routes w r)) reason) True (callee (routes w r)) w)"
  have q1: "only_queues w w1" unfolding w1_def by (rule only_queues_enqueue)
  have acc: "accepted (routes w r)" using call_table_acceptedD [OF assms(2)] R by blast
  have e: "enqueue P ?fl True c (removeRouteLocked r w1) = (True, w')"
    using h acc by (auto simp: orSlow_def w1_def split: prod.splits bool.splits)
  have q2: "only_queues (removeRouteLocked r w1) w'"
    using only_queues_enqueue e by (metis snd_conv)
  have "terminal (routes w' r)" using only_queues_world [OF q2] by simp
  moreover have "callerRoute w' c i = None"
    using removed_unroutable(2) [of w1 r] R only_queues_world [OF q1]
    unfolding routes_queues [OF q2] by simp
  ultimately show ?thesis using r enqueue_last [OF e] by blast
qed

section \<open>Credit\<close>

lemma credit_bounded:
  assumes "creditCall P h c f w = (Handled, w')" "firstInteger f = Some i"
    and "Option.bind (payload_at (Payload f) 1) integer = Some n"
  shows "\<exists>r. callerRoute w c i = Some r \<and> credit (routes w' r) = wrap64 (credit (routes w r) + n) \<and>
    credit (routes w' r) \<le> MaxStreamCredit P"
proof -
  let ?f = "\<lambda>r. \<lparr>Opcode = OpcodeCallCredit, Payload = [VInt (calleeID (routes w r)), VInt n]\<rparr>"
  have g: "coordinatorGate w h c = None"
    using assms by (auto simp: creditCall_def split: option.splits)
  obtain r where r: "callerRoute w c i = Some r"
    using assms by (cases "callerRoute w c i") (auto simp: creditCall_def g)
  let ?w = "updRoute r (\<lambda>R. R\<lparr>credit := wrap64 (credit R + n)\<rparr>) w"
  obtain ok w2 where e: "enqueue P (?f r) True (callee (routes w r)) ?w = (ok, w2)"
    by (meson surj_pair)
  have le: "wrap64 (credit (routes w r) + n) \<le> MaxStreamCredit P \<and> w2 = w'"
    using assms(1)
    by (simp add: creditCall_def Let_def assms(2,3) g r e unavailableError_def del: One_nat_def
        split: if_splits bool.splits)
  have "only_queues ?w w2"
    using only_queues_enqueue [of ?w P "?f r" True "callee (routes w r)"] by (simp only: e snd_conv)
  from only_queues_world(4) [OF this] r le show ?thesis by simp
qed

text \<open>A result that is not final costs one unit of credit; without credit it is refused.\<close>

lemma stream_credit:
  assumes "forwardCallResult P h c f w = (Handled, w')" "payload_at (Payload f) 1 = Some (VBool False)"
    and "firstInteger f = Some i" "calleeRoute w c i = Inr r"
  shows "credit (routes w r) \<noteq> 0 \<and> credit (routes w' r) = wrap64 (credit (routes w r) - 1)"
proof -
  let ?R = "routes w r"
  have g: "coordinatorGate w h c = None"
    using assms by (auto simp: forwardCallResult_def split: option.splits)
  have c: "credit ?R \<noteq> 0"
    using assms by (auto simp: forwardCallResult_def g Let_def simp del: One_nat_def)
  obtain v where v: "payload_at (Payload f) 2 = Some v"
    using assms c by (cases "payload_at (Payload f) 2")
      (auto simp: forwardCallResult_def g Let_def simp del: One_nat_def)
  let ?w = "updRoute r (\<lambda>R. R\<lparr>credit := wrap64 (credit R - 1)\<rparr>) w"
  obtain ok w2 where "enqueueStream P \<lparr>Opcode = OpcodeCallResult,
      Payload = [VInt (callerID ?R), VBool False, v]\<rparr> (caller ?R) ?w = (ok, w2)"
    by (meson surj_pair)
  moreover from this have "w2 = w'"
    using assms(1)
    by (simp add: forwardCallResult_def Let_def assms(2-4) g v c originUnavailable_def
        unavailableError_def del: One_nat_def split: option.splits bool.splits)
  ultimately have e: "snd (enqueueStream P \<lparr>Opcode = OpcodeCallResult,
      Payload = [VInt (callerID ?R), VBool False, v]\<rparr> (caller ?R) ?w) = w'" by simp
  have "only_queues (updRoute r (\<lambda>R. R\<lparr>credit := wrap64 (credit R - 1)\<rparr>) w) w'"
    using only_queues_stream [of ?w P "\<lparr>Opcode = OpcodeCallResult,
      Payload = [VInt (callerID ?R), VBool False, v]\<rparr>" "caller ?R"] by (simp only: e)
  from only_queues_world [OF this] c show ?thesis by simp
qed

section \<open>The end of a session and of a deadline\<close>

lemma terminateLoop_facts:
  assumes "table_ok P w" and w': "w' = snd (terminateLoop c ps w)"
  shows "table_ok P w'" "\<forall>r. terminal (routes w r) \<longrightarrow> terminal (routes w' r)"
    "\<forall>p \<in> set ps. terminal (routes w' (snd p))" "set (calls (conns w' c)) \<subseteq> set (calls (conns w c))"
proof -
  have "table_ok P (snd (terminateLoop c ps w)) \<and>
      (\<forall>r. terminal (routes w r) \<longrightarrow> terminal (routes (snd (terminateLoop c ps w)) r)) \<and>
      (\<forall>p \<in> set ps. terminal (routes (snd (terminateLoop c ps w)) (snd p))) \<and>
      set (calls (conns (snd (terminateLoop c ps w)) c)) \<subseteq> set (calls (conns w c))"
    using assms(1)
  proof (induction ps arbitrary: w)
    case (Cons p ps)
    let ?w = "removeRouteLocked (snd p) w"
    show ?case
    proof (cases "terminal (routes w (snd p))")
      case True
      then show ?thesis using Cons.IH [OF Cons.prems] by (simp add: Let_def)
    next
      case False
      have t: "terminal (routes w r) \<Longrightarrow> terminal (routes ?w r)" for r
        by (cases "r = snd p") simp_all
      have s: "set (calls (conns ?w c)) \<subseteq> set (calls (conns w c))"
        by (auto simp: removeRoute_calls [OF False] Let_def set_del)
      show ?thesis
        using Cons.IH [OF removeRoute_table [OF Cons.prems, of "snd p"]] False t s
        by (auto simp: Let_def split_beta)
    qed
  qed simp
  then show "table_ok P w'" "\<forall>r. terminal (routes w r) \<longrightarrow> terminal (routes w' r)"
    "\<forall>p \<in> set ps. terminal (routes w' (snd p))" "set (calls (conns w' c)) \<subseteq> set (calls (conns w c))"
    by (simp_all add: w')
qed

lemma terminate_clears:
  assumes "table_ok P w" "terminateCallsForConnectionLocked c w = (acts, w')"
  shows "calls (conns w' c) = []"
proof (rule ccontr)
  have w': "w' = snd (terminateLoop c (calls (conns w c)) w)"
    using assms(2) by (simp add: terminateCallsForConnectionLocked_def)
  note F = terminateLoop_facts [OF assms(1) w']
  assume "calls (conns w' c) \<noteq> []"
  then obtain i r where m: "(i, r) \<in> set (calls (conns w' c))"
    by (cases "calls (conns w' c)") auto
  then have "terminal (routes w' r)" using F(3,4) by force
  moreover have "get (calls (conns w' c)) i = Some r"
    using m table_ok_boundedD(1) [OF F(1)] by (simp add: get_Some_mem)
  ultimately show False using table_ok_soundD [OF F(1)] by blast
qed

lemma terminated_routes:
  assumes "table_ok P w" "get (calls (conns w c)) i = Some r"
    and "terminateCallsForConnectionLocked c w = (acts, w')"
  shows "terminal (routes w' r)"
proof -
  have w': "w' = snd (terminateLoop c (calls (conns w c)) w)"
    using assms(3) by (simp add: terminateCallsForConnectionLocked_def)
  have "(i, r) \<in> set (calls (conns w c))" using map_of_SomeD [OF assms(2)] .
  then show ?thesis using terminateLoop_facts(3) [OF assms(1) w'] by force
qed

text \<open>A deadline fires once.\<close>

lemma expireCall_terminal: "terminal (routes (expireCall P r w) r)"
  by (cases "terminal (routes w r)") (simp_all add: expireCall_def)

interpretation call_deadline: once_guard "\<lambda>w. terminal (routes w r)" "expireCall P r" for P r
  by unfold_locales (simp_all add: expireCall_terminal, simp add: expireCall_def)

section \<open>Accepting a call\<close>

text \<open>A call that is accepted: what the caller was checked for, and what was set up.\<close>

lemma startCall_Handled:
  assumes "startCall P received h c f w = (Handled, w')"
  obtains q d where "decodeCall f = Some q" "coordinatorGate w h c = None"
    "rq_id q \<notin> set (keys (calls (conns w c)))"
    "int (length (calls (conns w c))) < MaxInflightCalls P"
    "nameOfID (functionsByID (homes w h)) (rq_function q) \<noteq> []"
    "ownerOf (functionOwners (homes w h)) (nameOfID (functionsByID (homes w h)) (rq_function q)) \<noteq> []"
    "roleOf (conns w c) = RoleUser \<longrightarrow> userEnrolledLocked (homes w h) (userOf (conns w c)) \<or>
       nameOfID (functionsByID (homes w h)) (rq_function q) = ''miakapp.join''"
    "resolveCallTargetLocked w (homes w h) c
       (ownerOf (functionOwners (homes w h)) (nameOfID (functionsByID (homes w h)) (rq_function q)))
       (rq_targetKind q) (rq_target q) = Some (Inr d)"
    "dispatchCall P c d q (received + wrap64 (rq_timeout q * millisecond)) w = (Handled, w')"
  using assms
  by (auto simp: startCall_def Let_def split: if_splits option.splits sum.splits)

text \<open>Whom a call may reach: the coordinator that owns the function, or, for a coordinator that owns
  it, a session of an enrolled user.\<close>

definition call_target :: "relay \<Rightarrow> home \<Rightarrow> nat \<Rightarrow> string \<Rightarrow> int \<Rightarrow> nat \<Rightarrow> bool" where
  "call_target w H c owner kind d \<longleftrightarrow>
     available w d \<and>
     (if kind = 1
      then roleOf (conns w c) = RoleCoordinator \<and> nameOf (conns w c) = owner \<and>
           d \<in> snd ` set (users H) \<and> userEnrolledLocked H (userOf (conns w d))
      else (kind = 0 \<or> kind = 2 \<and> roleOf (conns w c) = RoleCoordinator) \<and>
           (\<exists>slot. get (coordinators H) owner = Some slot \<and> slot_connection slot = Some d \<and> ready slot))"

lemma resolve_target:
  assumes "resolveCallTargetLocked w H c owner kind target = Some (Inr d)"
  shows "call_target w H c owner kind d"
proof -
  consider "kind = 0" | "kind = 1" | "kind = 2"
    using assms by (auto simp: resolveCallTargetLocked_def Let_def split: if_splits)
  then show ?thesis
  proof cases
    case 2
    then show ?thesis
      using assms by (force simp: resolveCallTargetLocked_def call_target_def Let_def
          split: if_splits option.splits dest: map_of_SomeD)
  qed (use assms in \<open>auto simp: resolveCallTargetLocked_def call_target_def Let_def reachable_Some
        split: if_splits option.splits\<close>)
qed

end
