(* ===== verification/Session_Props.thy ===== *)
theory Session_Props
  imports Relay_Steps
begin

text \<open>
  What a session may rely on: its identity is the one the verifier vouched for, a frame passes the
  gate only while the lease is in force, a request is in flight until its answer is written, and
  session identifiers stay in range.
\<close>

section \<open>Identity\<close>

text \<open>Joining a home leaves every identity as it was.\<close>

lemma terminate_identity [simp]:
  "conn_identity (conns (snd (terminateCallsForConnectionLocked c w)) d) = conn_identity (conns w d)"
proof -
  have "conn_identity (conns (snd (terminateLoop c ps w)) d) = conn_identity (conns w d)" for ps
    by (induction ps arbitrary: w) (simp_all add: Let_def split_beta removeRouteLocked_def)
  then show ?thesis by (simp add: terminateCallsForConnectionLocked_def)
qed

lemma register_identity [simp]:
  "conn_identity (conns (snd (registerSession P h c w)) d) = conn_identity (conns w d)"
  by (simp add: registerSession_def attachUser_def attachCoordinator_def userBootstrapLocked_def
      Let_def split_beta split: option.split)

lemma enqueueAll_only_queues: "only_queues w (snd (enqueueAll P fs c w))"
proof (induction fs arbitrary: w)
  case (Cons f fs)
  have "only_queues w (snd (enqueue P f False c w))" by (rule only_queues_enqueue)
  then show ?case using Cons [of "snd (enqueue P f False c w)"]
    by (auto simp: split_beta intro: only_queues_trans split: bool.split)
qed simp

lemmas enqueueAll_frame [simp] =
  only_queues_world [OF enqueueAll_only_queues] only_queues_conn [OF enqueueAll_only_queues]

lemma bootstrap_identity [simp]:
  "conn_identity (conns (snd (bootstrap P h c e fs w)) d) = conn_identity (conns w d)"
  by (simp add: bootstrap_def activateInitialLease_def installLeaseLocked_def Let_def split_beta
      split: bool.split)

lemma attach_identity [simp]:
  "conn_identity (conns (snd (attach P h c w)) d) = conn_identity (conns w d)"
  by (simp add: attach_def Let_def split_beta only_queues_conn [OF only_queues_fail]
      split: option.split sum.split)

lemma acquire_conns [simp]: "conns (snd (acquire random i w)) = conns w"
  by (simp add: acquire_def Let_def split: option.split)

lemma startDraining_identity [simp]:
  "conn_identity (conns (startDraining P a b c w) d) = conn_identity (conns w d)"
  by (simp add: startDraining_def Let_def split_beta split: bool.split)

lemma authentication_Inr:
  assumes "completeAuthentication P random q verdict c w = (None, w')"
  obtains i where "verdict = Inr i" "ValidateBinding q i (clock w) = None"
    "req_Role q = RoleCoordinator \<longrightarrow> ID i = HomeID i" "conn_identity (conns w' c) = i"
proof -
  obtain i where i: "verdict = Inr i"
    using assms by (cases verdict) (simp_all add: completeAuthentication_def)
  have v: "ValidateBinding q i (clock w) = None"
    using assms by (cases "ValidateBinding q i (clock w)") (simp_all add: completeAuthentication_def i)
  have r: "req_Role q = RoleCoordinator \<longrightarrow> ID i = HomeID i"
    using assms by (auto simp: completeAuthentication_def i v split: if_splits)
  let ?w1 = "updConn c (\<lambda>C. C\<lparr>conn_identity := i\<rparr>) w"
  obtain h w2 where a: "acquire random (HomeID i) ?w1 = (Inr h, w2)"
    using assms r
    by (cases "acquire random (HomeID i) ?w1"; cases "fst (acquire random (HomeID i) ?w1)")
      (auto simp: completeAuthentication_def i v Let_def split: acquireError.splits)
  let ?w3 = "updConn c (\<lambda>C. C\<lparr>conn_home := Some h, phase := phaseActive\<rparr>) w2"
  obtain e w4 where t: "attach P h c ?w3 = (e, w4)" by (meson surj_pair)
  have w2: "conns w2 = conns ?w1" using acquire_conns [of random "HomeID i" ?w1] by (simp add: a)
  have "conn_identity (conns w4 c) = i"
    using attach_identity [of P h c ?w3 c] by (simp add: t w2)
  then have "conn_identity (conns w' c) = i"
    using assms r by (auto simp: completeAuthentication_def i v Let_def a t split: if_splits option.splits)
  with that i v r show ?thesis by blast
qed

text \<open>A reauthentication that succeeds extends the lease of the same principal.\<close>

lemma reauth_Handled:
  assumes "completeReauth P requestID q previous verdict c w = (Handled, w')"
  obtains i w1 where "verdict = Inr i" "ValidateBinding q i (clock w) = None"
    "ID i = ID (conn_identity (conns w c))" "ClientID i = ClientID (conn_identity (conns w c))"
    "VerifiedEmail i = VerifiedEmail (conn_identity (conns w c))"
    "replaceLease previous (ExpiresAt i) c w = (True, w1)" "only_queues w1 w'"
proof -
  obtain i where i: "verdict = Inr i"
    using assms by (cases verdict) (auto simp: completeReauth_def split: prod.splits if_splits)
  have v: "ValidateBinding q i (clock w) = None"
    using assms by (cases "ValidateBinding q i (clock w)") (simp_all add: completeReauth_def i)
  obtain ok w1 where l: "replaceLease previous (ExpiresAt i) c w = (ok, w1)" by (meson surj_pair)
  let ?f = "\<lparr>Opcode = OpcodeReauthOK, Payload = [VInt requestID, VInt (UnixMilli (ExpiresAt i))]\<rparr>"
  obtain ok2 w2 where e: "enqueue P ?f True c w1 = (ok2, w2)" by (meson surj_pair)
  have q: "only_queues w1 w2" using only_queues_enqueue [of w1 P ?f True c] by (simp only: e snd_conv)
  let ?C = "conn_identity (conns w c)"
  have p: "ID i = ID ?C \<and> ClientID i = ClientID ?C \<and> VerifiedEmail i = VerifiedEmail ?C"
  proof (rule ccontr)
    assume "\<not> ?thesis"
    with assms show False unfolding completeReauth_def i by (simp add: v Let_def)
  qed
  have "ok \<and> ok2 \<and> w2 = w'"
    using assms unfolding completeReauth_def i
    by (cases ok; cases ok2) (simp_all add: v Let_def l e p orSlow_def del: One_nat_def)
  with that [OF i v] p l q show ?thesis by simp
qed

section \<open>The gate\<close>

lemma gate_None:
  "frameGate P c f w = None \<longleftrightarrow>
     phase (conns w c) \<noteq> phaseClosed \<and> \<not> authLeaseExpired w c \<and>
     (phase (conns w c) = phaseDraining \<longrightarrow> Opcode f = OpcodeCallResult \<or> Opcode f = OpcodeCallError) \<and>
     Opcode f \<noteq> OpcodeHello \<and> Opcode f \<noteq> OpcodeWelcome \<and>
     incomingAllowed P (roleOf (conns w c)) (Opcode f)"
  by (simp add: frameGate_def Let_def)

lemma gate_refuses: "frameGate P c f w = Some e \<Longrightarrow> handle P verify received c f w = (Failed e, w)"
  by (simp add: handle_def)

text \<open>The opcodes each role may send; the byte range of the call opcodes is a fact about the
  codec's numbering.\<close>

definition call_opcodes :: "protocol \<Rightarrow> bool" where
  "call_opcodes P \<longleftrightarrow> (\<forall>op. isCallFlowOpcode P op \<longleftrightarrow>
     op \<in> {OpcodeCall, OpcodeCallResult, OpcodeCallError, OpcodeCallCancel, OpcodeCallCredit})"

lemma user_opcodes:
  "call_opcodes P \<Longrightarrow> incomingAllowed P RoleUser op \<longleftrightarrow>
     op \<in> {OpcodeReauth, OpcodeStateResync, OpcodeSubscribe, OpcodeUnsubscribe, OpcodeEvent,
            OpcodeCall, OpcodeCallResult, OpcodeCallError, OpcodeCallCancel, OpcodeCallCredit}"
  by (auto simp: incomingAllowed_def call_opcodes_def)

text \<open>Only a coordinator reaches the handlers that declare or mutate state.\<close>

lemma only_coordinators_write:
  assumes "call_opcodes P" "roleOf (conns w c) \<noteq> RoleCoordinator"
    and "Opcode f \<in> {OpcodeStateSync, OpcodeStateSet, OpcodeStateACLSync, OpcodeEventSync,
      OpcodeEventACLSync, OpcodeFunctionSync}"
  shows "\<exists>e. handle P verify received c f w = (Failed e, w)"
proof -
  have "\<not> isCallFlowOpcode P (Opcode f)"
    using assms(1,3) unfolding call_opcodes_def by fastforce
  with assms(2,3) have "\<not> incomingAllowed P (roleOf (conns w c)) (Opcode f)"
    by (simp add: incomingAllowed_def) fastforce
  then have "frameGate P c f w \<noteq> None" by (simp add: gate_None)
  then show ?thesis using gate_refuses by blast
qed

section \<open>Requests\<close>

lemma duplicate_request:
  assumes "beginRequest r c w = (None, w')"
  shows "fst (beginRequest r c w') \<noteq> None" "snd (beginRequest r c w') = w'"
  using assms by (auto simp: beginRequest_def split: if_splits)

text \<open>Writing the answer of a request, and nothing else the writer does, ends it.\<close>

lemma write_ends_request:
  assumes "queue (conns w c) = m # ms" "afterWrite m = Some r" "closeStatus m = 0"
  shows "requestIDs (conns (writeStep True c w) c) = removeAll r (requestIDs (conns w c))"
  using assms by (simp add: writeStep_def nextMessage_def endRequest_def refund_def Let_def)

lemma write_keeps_requests:
  assumes "queue (conns w c) = m # ms" "afterWrite m = None"
  shows "requestIDs (conns (writeStep b c w) c) = requestIDs (conns w c)"
  using assms by (simp add: writeStep_def nextMessage_def refund_def Let_def
      only_queues_conn [OF only_queues_stop])

text \<open>A claimed request is not repeated while its answer is on the way: the frame is answered
  with an error and handled no further.\<close>

lemma duplicate_frame:
  assumes "opcodeByte P (Opcode f) < 128" "requestIdentifier f" "firstInteger f = Some r"
    and "r \<in> set (requestIDs (conns w c))"
  shows "frameStep P verify received c f w =
    enqueue P (errorFrame r (opcodeByte P (Opcode f)) (applicationError codeDuplicateRequest False
      ''request identifier is already in flight'' closeConflict)) True c w"
  using assms by (simp add: frameStep_def beginRequest_def)

section \<open>Session identifiers\<close>

lemma sessionLoop_range:
  "\<exists>i. sessionLoop 2 s = (Some i, i) \<and> 1 \<le> i \<and> i \<le> max_safe_integer"
  by (simp add: numeral_2_eq_2 Let_def wrap64_id)

section \<open>Draining\<close>

text \<open>\<open>drainOnce\<close> is spent by the first call, whatever the phase; a later call does nothing.\<close>

interpretation drain_once: once_guard "\<lambda>w. drainOnce (conns w c)" "startDraining P a b c" for P a b c
proof unfold_locales
  show "drainOnce (conns (startDraining P a b c w) c)" for w
    by (simp add: startDraining_def Let_def split_beta split: bool.split)
qed (simp add: startDraining_def)

text \<open>A connection that is not active is not told; it only loses its one announcement.\<close>

lemma startDraining_other: "d \<noteq> c \<Longrightarrow> conns (startDraining P a b c w) d = conns w d"
proof -
  assume d: "d \<noteq> c"
  have "conns (snd (enqueue P f p c v)) d = conns v d" for f p v
    using only_conn_enqueue [of c v P f p] d by (simp add: only_conn_def)
  then show ?thesis using d
    by (simp add: startDraining_def Let_def split_beta split: bool.split)
qed

lemma drainAll_waiting:
  "phase (conns w c) \<noteq> phaseActive \<Longrightarrow> conns (drainAll P a b cs w) c =
     (if c \<in> set cs then (conns w c)\<lparr>drainOnce := True\<rparr> else conns w c)"
proof (induction cs arbitrary: w)
  case (Cons d cs)
  have s: "conns (startDraining P a b d w) c = (if c = d then (conns w c)\<lparr>drainOnce := True\<rparr> else conns w c)"
    using Cons.prems startDraining_other [of c d P a b w] by (auto simp: startDraining_def Let_def)
  then have "phase (conns (startDraining P a b d w) c) \<noteq> phaseActive" using Cons.prems by auto
  from Cons.IH [OF this] s show ?case by auto
qed simp

lemma Drain_waiting:
  "\<not> closed w \<Longrightarrow> \<not> draining w \<Longrightarrow> c \<in> set (live w) \<Longrightarrow> phase (conns w c) \<noteq> phaseActive \<Longrightarrow>
   conns (Drain P a b w) c = (conns w c)\<lparr>drainOnce := True\<rparr>"
  by (simp add: Drain_def drainAll_waiting)

text \<open>An active session is told, and keeps only the frames that let a call finish.\<close>

lemma startDraining_active:
  assumes "phase (conns w c) = phaseActive" "\<not> drainOnce (conns w c)"
    and "enqueue P \<lparr>Opcode = OpcodeGoaway, Payload = [VInt a, VInt b]\<rparr> True c
      (updConn c (\<lambda>C. C\<lparr>drainOnce := True\<rparr>) w) = (True, w1)"
    and "phase (conns w1 c) = phaseActive"
  shows "phase (conns (startDraining P a b c w) c) = phaseDraining"
  using assms by (simp add: startDraining_def Let_def)

end
