(* ===== verification/State_View.thy ===== *)
theory State_View
  imports Relay_Steps
begin

text \<open>
  What a user holds. The abstract specification of the state of a home is a partial map from paths
  to values; a user sees its restriction to the paths the access control lists allow. A mutation
  refines the update of that map, what a user may see of the mutations, applied to the view it had,
  gives the view it has, and exactly these mutations are in the frame each of its sessions is sent.
\<close>

section \<open>Abstract views\<close>

type_synonym view = "string \<Rightarrow> value option"

definition user_view :: "home \<Rightarrow> string \<Rightarrow> view" where
  "user_view H u = (\<lambda>p. if userCanSeeStateLocked H u p then get (state H) p else None)"

fun replay :: "(string \<times> value option) list \<Rightarrow> view \<Rightarrow> view" where
  "replay [] v = v"
| "replay (ch # chs) v = replay chs (v(fst ch := snd ch))"

text \<open>\<open>visibleStateLocked\<close> computes the view.\<close>

lemma visibleState_view:
  "wf_map (state H) \<Longrightarrow> get (visibleStateLocked H u) = user_view H u"
proof -
  assume wf: "wf_map (state H)"
  have f: "wf_map (filter Q m)" if "wf_map m" for Q and m :: "(string \<times> value) list"
    using that by (rule wf_map_filter)
  have "get (filter (\<lambda>p. Q (fst p)) m) x = (if Q x then get m x else None)"
    for Q x and m :: "(string \<times> value) list"
    by (induction m) auto
  then show ?thesis by (simp add: fun_eq_iff visibleStateLocked_def user_view_def)
qed

lemma applyMutation_get: "get (applyMutation ch st) = (get st)(fst ch := snd ch)"
  by (auto simp: fun_eq_iff applyMutation_def split: option.split)

lemma applyMutations_refines: "get (applyMutations changes st) = replay changes (get st)"
  by (induction changes arbitrary: st) (simp_all add: applyMutations_def applyMutation_get)

section \<open>Access is not changed by a mutation\<close>

lemma put_list_ex:
  "get m k = Some s \<Longrightarrow> Q (k, v) = Q (k, s) \<Longrightarrow> list_ex Q (put k v m) = list_ex Q m"
proof (induction m)
  case (Cons p m)
  then show ?case by (cases p) (simp split: if_splits)
qed simp

lemma map_filter_list_ex: "list_ex Q (List.map_filter g xs) = list_ex (\<lambda>x. \<exists>y. g x = Some y \<and> Q y) xs"
  unfolding list_ex_iff map_filter_mem Bex_def by blast

lemma mutated_sees: "userCanSeeStateLocked (mutatedHome n changes H) u p = userCanSeeStateLocked H u p"
proof -
  let ?Q = "\<lambda>cf. case get (cfg_stateACL cf) u of None \<Rightarrow> False | Some patterns \<Rightarrow> matchesAny patterns p"
  let ?g = "\<lambda>s. s\<lparr>active := map_option (\<lambda>cf. cf\<lparr>cfg_state := applyMutations changes (cfg_state cf)\<rparr>)
    (active s)\<rparr>"
  have "list_ex (\<lambda>q. \<exists>cf. active (snd q) = Some cf \<and> ?Q cf) (coordinators (mutatedHome n changes H)) =
      list_ex (\<lambda>q. \<exists>cf. active (snd q) = Some cf \<and> ?Q cf) (coordinators H)"
  proof (cases "get (coordinators H) n")
    case (Some s)
    then have "coordinators (mutatedHome n changes H) = put n (?g s) (coordinators H)"
      by (simp add: mutatedHome_def updSlot_def)
    moreover have "(\<exists>cf. active (?g s) = Some cf \<and> ?Q cf) = (\<exists>cf. active s = Some cf \<and> ?Q cf)"
      by (cases "active s") simp_all
    ultimately show ?thesis
      using put_list_ex [OF Some, of "\<lambda>q. \<exists>cf. active (snd q) = Some cf \<and> ?Q cf" "?g s"]
      by (simp only: snd_conv)
  qed (simp add: mutatedHome_def updSlot_def)
  then show ?thesis
    by (simp add: userCanSeeStateLocked_def activeConfigs_def map_filter_list_ex)
qed

section \<open>Patches\<close>

lemma replay_view:
  "(\<lambda>p. if Q p then replay changes m p else None) =
   replay (filter (\<lambda>ch. Q (fst ch)) changes) (\<lambda>p. if Q p then m p else None)"
proof (induction changes arbitrary: m)
  case (Cons ch chs)
  have "(\<lambda>p. if Q p then (m(fst ch := snd ch)) p else None) =
      (if Q (fst ch) then (\<lambda>p. if Q p then m p else None)(fst ch := snd ch)
       else (\<lambda>p. if Q p then m p else None))"
    by auto
  then show ?case by (simp add: Cons.IH cong: if_cong)
qed (simp cong: if_cong)

lemma mutated_view:
  "user_view (mutatedHome n changes H) u =
   replay (filter (\<lambda>ch. userCanSeeStateLocked H u (fst ch)) changes) (user_view H u)"
  unfolding user_view_def mutated_sees mutatedHome_simps(1) applyMutations_refines by (rule replay_view)

section \<open>What a frame of mutations says\<close>

text \<open>A mutation names a path of the home by its identifier; it deletes the path, or gives it a value.\<close>

definition mutation_says :: "home \<Rightarrow> value \<Rightarrow> string \<times> value option \<Rightarrow> bool" where
  "mutation_says H raw ch \<longleftrightarrow> fst ch \<noteq> [] \<and>
     (\<exists>i operation rest. raw = VArray (VInt i # VInt operation # rest) \<and>
        fst ch = nameOfID (pathsByID H) i \<and>
        (if operation = 1 then snd ch = None else (\<exists>v more. rest = v # more \<and> snd ch = Some v)))"

text \<open>The mutations that a user may see, as they stand in the frame.\<close>

definition shown :: "home \<Rightarrow> string \<Rightarrow> value list \<Rightarrow> (string \<times> value option) list \<Rightarrow> value list" where
  "shown H u ms changes =
     map fst (filter (\<lambda>q. userCanSeeStateLocked H u (fst (snd q))) (zip ms changes))"

lemma integer_Some [simp]: "integer v = Some i \<longleftrightarrow> v = VInt i"
  by (cases v) auto

lemma array_Some [simp]: "arrayValue v = Some xs \<longleftrightarrow> v = VArray xs"
  by (cases v) auto

lemma payload_Some: "payload_at xs 0 = Some x \<longleftrightarrow> (\<exists>rest. xs = x # rest)"
  "payload_at xs (Suc i) = Some x \<longleftrightarrow> (\<exists>y rest. xs = y # rest \<and> payload_at rest i = Some x)"
  by (cases xs; simp)+

lemma mutation_decodes:
  assumes "resolveMutation H n cf raw = Some (Inr path)" "decodeMutation raw path = Some ch"
  shows "mutation_says H raw ch"
proof -
  obtain xs i where r: "raw = VArray xs" "payload_at xs 0 = Some (VInt i)" "path = nameOfID (pathsByID H) i"
    "path \<noteq> []"
    using assms(1) by (auto simp: resolveMutation_def Let_def split: bind_splits if_splits)
  obtain op where o: "payload_at xs 1 = Some (VInt op)"
    "if op = 1 then ch = (path, None) else (\<exists>v. payload_at xs 2 = Some v \<and> ch = (path, Some v))"
    using assms(2) r(1) by (auto simp: decodeMutation_def split: bind_splits if_splits)
  obtain rest where x: "xs = VInt i # VInt op # rest"
    using r(2) o(1) by (auto simp: payload_Some)
  have "if op = 1 then snd ch = None else (\<exists>v more. rest = v # more \<and> snd ch = Some v)" "fst ch = path"
    using o(2) by (auto simp: x payload_Some numeral_2_eq_2 split: if_splits)
  then show ?thesis using r x unfolding mutation_says_def by blast
qed

lemma mutations_say:
  "resolveMutations H n cf ms = Some (Inr paths) \<Longrightarrow> decodeMutations ms paths = Some changes \<Longrightarrow>
   list_all2 (mutation_says H) ms changes"
proof (induction ms arbitrary: paths changes)
  case (Cons raw ms)
  then obtain p ps where p: "resolveMutation H n cf raw = Some (Inr p)"
    "resolveMutations H n cf ms = Some (Inr ps)" "paths = p # ps"
    by (auto split: option.splits sum.splits)
  with Cons.prems(2) obtain ch chs where "decodeMutation raw p = Some ch"
    "decodeMutations ms ps = Some chs" "changes = ch # chs"
    by (auto simp: decodeMutations_def split: option.splits)
  with Cons.IH [of ps chs] mutation_decodes [of H n cf raw p ch] p show ?case by simp
qed (simp add: decodeMutations_def)

lemma shown_says: "list_all2 (mutation_says H) ms changes \<Longrightarrow>
    list_all2 (mutation_says H) (shown H u ms changes)
      (filter (\<lambda>ch. userCanSeeStateLocked H u (fst ch)) changes)"
  by (induction rule: list_all2_induct) (simp_all add: shown_def)

lemma shown_visible: "map fst changes = paths \<Longrightarrow> visibleMutations H u ms paths = shown H u ms changes"
  by (auto simp: visibleMutations_def shown_def zip_map2 filter_map comp_def split_beta)

section \<open>Who is told what\<close>

definition sessions_of :: "home \<Rightarrow> nat \<Rightarrow> nat" where
  "sessions_of H d = length (filter (\<lambda>p. snd p = d) (users H))"

text \<open>The frame for a session: the mutations it may see, since the revision it stood at; where the codec
  cannot encode that, the snapshot of the new state.\<close>

definition pushed :: "protocol \<Rightarrow> home \<Rightarrow> home \<Rightarrow> connection \<Rightarrow> value list \<Rightarrow> frame" where
  "pushed P H H' C visible =
     (let patch = \<lparr>Opcode = OpcodeStatePatch, Payload =
        [VBytes (epoch H), VInt (if lastStateRevision C = 0 then revision H else lastStateRevision C),
         VInt (revision H'), VArray visible]\<rparr>
      in if EncodeFrame P patch \<noteq> None then patch else stateSnapshotFrameLocked H' (userOf C))"

lemma projection_snapshot:
  "stateSnapshotFrameLocked (projectionForStateLocked H (applyMutations changes (state H)) (revision H + 1)) u =
   stateSnapshotFrameLocked (mutatedHome n changes H) u"
proof -
  let ?pr = "projectionForStateLocked H (applyMutations changes (state H)) (revision H + 1)"
  have "activeConfigs ?pr = activeConfigs H"
    by (induction "coordinators H")
      (simp_all add: activeConfigs_def projectionForStateLocked_def baseProjectionLocked_def
        List.map_filter_def filter_map comp_def)
  then have "userCanSeeStateLocked ?pr u p = userCanSeeStateLocked H u p" for p
    by (simp add: userCanSeeStateLocked_def)
  then have "visibleStateLocked ?pr u = visibleStateLocked (mutatedHome n changes H) u"
    by (simp add: visibleStateLocked_def mutated_sees projectionForStateLocked_def baseProjectionLocked_def)
  moreover have "pathsByName ?pr = pathsByName (mutatedHome n changes H)"
    "epoch ?pr = epoch (mutatedHome n changes H)" "revision ?pr = revision (mutatedHome n changes H)"
    by (simp_all add: projectionForStateLocked_def baseProjectionLocked_def newHome_def mutatedHome_def)
  ultimately show ?thesis by (simp only: stateSnapshotFrameLocked_def)
qed

text \<open>The actions of a mutation: one per session of each user with something to see, all of a
  connection the same.\<close>

lemma patches_sent:
  "sent_to d (patchActions P w H pr ms paths) =
     (if available w d \<and> visibleMutations H (userOf (conns w d)) ms paths \<noteq> [] then sessions_of H d else 0)"
proof -
  have "sent_to d (List.map_filter (\<lambda>p. patchAction P w H pr ms paths (snd p)) us) =
      (if available w d \<and> visibleMutations H (userOf (conns w d)) ms paths \<noteq> []
       then length (filter (\<lambda>p. snd p = d) us) else 0)" for us :: "(int \<times> nat) list"
  proof (induction us)
    case (Cons p us)
    then show ?case
      by (cases "patchAction P w H pr ms paths (snd p)")
        (auto simp: List.map_filter_simps patchAction_Some patchAction_def Let_def split: if_splits)
  qed (simp add: List.map_filter_simps)
  then show ?thesis by (simp add: patchActions_def sessions_of_def)
qed

lemma pushed_patch:
  "pushed P H H' C visible =
     (let patch = statePatch H (lastStateRevision C) (revision H') visible in
      case validateEncodable P patch of
        None \<Rightarrow> patch | Some _ \<Rightarrow> stateSnapshotFrameLocked H' (userOf C))"
proof -
  let ?patch = "statePatch H (lastStateRevision C) (revision H') visible"
  have "pushed P H H' C visible =
      (if EncodeFrame P ?patch \<noteq> None then ?patch else stateSnapshotFrameLocked H' (userOf C))"
    by (simp only: pushed_def Let_def statePatch_def)
  then show ?thesis using validate_None(1) [of P ?patch]
    by (cases "validateEncodable P ?patch") (simp_all add: Let_def del: validate_None)
qed

lemma patches_frame:
  assumes "a \<in> set (patchActions P w H pr ms paths)" "act_connection a = d"
    and "revision H' = revision pr"
    and "stateSnapshotFrameLocked pr (userOf (conns w d)) = stateSnapshotFrameLocked H' (userOf (conns w d))"
  shows "act_frame a = pushed P H H' (conns w d) (visibleMutations H (userOf (conns w d)) ms paths) \<and>
    \<not> act_priority a"
proof -
  obtain p where "patchAction P w H pr ms paths (snd p) = Some a"
    using assms(1) by (auto simp: patchActions_def map_filter_mem)
  then show ?thesis using assms(2-)
    by (auto simp: patchAction_Some pushed_patch Let_def simp del: validate_None split: option.split)
qed

lemma patches_length: "length (patchActions P w H pr ms paths) \<le> length (users H)"
  unfolding patchActions_def List.map_filter_def length_map by (rule length_filter_le)

text \<open>What is pushed can be encoded: the change was validated for every user of the home.\<close>

lemma pushed_encodes:
  assumes "validateRequiredFramesLocked P w pr = None" "users pr = users H" "(s, d) \<in> set (users H)"
    and "stateSnapshotFrameLocked pr (userOf (conns w d)) = stateSnapshotFrameLocked H' (userOf (conns w d))"
  shows "EncodeFrame P (pushed P H H' (conns w d) visible) \<noteq> None"
proof -
  have "firstUnencodable P (concat (map (requiredFrames pr) (requiredUsers w pr))) = None"
    using assms(1) by (simp add: validateRequiredFramesLocked_def split: option.splits)
  moreover have "userOf (conns w d) \<in> set (requiredUsers w pr)"
    using assms(2,3) by (force simp: requiredUsers_def)
  ultimately have "EncodeFrame P (stateSnapshotFrameLocked pr (userOf (conns w d))) \<noteq> None"
    by (force simp: firstUnencodable_None requiredFrames_def)
  then show ?thesis by (simp add: pushed_def Let_def assms(4))
qed

section \<open>A mutation of the state\<close>

text \<open>What a connection is after a mutation, for a session that is told: the frame is queued once per
  session, unless the connection has failed, which it does not where there is room.\<close>

definition told :: "protocol \<Rightarrow> relay \<Rightarrow> relay \<Rightarrow> nat \<Rightarrow> nat \<Rightarrow> nat \<Rightarrow> frame \<Rightarrow> bool" where
  "told P w w' d n sessions F \<longleftrightarrow>
     (\<exists>b. EncodeFrame P F = Some b \<and>
       (let delivered = (queue (conns w' d) = queue (conns w d) @ replicate n (plainMessage F b)) in
        (fatalOnce (conns w' d) \<or> delivered) \<and>
        (room w d (int (n * length b)) (int (Suc sessions) * MaxFrameBytes P) \<longrightarrow> delivered)))"

lemma setRevisions_frame:
  "cfg (setRevisions rv as w) = cfg w" "admission (setRevisions rv as w) = admission w"
  by (induction as arbitrary: w) simp_all

lemma told_dispatch:
  assumes "codec_bounded P" "EncodeFrame P F = Some b" "length acts \<le> k"
    and "\<forall>a \<in> set acts. act_connection a = d \<longrightarrow> act_frame a = F \<and> \<not> act_priority a"
    and "cfg v = cfg w" "same_queue (conns w d) (conns v d)"
    and "adm_queuedBytes (admission v) \<le> adm_queuedBytes (admission w) + MaxFrameBytes P"
  shows "told P w (dispatch P acts v) d (sent_to d acts) k F"
proof -
  let ?n = "sent_to d acts" and ?msg = "plainMessage F b"
  let ?done = "queue (conns (dispatch P acts v) d) = queue (conns w d) @ replicate ?n ?msg"
  have q: "queue (conns v d) = queue (conns w d)" using assms(6) by (simp add: same_queue_def)
  have "fatalOnce (conns (dispatch P acts v) d) \<or> ?done"
    using dispatch_delivers [OF assms(2,4), of v] q by auto
  moreover have ?done if r: "room w d (int (?n * length b)) (int (Suc k) * MaxFrameBytes P)"
  proof -
    have "int (length acts) * MaxFrameBytes P \<le> int k * MaxFrameBytes P"
      using assms(1,3) by (intro mult_right_mono) (simp_all add: codec_bounded_def)
    moreover have s: "int (Suc k) * MaxFrameBytes P = MaxFrameBytes P + int k * MaxFrameBytes P"
      by (simp add: algebra_simps)
    ultimately have "room v d (int (?n * length b)) (int (length acts) * MaxFrameBytes P)"
      using r assms(5-7) unfolding room_def same_queue_def s by simp
    from dispatch_room [OF assms(1,2,4) this] show ?thesis using q by simp
  qed
  ultimately show ?thesis using assms(2) unfolding told_def Let_def by blast
qed

lemma patches_told:
  fixes P w H pr ms paths
  defines "acts \<equiv> patchActions P w H pr ms paths"
  assumes "codec_bounded P" "validateRequiredFramesLocked P w pr = None" "0 < sent_to d acts"
    and "users pr = users H" "revision H' = revision pr"
    and "stateSnapshotFrameLocked pr (userOf (conns w d)) = stateSnapshotFrameLocked H' (userOf (conns w d))"
    and "cfg v = cfg w" "same_queue (conns w d) (conns v d)"
    and "adm_queuedBytes (admission v) \<le> adm_queuedBytes (admission w) + MaxFrameBytes P"
  shows "told P w (dispatch P acts v) d (sent_to d acts) (length (users H))
    (pushed P H H' (conns w d) (visibleMutations H (userOf (conns w d)) ms paths))"
proof -
  let ?F = "pushed P H H' (conns w d) (visibleMutations H (userOf (conns w d)) ms paths)"
  have "0 < sessions_of H d" using assms(4) by (simp add: acts_def patches_sent split: if_splits)
  then obtain s where "(s, d) \<in> set (users H)" by (auto simp: sessions_of_def filter_empty_conv)
  then obtain b where b: "EncodeFrame P ?F = Some b"
    using pushed_encodes [OF assms(3,5) _ assms(7)] by blast
  have "\<forall>a \<in> set acts. act_connection a = d \<longrightarrow> act_frame a = ?F \<and> \<not> act_priority a"
    unfolding acts_def
  proof (intro ballI impI)
    fix a assume "a \<in> set (patchActions P w H pr ms paths)" "act_connection a = d"
    from patches_frame [OF this assms(6,7)] show "act_frame a = ?F \<and> \<not> act_priority a" .
  qed
  moreover have "length acts \<le> length (users H)" unfolding acts_def by (rule patches_length)
  ultimately show ?thesis using told_dispatch [OF assms(2) b _ _ assms(8-10)] by blast
qed

text \<open>One connection after a mutation that is committed.\<close>

lemma commit_tells:
  assumes "commitStateSet P h c requestID ms paths changes w = (Handled, w')" "codec_bounded P"
    and "map fst changes = paths" "d \<noteq> c"
  defines "H \<equiv> homes w h" and "H' \<equiv> mutatedHome (nameOf (conns w c)) changes (homes w h)"
    and "visible \<equiv> shown (homes w h) (userOf (conns w d)) ms changes"
  shows "if available w d \<and> visible \<noteq> [] \<and> 0 < sessions_of H d
    then lastStateRevision (conns w' d) = revision H' \<and>
      told P w w' d (sessions_of H d) (length (users H)) (pushed P H H' (conns w d) visible)
    else conns w' d = conns w d"
  using assms(1)
proof (cases rule: commit_cases)
  case (applied w1 acts)
  let ?pr = "projectionForStateLocked H (applyMutations changes (state H)) (revision H + 1)"
  note applied = applied [folded H_def, folded H'_def [unfolded H_def [symmetric]]]
  have vis: "visibleMutations H (userOf (conns w d)) ms paths = visible"
    unfolding visible_def H_def by (rule shown_visible [OF assms(3)])
  define w3 where "w3 = setRevisions (revision H') acts (updHome h (mutatedHome (nameOf (conns w c)) changes) w1)"
  have w': "w' = dispatch P acts w3" by (simp add: applied(4) w3_def)
  have e: "only_queues w w1" "conns w1 d = conns w d"
    using only_queues_enqueue [of w P "stateSetOK requestID H" True c] assms(4)
      only_conn_enqueue [of c w P "stateSetOK requestID H" True] by (simp_all add: applied(2) only_conn_def)
  have w3: "conns w3 d = (if 0 < sent_to d acts
      then (conns w d)\<lparr>lastStateRevision := revision H'\<rparr> else conns w d)"
    by (simp add: w3_def setRevisions_conn e(2) sent_to_pos)
  have a: "adm_queuedBytes (admission w3) \<le> adm_queuedBytes (admission w) + MaxFrameBytes P" "cfg w3 = cfg w"
    using enqueue_spends [OF assms(2), of "stateSetOK requestID H" True c w] only_queues_world [OF e(1)]
    by (simp_all add: w3_def setRevisions_frame applied(2))
  have n: "sent_to d acts = (if available w d \<and> visible \<noteq> [] then sessions_of H d else 0)"
    unfolding applied(3) patches_sent vis ..
  have pr: "users ?pr = users H" "revision H' = revision ?pr"
    by (simp_all add: H'_def H_def projectionForStateLocked_def baseProjectionLocked_def)
  have "told P w w' d (sent_to d acts) (length (users H)) (pushed P H H' (conns w d) visible)"
    if "0 < sent_to d acts"
    using patches_told [OF assms(2) applied(5) that [unfolded applied(3)] pr
        projection_snapshot [of H changes _ "nameOf (conns w c)", folded H_def H'_def [unfolded H_def [symmetric]]]
        a(2) _ a(1)] w3 unfolding w' applied(3) vis by (simp add: same_queue_def)
  moreover have "conns w' d = conns w d" if "sent_to d acts = 0"
    using dispatch_other [OF that, of P w3] w3 that by (simp add: w')
  moreover have "lastStateRevision (conns w' d) = revision H'" if "0 < sent_to d acts"
    using that w3 by (simp add: w')
  ultimately show ?thesis using n by (auto split: if_splits)
qed simp

lemma state_set_views:
  assumes "applyStateSet P h c f w = (Handled, w')" "codec_bounded P"
  defines "H \<equiv> homes w h" and "H' \<equiv> homes w' h"
  shows "\<exists>ms changes. Option.bind (payload_at (Payload f) 2) arrayValue = Some ms \<and>
    list_all2 (mutation_says H) ms changes \<and>
    get (state H') = replay changes (get (state H)) \<and>
    (\<forall>u. user_view H' u =
       replay (filter (\<lambda>ch. userCanSeeStateLocked H u (fst ch)) changes) (user_view H u)) \<and>
    (\<forall>d. d \<noteq> c \<longrightarrow>
       (let visible = shown H (userOf (conns w d)) ms changes in
        if available w d \<and> visible \<noteq> [] \<and> 0 < sessions_of H d
        then lastStateRevision (conns w' d) = revision H' \<and>
          told P w w' d (sessions_of H d) (length (users H)) (pushed P H H' (conns w d) visible)
        else conns w' d = conns w d))"
  using assms(1)
proof (cases rule: applyStateSet_cases)
  case (committed requestID ms cf paths changes)
  note committed = committed [folded H_def]
  have "map fst changes = paths"
    using decodeMutations_paths [OF committed(6)] resolveMutations_ok [OF committed(5)] by blast
  note tells = commit_tells [OF committed(7) assms(2) this, folded H_def]
  have h: "H' = mutatedHome (nameOf (conns w c)) changes H"
    using committed(7)
  proof (cases rule: commit_cases)
    case (applied w1 acts)
    then show ?thesis
      using enqueue_frame(6) [of P "stateSetOK requestID H" True c w] by (simp add: H'_def H_def)
  qed simp
  have "\<forall>d. d \<noteq> c \<longrightarrow>
       (let visible = shown H (userOf (conns w d)) ms changes in
        if available w d \<and> visible \<noteq> [] \<and> 0 < sessions_of H d
        then lastStateRevision (conns w' d) = revision H' \<and>
          told P w w' d (sessions_of H d) (length (users H)) (pushed P H H' (conns w d) visible)
        else conns w' d = conns w d)"
    unfolding Let_def h by (intro allI impI tells)
  then show ?thesis
    by (intro exI [of _ ms] exI [of _ changes])
      (simp add: committed(8) mutations_say [OF committed(5,6)] h applyMutations_refines mutated_view)
qed simp

end
