(* ===== verification/Home_Props.thy ===== *)
theory Home_Props
  imports Relay_Steps
begin

text \<open>
  Declarations are activated as a whole or not at all, in order; a coordinator that is replaced is
  fenced off; timers that outlive what they were armed for do nothing; the HTTP surface admits only
  what it should and gives back what it took.
\<close>

section \<open>Activation\<close>

lemma setStage_homes [simp]: "homes (setStage st c w) = homes w"
  by (simp add: setStage_def)

lemma userViews_homes [simp]: "homes (snd (userViewActionsLocked h pv b w)) = homes w"
proof -
  have "homes (snd (userViewLoop H pv b us w)) = homes w" for H us
    by (induction us arbitrary: w) (auto simp: Let_def split_beta)
  then show ?thesis by (simp add: userViewActionsLocked_def)
qed

lemma prune_homes [simp]: "homes (pruneSubscriptionsLocked h w) = homes w"
  by (simp add: pruneSubscriptionsLocked_def)

text \<open>A declaration that is not activated leaves the home as it was and drops the stage.\<close>

lemma activation_atomic:
  assumes "activateLocked P h c r st w = (out, w')"
  shows "out = Handled \<and> homes w' = (homes w)(h := activatedHome (homes w h) (nameOf (conns w c)) st) \<or>
    out \<noteq> Handled \<and> homes w' = homes w \<and> stage (conns w' c) = None"
proof (cases "validateActivationLocked P w (homes w h) (nameOf (conns w c)) r st (configFromStage st)")
  case None
  obtain ok w1 where e: "enqueue P (functionSyncOK r st) True c w = (ok, w1)" by (meson surj_pair)
  have q: "only_queues w w1"
    using only_queues_enqueue [of w P "functionSyncOK r st" True c] by (simp only: e snd_conv)
  show ?thesis
    using assms only_queues_world [OF q]
    by (cases ok) (auto simp: activateLocked_def Let_def None e split_beta setStage_def)
qed (use assms in \<open>auto simp: activateLocked_def Let_def setStage_def\<close>)

lemma activation_Handled:
  assumes "activateLocked P h c r st w = (Handled, w')"
  shows "validateActivationLocked P w (homes w h) (nameOf (conns w c)) r st (configFromStage st) = None"
  using assms
  by (cases "validateActivationLocked P w (homes w h) (nameOf (conns w c)) r st (configFromStage st)")
    (simp_all add: activateLocked_def Let_def)

text \<open>After activation the home's owners and state are what the stage declares; what the
  coordinator held before and does not declare again is gone; everything else is as it was.\<close>

lemma held_list:
  "set (case slotActive H n of None \<Rightarrow> [] | Some cf \<Rightarrow> part cf) = held part H n"
  by (simp add: held_def split: option.split)

lemma activation_owners:
  assumes "activateLocked P h c r st w = (Handled, w')" "wf_map (stg_state st)"
  defines "n \<equiv> nameOf (conns w c)" and "H \<equiv> homes w h" and "H' \<equiv> homes w' h"
  shows "get (stateOwners H') p = (if p \<in> set (keys (stg_state st)) then Some n
      else if p \<in> held ownedState H n then None else get (stateOwners H) p)"
    and "get (state H') p = (case get (stg_state st) p of Some v \<Rightarrow> Some v
      | None \<Rightarrow> if p \<in> held ownedState H n then None else get (state H) p)"
    and "get (topicOwners H') t = (if t \<in> set (keys (stg_events st)) then Some n
      else if t \<in> held topicsOf H n then None else get (topicOwners H) t)"
    and "get (functionOwners H') f = (if f \<in> set (stg_functions st) then Some n
      else if f \<in> held cfg_functions H n then None else get (functionOwners H) f)"
    and "get (coordinators H) n \<noteq> None \<Longrightarrow> slotActive H' n = Some (configFromStage st)"
proof -
  have h: "H' = activatedHome H n st"
    using activation_atomic [OF assms(1)] by (simp add: n_def H_def H'_def)
  note C = claim_owners [where name = n and st = st and H = H]
  show "get (stateOwners H') p = (if p \<in> set (keys (stg_state st)) then Some n
      else if p \<in> held ownedState H n then None else get (stateOwners H) p)"
    unfolding h activatedHome_simps C putAll_const fold_del_get held_list ..
  show "get (state H') p = (case get (stg_state st) p of Some v \<Rightarrow> Some v
      | None \<Rightarrow> if p \<in> held ownedState H n then None else get (state H) p)"
    unfolding h activatedHome_simps C putAll_get [OF assms(2)] fold_del_get held_list ..
  show "get (topicOwners H') t = (if t \<in> set (keys (stg_events st)) then Some n
      else if t \<in> held topicsOf H n then None else get (topicOwners H) t)"
    unfolding h activatedHome_simps C putAll_const fold_del_get held_list ..
  show "get (functionOwners H') f = (if f \<in> set (stg_functions st) then Some n
      else if f \<in> held cfg_functions H n then None else get (functionOwners H) f)"
    unfolding h activatedHome_simps C putAll_const fold_del_get held_list ..
  show "slotActive H' n = Some (configFromStage st)" if "get (coordinators H) n \<noteq> None"
    using that by (simp add: h activatedHome_active)
qed

text \<open>Where the owners were exact before, they are after: the coordinator owns what it declared and
  nothing else.\<close>

lemma activation_exact:
  assumes "activateLocked P h c r st w = (Handled, w')" "wf_map (stg_state st)"
  defines "n \<equiv> nameOf (conns w c)" and "H \<equiv> homes w h" and "H' \<equiv> homes w' h"
  assumes "own_ok H"
  shows "get (stateOwners H') p = Some n \<longleftrightarrow> p \<in> set (keys (stg_state st))"
    and "get (topicOwners H') t = Some n \<longleftrightarrow> t \<in> set (keys (stg_events st))"
    and "get (functionOwners H') f = Some n \<longleftrightarrow> f \<in> set (stg_functions st)"
  using assms(6) activation_owners [OF assms(1,2), folded n_def H_def H'_def]
  by (auto simp: own_ok_def owns_ok_def)

text \<open>Slices arrive in order: any other slice than the expected one ends the transaction.\<close>

lemma out_of_order:
  assumes "roleOf (conns w c) = RoleCoordinator" "firstInteger f = Some r"
    and "activeCoordinatorLocked w h c False = None" "Opcode f \<noteq> OpcodeStateSync"
    and "map_option expected (stage (conns w c)) \<noteq> Some (Opcode f)"
  shows "\<exists>w'. handleDeclaration P h c f w = (Failed (applicationError codeUnexpectedFrame False
      ''declaration slices are out of order'' closeProtocol), w') \<and>
    stage (conns w' c) = None \<and> homes w' = homes w"
  using assms by (auto simp: handleDeclaration_def setStage_def split: option.splits)

section \<open>Coordinator generations\<close>

text \<open>A coordinator that is replaced holds no slot any more, so the gate of every handler turns it
  away.\<close>

lemma updSlot_coordinators:
  "get (coordinators (updSlot n g H)) n = map_option g (get (coordinators H) n)"
  by (simp add: updSlot_get)

lemma attach_replaces:
  assumes "attachCoordinator h c w = (Inr reg, w')" "d \<noteq> c"
    and "nameOf (conns w d) = nameOf (conns w c)"
  shows "activeCoordinatorLocked w' h d b = Some generationReplaced"
proof -
  let ?n = "nameOf (conns w c)" and ?w = "updHome h (addConnection (sessionID (conns w c)) c) w"
  let ?slot = "case get (coordinators (homes ?w h)) ?n of None \<Rightarrow> newSlot | Some s \<Rightarrow> s"
  have t: "homes (snd (terminateCallsForConnectionLocked x v)) = homes v"
    "nameOf (conns (snd (terminateCallsForConnectionLocked x v)) y) = nameOf (conns v y)" for x v y
  proof -
    have "homes (snd (terminateLoop x ps v)) = homes v \<and>
        nameOf (conns (snd (terminateLoop x ps v)) y) = nameOf (conns v y)" for ps
      by (induction ps arbitrary: v) (simp_all add: Let_def split_beta removeRouteLocked_def)
    then show "homes (snd (terminateCallsForConnectionLocked x v)) = homes v"
      "nameOf (conns (snd (terminateCallsForConnectionLocked x v)) y) = nameOf (conns v y)"
      by (simp_all add: terminateCallsForConnectionLocked_def)
  qed
  have "nameOf (conns w' d) = ?n \<and>
      (\<exists>s. get (coordinators (homes w' h)) ?n = Some s \<and> slot_connection s = Some c)"
    using assms
    by (auto simp: attachCoordinator_def Let_def split_beta t takeSlot_def updSlot_get
        split: if_splits option.splits)
  then show ?thesis using assms(2) by (auto simp: activeCoordinatorLocked_def)
qed

text \<open>A grace timer armed for an earlier generation, or for a slot that is occupied again, does
  nothing; the one armed for the present generation removes the coordinator.\<close>

lemma stale_grace:
  assumes "get (coordinators (homes w h)) name = Some slot"
    and "slot_generation slot \<noteq> g \<or> slot_connection slot \<noteq> None"
  shows "expireCoordinator P h name g w = w"
  using assms by (simp add: expireCoordinator_def)

section \<open>Detaching\<close>

lemma detachOnce_queues [simp]:
  "detachOnce (conns (snd (terminateCallsForConnectionLocked c w)) d) = detachOnce (conns w d)"
proof -
  have "detachOnce (conns (snd (terminateLoop c ps w)) d) = detachOnce (conns w d)" for ps
    by (induction ps arbitrary: w) (simp_all add: Let_def split_beta removeRouteLocked_def)
  then show ?thesis by (simp add: terminateCallsForConnectionLocked_def)
qed

lemma detachHome_once [simp]: "detachOnce (conns (detachHome P h c w) d) = detachOnce (conns w d)"
  by (simp add: detachHome_def Let_def split_beta setStage_def)

lemma releaseHome_conns [simp]: "conns (releaseHome h w) = conns w"
  by (simp add: releaseHome_def deleteIfUnused_def Let_def)

interpretation detach_once: once_guard "\<lambda>w. detachOnce (conns w c)" "detach P c" for P c
proof unfold_locales
  show "detachOnce (conns (detach P c w) c)" for w
    by (simp add: detach_def Let_def split: option.split)
qed (simp add: detach_def)

section \<open>HTTP\<close>

text \<open>A request that is refused leaves no connection counted; one that is admitted satisfies every
  condition.\<close>

lemma serve_refused:
  assumes "serveWebSocket N q w = (Inl reply, w')" "admitted w"
  shows "activeConnections (admission w') = activeConnections (admission w)" "conns w' = conns w"
proof -
  obtain r A where a: "acquireConnection (cfg w) N (clock w) (RemoteAddr q) (admission w) = (r, A)"
    by (meson surj_pair)
  have inv: "admission_inv (cfg w) (admission w)" using assms(2) by (simp add: admitted_def admission_ok_def)
  have "activeConnections A = activeConnections (admission w)" if "r = Inl e" for e
    using a that trackSource_active
    by (auto simp: acquireConnection_def Let_def setSource_def split: sum.splits option.splits
        prod.splits if_splits)
  moreover have "activeConnections (releaseConnection t s A) = activeConnections (admission w)"
    if "r = Inr s" for s t
    using acquire_release_counts [OF inv] a that by simp
  ultimately show "activeConnections (admission w') = activeConnections (admission w)" "conns w' = conns w"
    using assms(1) by (auto simp: serveWebSocket_def release_def Let_def a split: sum.splits if_splits)
qed

lemma serve_admitted:
  assumes "serveWebSocket N q w = (Inr source, w')"
  shows "http_method q = ''GET'' \<and> hasSubprotocol (Protocols q) ''miakapp'' \<and>
    (Origins q = [] \<or> (\<exists>origin \<in> set (AllowedOrigins (cfg w)). Origins q = [origin])) \<and>
    canonicalRemoteIP N (RemoteAddr q) = Inr source \<and> conns w' = conns w"
proof -
  obtain r A where a: "acquireConnection (cfg w) N (clock w) (RemoteAddr q) (admission w) = (r, A)"
    by (meson surj_pair)
  have r: "r = Inr source \<and> http_method q = ''GET'' \<and> originAllowed (cfg w) (Origins q) \<and>
      hasSubprotocol (Protocols q) ''miakapp'' \<and> conns w' = conns w"
    using assms
    by (auto simp: serveWebSocket_def Let_def a websocketSubprotocol_def split: sum.splits if_splits)
  then have "canonicalRemoteIP N (RemoteAddr q) = Inr source"
    using a by (auto simp: acquireConnection_def Let_def split: sum.splits option.splits prod.splits if_splits)
  moreover have "Origins q = [] \<or> (\<exists>origin \<in> set (AllowedOrigins (cfg w)). Origins q = [origin])"
    using r by (auto simp: originAllowed_def split: list.splits)
  ultimately show ?thesis using r by blast
qed

text \<open>An activation that validates and whose acknowledgement is queued is handled.\<close>

lemma activation_succeeds:
  assumes "validateActivationLocked P w (homes w h) (nameOf (conns w c)) r st (configFromStage st) = None"
    and "fst (enqueue P (functionSyncOK r st) True c w)"
  shows "fst (activateLocked P h c r st w) = Handled"
  using assms by (simp add: activateLocked_def Let_def split_beta split: bool.split prod.split)

section \<open>The end of the drain window\<close>

text \<open>Stopping a list of connections closes each of them once.\<close>

lemma stop_other: "d \<noteq> c \<Longrightarrow> conns (stop s r c w) d = conns w d"
  by (simp add: stop_def Let_def stopLease_def)

lemma stop_effect:
  "closeOnce (conns (stop s r c w) c) \<and>
   (\<not> closeOnce (conns w c) \<longrightarrow> socketClosed (conns (stop s r c w) c) = Some (s, r) \<and>
      queue (conns (stop s r c w) c) = [] \<and> phase (conns (stop s r c w) c) = phaseClosed)"
  by (simp add: stop_def Let_def stopLease_def)

lemma stopAll_spent: "closeOnce (conns w c) \<Longrightarrow> conns (stopAll s r cs w) c = conns w c"
proof (induction cs arbitrary: w)
  case (Cons d cs)
  have "conns (stop s r d w) c = conns w c"
    using Cons.prems once_stop.act_fired stop_other by metis
  then show ?case using Cons by simp
qed simp

lemma stopAll_closes:
  "c \<in> set cs \<Longrightarrow> closeOnce (conns (stopAll s r cs w) c) \<and>
   (\<not> closeOnce (conns w c) \<longrightarrow> socketClosed (conns (stopAll s r cs w) c) = Some (s, r) \<and>
      queue (conns (stopAll s r cs w) c) = [] \<and> phase (conns (stopAll s r cs w) c) = phaseClosed)"
proof (induction cs arbitrary: w)
  case (Cons d cs)
  note S = stop_effect [of s r d w]
  show ?case
  proof (cases "d = c")
    case True
    then show ?thesis using S stopAll_spent [of "stop s r d w" c s r cs] by simp
  next
    case False
    then show ?thesis using Cons stop_other [of c d s r w] by simp
  qed
qed simp

end
