(* ===== verification/Door_Inv.thy ===== *)
theory Door_Inv
  imports Relay_Steps
begin

text \<open>
  What happens at the door and stays true inside: every admission that is counted is held by a request
  that is being upgraded or by one that runs a connection, a request identifier stays in flight
  until its answer is written, and an announced drain stays announced. The three are uses of the
  contracts of \<open>Relay_Steps\<close>.
\<close>

section \<open>What an admission counts\<close>

definition active_of :: "admissionController \<Rightarrow> addr \<Rightarrow> int" where
  "active_of A s = (case get (sources A) s of None \<Rightarrow> 0 | Some cur \<Rightarrow> src_active cur)"

lemma get_filter: "wf_map m \<Longrightarrow> get (filter Q m) k =
    (case get m k of None \<Rightarrow> None | Some v \<Rightarrow> if Q (k, v) then Some v else None)"
proof (induction m)
  case (Cons p m)
  then have "get m (fst p) = None" by (simp add: get_None_keys)
  with Cons show ?case by (cases p) (auto split: option.splits)
qed simp

lemma prune_active:
  "wf_map (sources A) \<Longrightarrow> active_of (pruneSourcesLocked t A) s = active_of A s"
  by (auto simp: active_of_def pruneSourcesLocked_def get_filter split: option.split)

lemma track_active:
  assumes "trackSource cf t s A = (r, A')" "wf_map (sources A)"
  shows "active_of A' x = active_of A x"
    and "activeConnections A' = activeConnections A"
    and "r = Some cur \<Longrightarrow> get (sources A') s = Some cur"
proof -
  define B where "B = (if int (length (sources A)) \<ge> MaxTrackedIPs cf then pruneSourcesLocked t A else A)"
  have B: "active_of B x = active_of A x" for x using prune_active [OF assms(2)] by (simp add: B_def)
  show "activeConnections A' = activeConnections A" using assms(1) by (rule trackSource_active)
  show "r = Some cur \<Longrightarrow> get (sources A') s = Some cur" using assms(1) trackSource_get by blast
  show "active_of A' x = active_of A x"
  proof (cases "get (sources A) s")
    case None
    have "active_of B s = 0" using B [of s] None by (simp add: active_of_def)
    then show ?thesis using assms(1) B [of x]
      by (auto simp: trackSource_def None Let_def active_of_def simp flip: B_def
          split: if_splits option.splits)
  next
    case (Some cur)
    then show ?thesis using assms(1) by (simp add: trackSource_def)
  qed
qed

lemma acquire_active:
  assumes "acquireConnection cf N t remote A = (r, A')" "wf_map (sources A)"
  shows "active_of A' x = active_of A x + (if r = Inr x then 1 else 0)"
    and "activeConnections A' = activeConnections A + (if isl r then 0 else 1)"
proof -
  have "active_of A' x = active_of A x + (if r = Inr x then 1 else 0) \<and>
      activeConnections A' = activeConnections A + (if isl r then 0 else 1)"
  proof (cases "canonicalRemoteIP N remote")
    case (Inl e)
    show ?thesis using assms(1) by (auto simp: acquireConnection_def Inl)
  next
    case (Inr s)
    obtain o1 A1 where t: "trackSource cf t s A = (o1, A1)" by (meson surj_pair)
    note T = track_active [OF t assms(2)]
    show ?thesis
    proof (cases o1)
      case None
      then show ?thesis using assms(1) T by (auto simp: acquireConnection_def Inr t)
    next
      case (Some cur0)
      have g: "get (sources A1) s = Some cur0" using T(3) Some by blast
      have a: "src_active (rollWindow t cur0) = src_active cur0" by (simp add: rollWindow_def)
      show ?thesis using assms(1) T(1) [of x] T(2) g a
        by (auto simp: acquireConnection_def Inr t Some Let_def setSource_def active_of_def
            split: if_splits option.splits)
    qed
  qed
  then show "active_of A' x = active_of A x + (if r = Inr x then 1 else 0)"
    "activeConnections A' = activeConnections A + (if isl r then 0 else 1)" by blast+
qed

lemma release_active:
  assumes "0 < active_of A s" "0 < activeConnections A"
  shows "active_of (releaseConnection t s A) x = active_of A x - (if x = s then 1 else 0)"
    and "activeConnections (releaseConnection t s A) = activeConnections A - 1"
  using assms
  by (auto simp: releaseConnection_def active_of_def Let_def setSource_def split: option.splits if_splits)

section \<open>The tokens\<close>

text \<open>The admissions that somebody will still release, and how many of them a source holds.\<close>

definition tokens :: "relay \<Rightarrow> connectionAdmission list" where
  "tokens w = upgrades w @ map snd (serving w)"

definition held_by :: "relay \<Rightarrow> addr \<Rightarrow> nat" where
  "held_by w s = length (filter (\<lambda>token. token_source token = s) (tokens w))"

definition counted :: "relay \<Rightarrow> bool" where
  "counted w \<longleftrightarrow>
     activeConnections (admission w) = int (length (tokens w)) \<and>
     (\<forall>s. active_of (admission w) s = int (held_by w s)) \<and>
     (\<forall>token \<in> set (tokens w). \<not> token_once token) \<and>
     wf_map (serving w) \<and> (\<forall>c \<in> set (keys (serving w)). c < nconns w) \<and>
     set (live w) \<subseteq> set (keys (serving w))"

lemma filter_remove1:
  "x \<in> set xs \<Longrightarrow> int (length (filter Q (remove1 x xs))) = int (length (filter Q xs)) - (if Q x then 1 else 0)"
  by (induction xs) auto

lemma length_remove1_eq: "x \<in> set xs \<Longrightarrow> int (length (remove1 x xs)) = int (length xs) - 1"
  using filter_remove1 [of x xs "\<lambda>_. True"] by simp

lemma del_snd:
  "wf_map m \<Longrightarrow> get m k = Some v \<Longrightarrow>
   int (length (filter Q (map snd (del k m)))) = int (length (filter Q (map snd m))) - (if Q v then 1 else 0)"
proof (induction m)
  case (Cons p m)
  show ?case
  proof (cases "fst p = k")
    case True
    have "del k m = m" using Cons.prems(1) True by (intro delete_id) simp
    then show ?thesis using True Cons.prems by (cases p) auto
  next
    case False
    then show ?thesis using Cons by (cases p) auto
  qed
qed simp

text \<open>A request is granted, and it releases what it holds, before its upgrade or after its session.\<close>

lemma counted_grant:
  assumes "counted w" "wf_map (sources (admission w))"
    and "acquireConnection (cfg w) N t remote (admission w) = (Inr s, A)"
  shows "counted (w\<lparr>admission := A, upgrades := \<lparr>token_source = s, token_once = False\<rparr> # upgrades w\<rparr>)"
  using assms(1) acquire_active [OF assms(3,2)]
  by (auto simp: counted_def tokens_def held_by_def)

lemma counted_refuse:
  assumes "counted w" "wf_map (sources (admission w))"
    and "acquireConnection (cfg w) N t remote (admission w) = (Inl e, A)"
  shows "counted (w\<lparr>admission := A\<rparr>)"
  using assms(1) acquire_active [OF assms(3,2)]
  by (auto simp: counted_def tokens_def held_by_def)

lemma counted_pos:
  assumes "counted w" "token \<in> set (tokens w)"
  shows "0 < active_of (admission w) (token_source token)" "0 < activeConnections (admission w)"
proof -
  have "filter (\<lambda>x. token_source x = token_source token) (tokens w) \<noteq> []"
    using assms(2) by (auto simp: filter_empty_conv)
  then have "0 < held_by w (token_source token)" by (simp add: held_by_def)
  moreover have "0 < length (tokens w)" using assms(2) by (cases "tokens w") auto
  ultimately show "0 < active_of (admission w) (token_source token)" "0 < activeConnections (admission w)"
    using assms(1) by (simp_all add: counted_def)
qed

lemma counted_abandon:
  assumes "counted w" "token \<in> set (upgrades w)"
  shows "counted (abandonUpgrade token w)"
proof -
  have t: "token \<in> set (tokens w)" using assms(2) by (simp add: tokens_def)
  then have "\<not> token_once token" using assms(1) by (simp add: counted_def)
  then have "snd (release (clock w) (token, admission w)) =
      releaseConnection (clock w) (token_source token) (admission w)" by (simp add: release_def)
  with release_active [OF counted_pos [OF assms(1) t]] assms show ?thesis
    using length_remove1_eq [OF assms(2)] filter_remove1 [OF assms(2)]
    by (auto simp: counted_def tokens_def held_by_def abandonUpgrade_def notin_set_remove1
        dest: set_remove1_subset [THEN subsetD])
qed

lemma counted_close:
  assumes "counted w" shows "counted (closeSession c w)"
proof (cases "get (serving w) c")
  case None
  then show ?thesis using assms by (simp add: closeSession_def)
next
  case (Some token)
  have wf: "wf_map (serving w)" using assms by (simp add: counted_def)
  have mem: "(c, token) \<in> set (serving w)" using Some by (rule map_of_SomeD)
  then have t: "token \<in> set (tokens w)" by (force simp: tokens_def)
  then have "\<not> token_once token" using assms by (simp add: counted_def)
  then have r: "snd (release (clock w) (token, admission w)) =
      releaseConnection (clock w) (token_source token) (admission w)" by (simp add: release_def)
  have len: "int (length (del c (serving w))) = int (length (serving w)) - 1"
    using del_snd [OF wf Some, of "\<lambda>_. True"] by simp
  have sub: "set (map snd (del c (serving w))) \<subseteq> set (map snd (serving w))" by (auto simp: set_del)
  show ?thesis
    using assms release_active [OF counted_pos [OF assms t]] len sub del_snd [OF wf Some]
    by (auto simp: closeSession_def Some Let_def forgetConnection_def r counted_def tokens_def
        held_by_def keys_del simp del: set_map)
qed

lemma counted_moved:
  assumes "counted w" "token \<in> set (upgrades w)" "c = nconns w"
    and "admission w' = admission w" "upgrades w' = remove1 token (upgrades w)"
    and "serving w' = put c token (serving w)" "live w' = sadd c (live w)" "nconns w' = c + 1"
  shows "counted w'"
proof -
  have c: "c \<notin> set (keys (serving w))" using assms(1,3) by (auto simp: counted_def)
  have s: "serving w' = serving w @ [(c, token)]" using put_new [OF c] assms(6) by simp
  have len: "int (length (tokens w')) = int (length (tokens w))"
    using length_remove1_eq [OF assms(2)] by (simp add: tokens_def s assms(5))
  have h: "held_by w' x = held_by w x" for x
  proof -
    have "int (held_by w' x) = int (held_by w x)"
      using filter_remove1 [OF assms(2), of "\<lambda>token. token_source token = x"]
      by (simp add: held_by_def tokens_def s assms(5))
    then show ?thesis by simp
  qed
  have "set (tokens w') \<subseteq> set (tokens w)"
    using assms(2) set_remove1_subset [of token "upgrades w"] by (auto simp: tokens_def s assms(5))
  then show ?thesis
    using assms(1,3,4,7,8) c len h by (auto simp: counted_def s less_Suc_eq)
qed

lemma counted_open:
  assumes "counted w" "token \<in> set (upgrades w)"
  shows "counted (snd (openSession token w))"
proof -
  have same: "counted w'" if "admission w' = admission w" "upgrades w' = upgrades w"
    "serving w' = serving w" "live w' = live w" "nconns w \<le> nconns w'" for w'
    using assms(1) that by (force simp: counted_def tokens_def held_by_def)
  obtain i n where i: "sessionLoop 2 (nextSession w) = (i, n)" by (meson surj_pair)
  show ?thesis
  proof (cases i)
    case None
    have "counted (abandonUpgrade token (w\<lparr>nextSession := n\<rparr>))"
      using assms(2) by (intro counted_abandon same) simp_all
    then show ?thesis by (simp add: openSession_def allocateSessionID_def i None)
  next
    case (Some session)
    define w2 where "w2 = snd (makeConnection session (w\<lparr>nextSession := n\<rparr>))"
    have w2: "admission w2 = admission w" "upgrades w2 = upgrades w" "serving w2 = serving w"
      "live w2 = live w" "nconns w2 = nconns w + 1" "closed w2 = closed w"
      by (simp_all add: w2_def makeConnection_def Let_def)
    have m: "makeConnection session (w\<lparr>nextSession := n\<rparr>) = (nconns w, w2)"
      by (simp add: w2_def makeConnection_def Let_def)
    show ?thesis
    proof (cases "closed w")
      case True
      have "counted (abandonUpgrade token w2)"
        using assms(2) w2 by (intro counted_abandon same) simp_all
      then show ?thesis using True
        by (simp add: openSession_def allocateSessionID_def i Some m trackConnection_def w2)
    next
      case False
      show ?thesis
        by (rule counted_moved [OF assms refl])
          (simp_all add: openSession_def allocateSessionID_def i Some m trackConnection_def w2 False)
    qed
  qed
qed

lemma counted_serve:
  assumes "counted w" "wf_map (sources (admission w))"
  shows "counted (snd (ServeHTTP N q w))"
proof -
  obtain r A where a: "acquireConnection (cfg w) N (clock w) (RemoteAddr q) (admission w) = (r, A)"
    by (meson surj_pair)
  show ?thesis
  proof (cases r)
    case (Inl e)
    then show ?thesis using assms(1) counted_refuse [OF assms, of N "clock w" "RemoteAddr q" e A] a
      by (simp add: ServeHTTP_def serveWebSocket_def)
  next
    case (Inr s)
    let ?t = "\<lparr>token_source = s, token_once = False\<rparr>"
    let ?g = "w\<lparr>admission := A, upgrades := ?t # upgrades w\<rparr>"
    have g: "counted ?g" using counted_grant [OF assms] a Inr by simp
    have "counted (abandonUpgrade ?t ?g)" using g by (rule counted_abandon) simp
    moreover have "abandonUpgrade ?t ?g = w\<lparr>admission := snd (release (clock w) (?t, A))\<rparr>"
      by (simp add: abandonUpgrade_def)
    ultimately show ?thesis using assms(1) g
      by (simp add: ServeHTTP_def serveWebSocket_def a Inr Let_def)
  qed
qed

lemma counted_door:
  assumes "door_step N w w'" "counted w" "admitted w" shows "counted w'"
proof -
  have "wf_map (sources (admission w))"
    using assms(3) by (simp add: admitted_def admission_ok_def admission_inv_def)
  then show ?thesis
    using assms(1,2) by (auto simp: door_step_def counted_serve counted_abandon counted_open counted_close)
qed

text \<open>Behind the door nothing touches the tokens.\<close>

definition at_door :: "relay \<Rightarrow> nat \<times> nat list \<times> connectionAdmission list \<times>
    (nat \<times> connectionAdmission) list \<times> (addr \<times> sourceAdmission) list \<times> int" where
  "at_door w = (nconns w, live w, upgrades w, serving w, sources (admission w),
     activeConnections (admission w))"

lemma refund_door [simp]: "at_door (refund n w) = at_door w"
  by (simp add: at_door_def refund_def releaseQueuedBytes_def)

lemma counted_cong: "at_door w' = at_door w \<Longrightarrow> counted w \<Longrightarrow> counted w'"
  by (auto simp: at_door_def counted_def tokens_def held_by_def active_of_def)

interpretation door_budget: budget_contract "\<lambda>w. at_door w = d" for d
proof unfold_locales
  show "at_door (updConn c g w) = d" if "at_door w = d" for w c g
    using that by (simp add: at_door_def)
  show "at_door (refund n w) = d" if "at_door w = d" for w n using that by simp
  show "at_door (w\<lparr>admission := A\<rparr>) = d"
    if "reserveQueuedBytes (cfg w) n (admission w) = (b, A)" "at_door w = d" for w n b A
    using that by (auto simp: at_door_def reserveQueuedBytes_def split: if_splits)
qed

interpretation door_relay: relay_invariant P "\<lambda>w. at_door w = d" for P d
  by unfold_locales (auto simp: at_door_def)

interpretation door_traffic: traffic_contract P "\<lambda>w. at_door w = d" for P d
  by unfold_locales (auto simp: at_door_def)

lemma counted_step:
  assumes "relay_step P N w w'" "counted w" "admitted w" shows "counted w'"
  using door_traffic.I_inner [OF assms(1) refl] counted_door [OF _ assms(2,3)] door_budget.B_write [OF refl]
    counted_cong [OF _ assms(2)] by blast

lemma counted_reachable:
  assumes "reachable_from P N w0 w" "counted w0 \<and> admitted w0" shows "counted w \<and> admitted w"
  using assms by (rule reachable_induct) (use counted_step admission_system.I_step in blast)

lemma counted_new: "counted (newRelay configuration seed)"
  by (simp add: counted_def tokens_def held_by_def newRelay_def newAdmissionController_def active_of_def)

section \<open>Requests in flight\<close>

interpretation request_relay: relay_invariant P "\<lambda>w. r \<in> set (requestIDs (conns w c))" for P r c
  by unfold_locales
    (simp_all add: only_queues_conn [OF only_queues_enqueueMessage] only_queues_conn [OF only_queues_fail]
      only_queues_conn [OF only_queues_stop], auto simp: same_session_def)

interpretation request_door: door_contract P "\<lambda>w. r \<in> set (requestIDs (conns w c))" for P r c
  by unfold_locales (auto simp: same_traffic_def)

text \<open>An identifier leaves the requests in flight only when the message that carries it is written.\<close>

lemma write_keeps_request:
  assumes "r \<in> set (requestIDs (conns w c))"
  shows "r \<in> set (requestIDs (conns (writeStep b d w) c)) \<or>
    b \<and> d = c \<and> (\<exists>m ms. queue (conns w c) = m # ms \<and> afterWrite m = Some r)"
  using assms
  by (auto simp: writeStep_def nextMessage_def endRequest_def Let_def
      only_queues_conn [OF only_queues_stop] split: list.splits option.splits)

lemma step_keeps_request:
  assumes "relay_step P N w w'" "r \<in> set (requestIDs (conns w c))"
  shows "r \<in> set (requestIDs (conns w' c)) \<or>
    (\<exists>m ms. queue (conns w c) = m # ms \<and> afterWrite m = Some r \<and> w' = writeStep True c w)"
proof -
  from request_door.I_step_or_write [OF assms]
  show ?thesis using write_keeps_request [OF assms(2)] by (elim disjE exE) fastforce+
qed

lemma frame_records_request:
  assumes "opcodeByte P (Opcode f) < 128" "requestIdentifier f" "firstInteger f = Some r"
    and "r \<notin> set (requestIDs (conns w c))"
  shows "r \<in> set (requestIDs (conns (snd (frameStep P verify received c f w)) c))"
proof -
  let ?w1 = "updConn c (\<lambda>C. C\<lparr>requestIDs := sadd r (requestIDs C)\<rparr>) w"
  have "r \<in> set (requestIDs (conns ?w1 c))" by simp
  then have "r \<in> set (requestIDs (conns (snd (answer P (Some r) c f (handle P verify received c f ?w1))) c))"
    by (intro request_relay.I_answer request_relay.I_handle)
  then show ?thesis using assms by (simp add: frameStep_def beginRequest_def)
qed

section \<open>Draining\<close>

interpretation drain_relay: relay_invariant P "\<lambda>w. drainOnce (conns w c)" for P c
  by unfold_locales
    (simp_all add: only_queues_conn [OF only_queues_enqueueMessage] only_queues_conn [OF only_queues_fail]
      only_queues_conn [OF only_queues_stop], auto simp: same_session_def)

interpretation drain_system: system_contract P "\<lambda>w. drainOnce (conns w c)" for P c
proof unfold_locales
  show "drainOnce (conns (writeStep b d w) c)" if "drainOnce (conns w c)" for w b d
    using that by (auto simp: writeStep_def nextMessage_def endRequest_def Let_def
        only_queues_conn [OF only_queues_stop] split: list.split option.split)
qed (auto simp: same_traffic_def)

text \<open>A session that is not draining does not begin to by anything a handler does.\<close>

lemma message_phase: "phase (conns (snd (enqueueMessage P f m p c w)) d) = phase (conns w d) \<or>
    phase (conns (snd (enqueueMessage P f m p c w)) d) = phaseClosed"
  using enqueueBytes_phase [OF surjective_pairing, of "m\<lparr>msg_bytes := b\<rparr>" p c w d for b]
  by (auto simp: enqueueMessage_def split_beta stop_phase fail_phase split: option.split bool.split)

interpretation active_relay: relay_invariant P "\<lambda>w. phase (conns w c) \<noteq> phaseDraining" for P c
proof unfold_locales
  show "phase (conns (snd (enqueueMessage P f m p d w)) c) \<noteq> phaseDraining"
    if "phase (conns w c) \<noteq> phaseDraining" for w f m p d
    using message_phase [of P f m p d w c] that by auto
qed (auto simp: fail_phase stop_phase same_session_def)

lemma login_after_drain:
  assumes "drainOnce (conns w c)" "completeAuthentication P random q x c w = (None, w')"
  shows "phase (conns w' c) \<noteq> phaseDraining"
proof -
  obtain h w2 w3 where a: "attach P h c (updConn c (\<lambda>C. C\<lparr>conn_home := Some h, phase := phaseActive\<rparr>) w2) = (None, w3)"
    and w': "w' = (if draining w3 then startDraining P (drainRetryAfterMs w3) (drainReasonCode w3) c w3 else w3)"
    and d: "drainOnce (conns w2 c)"
  proof -
    obtain i where i: "x = Inr i" using assms(2) by (cases x) (auto simp: completeAuthentication_def)
    let ?w1 = "updConn c (\<lambda>C. C\<lparr>conn_identity := i\<rparr>) w"
    have d: "drainOnce (conns (snd (acquire random (HomeID i) ?w1)) c)"
      by (rule drain_relay.I_acquire) (use assms(1) in simp)
    obtain h w2 where h: "acquire random (HomeID i) ?w1 = (Inr h, w2)"
      using assms(2) by (auto simp: completeAuthentication_def i Let_def
          split: option.splits if_splits prod.splits sum.splits acquireError.splits)
    obtain y w3 where y: "attach P h c (updConn c (\<lambda>C. C\<lparr>conn_home := Some h, phase := phaseActive\<rparr>) w2) =
        (y, w3)" by (meson surj_pair)
    have "y = None \<and> w' = (if draining w3
        then startDraining P (drainRetryAfterMs w3) (drainReasonCode w3) c w3 else w3)"
      using assms(2) by (auto simp: completeAuthentication_def i Let_def h y split: option.splits if_splits)
    with y d h show thesis by (intro that [of h w2 w3]) simp_all
  qed
  let ?w = "updConn c (\<lambda>C. C\<lparr>conn_home := Some h, phase := phaseActive\<rparr>) w2"
  have "phase (conns (snd (attach P h c ?w)) c) \<noteq> phaseDraining"
    by (rule active_relay.I_attach) simp
  moreover have "drainOnce (conns (snd (attach P h c ?w)) c)"
    by (rule drain_relay.I_attach) (use d in simp)
  ultimately show ?thesis using a w' by (simp add: startDraining_def)
qed

end
