(* ===== verification/Samples.thy ===== *)
theory Samples
  imports Call_Props Session_Props State_View Home_Props Door_Inv
begin

text \<open>
  Concrete parameters and states at which the properties of \<open>Spec2Isabelle\<close> are evaluated: a
  codec that encodes every frame in one byte, a resolver of addresses, and relays in the states
  the hypotheses of the properties ask for.
\<close>

definition sampleCodec :: protocol where
  "sampleCodec = \<lparr>EncodeFrame = (\<lambda>_. Some [0]), opcodeByte = (\<lambda>_. 1), MaxFrameBytes = 65536,
     MaxInflightCalls = 256, MaxSubscriptions = 1024, MaxStreamCredit = 1024,
     MaxStatePathsPerHome = 4096\<rparr>"

definition sampleNet :: netlib where
  "sampleNet = \<lparr>split_host_port = (\<lambda>s. Some (s, [])), parse_addr = (\<lambda>_. Some (IPv4 1))\<rparr>"

lemma sample_bounded: "codec_bounded sampleCodec"
  by (simp add: codec_bounded_def sampleCodec_def)

lemma sample_config: "config_ok sampleCodec Default"
  by (simp add: config_ok_def sampleCodec_def Default_def defaultMaxQueuedBytes_def)

lemma sample_codec [simp]:
  "EncodeFrame sampleCodec f = Some [0]" "opcodeByte sampleCodec op = 1"
  "MaxFrameBytes sampleCodec = 65536" "MaxInflightCalls sampleCodec = 256"
  "MaxSubscriptions sampleCodec = 1024" "MaxStreamCredit sampleCodec = 1024"
  "MaxStatePathsPerHome sampleCodec = 4096"
  by (simp_all add: sampleCodec_def)

section \<open>A relay at work\<close>

text \<open>One home with a coordinator (connection 0) that owns a path, a topic and a function, and a
  user (connection 1) who may see, publish and subscribe to all of it.\<close>

definition sampleIdentity :: "int \<Rightarrow> string \<Rightarrow> string \<Rightarrow> identity" where
  "sampleIdentity r i name = \<lparr>Role = r, HomeID = ''h'', ID = i,
     ClientID = (if r = 1 then [] else ''k''), CoordinatorName = name, VerifiedEmail = [],
     ExpiresAt = 1000000000000,
     Scopes = [if r = 1 then ''relay:user'' else if r = 2 then ''relay:coordinator'' else ''relay:cli'']\<rparr>"

definition sampleActive :: coordinatorConfig where
  "sampleActive = \<lparr>ownedState = [''a''], cfg_state = [(''a'', VInt 1)],
     cfg_stateACL = [(''u'', [''a''])], cfg_events = [(''t'', 15)],
     cfg_eventACL = [(''u'', \<lparr>publish = [''t''], subscribe_patterns = [''t'']\<rparr>)],
     cfg_functions = [''f'']\<rparr>"

definition sampleSlot :: coordinatorSlot where
  "sampleSlot = \<lparr>slot_generation = 1, slot_connection = Some 0, ready = True,
     active = Some sampleActive, grace = None\<rparr>"

definition sampleHome :: home where
  "sampleHome = (newHome [7] ''h'')\<lparr>references := 2, connections := [(1, 0), (2, 1)],
     users := [(2, 1)], coordinators := [(''c'', sampleSlot)],
     pathsByName := [(''a'', 1)], pathsByID := [(1, ''a'')], nextPathID := 2,
     topicsByName := [(''t'', 1)], topicsByID := [(1, ''t'')], nextTopicID := 2,
     functionsByName := [(''f'', 1)], functionsByID := [(1, ''f'')], nextFunctionID := 2,
     stateOwners := [(''a'', ''c'')], topicOwners := [(''t'', ''c'')],
     functionOwners := [(''f'', ''c'')], state := [(''a'', VInt 1)]\<rparr>"

definition sampleCoordinator :: connection where
  "sampleCoordinator = (newConnection 1)\<lparr>phase := phaseActive, bootstrapped := True,
     conn_identity := sampleIdentity 2 ''h'' ''c'', conn_home := Some 0, generation := 1\<rparr>"

definition sampleUser :: connection where
  "sampleUser = (newConnection 2)\<lparr>phase := phaseActive, bootstrapped := True,
     conn_identity := sampleIdentity 1 ''u'' [], conn_home := Some 0\<rparr>"

definition sampleWorld :: relay where
  "sampleWorld = (newRelay Default 2)\<lparr>
     conns := (\<lambda>_. newConnection 0)(0 := sampleCoordinator, 1 := sampleUser), nconns := 2,
     homes := (\<lambda>_. newHome [] [])(0 := sampleHome), nhomes := 1, registry := [(''h'', 0)],
     live := [0, 1]\<rparr>"

lemmas sample_defs = sampleWorld_def sampleUser_def sampleCoordinator_def sampleHome_def
  sampleSlot_def sampleActive_def sampleIdentity_def newRelay_def newConnection_def newHome_def
  newAdmissionController_def Default_def config_limits second_def

section \<open>Further states and frames\<close>

text \<open>A codec that numbers the opcodes of calls as one block, and everything else below it.\<close>

definition numberedCodec :: protocol where
  "numberedCodec = sampleCodec\<lparr>opcodeByte := (\<lambda>op.
     if op = OpcodeCall then 70 else if op = OpcodeCallDispatch then 71
     else if op = OpcodeCallAccepted then 72 else if op = OpcodeCallResult then 73
     else if op = OpcodeCallError then 74 else if op = OpcodeCallCancel then 75
     else if op = OpcodeCallCredit then 76 else 1)\<rparr>"

lemma numbered_calls: "call_opcodes numberedCodec"
  by (auto simp: call_opcodes_def isCallFlowOpcode_def numberedCodec_def)

lemma sample_validated: "Validate sampleCodec (\<lambda>_. None) Default = None"
  by (simp add: Validate_def Default_def configDurations_def second_def config_limits
      TrimSpace_def space1_def space2_def space3_def)

text \<open>A request that is let through, the token it holds while it is upgraded, and the relay after its
  first upgraded connection.\<close>

definition upgradeGet :: httpRequest where
  "upgradeGet = \<lparr>url_path = ''/ws'', http_method = ''GET'', RemoteAddr = ''x'', Origins = [],
     Protocols = [''miakapp'']\<rparr>"

definition sampleToken :: connectionAdmission where
  "sampleToken = \<lparr>token_source = IPv4 1, token_once = False\<rparr>"

abbreviation connects :: "relay \<Rightarrow> relay" where
  "connects w \<equiv> snd (openSession sampleToken (snd (ServeHTTP sampleNet upgradeGet w)))"

abbreviation freshRelay :: relay where "freshRelay \<equiv> connects (newRelay Default 0)"

lemma connects_reachable:
  assumes "reachable_from P sampleNet w0 w" "list_ex (\<lambda>token. token = sampleToken)
      (upgrades (snd (ServeHTTP sampleNet upgradeGet w)))" "untouched w (nconns w)"
  shows "reachable_from P sampleNet w0 (connects w)"
proof (rule next_step [OF next_step [OF assms(1) request_arrives] session_opens])
  let ?v = "snd (ServeHTTP sampleNet upgradeGet w)"
  show "sampleToken \<in> set (upgrades ?v)" using assms(2) by (auto simp: list_ex_iff)
  have "conns ?v = conns w" "nconns ?v = nconns w"
    by (simp_all add: ServeHTTP_def serveWebSocket_def Let_def split_beta split: sum.split)
  then show "untouched ?v (nconns ?v)" using assms(3) by (simp add: untouched_def)
qed

lemma sample_reachable: "reachable_from sampleCodec sampleNet (newRelay Default 0) freshRelay"
  by (rule connects_reachable [OF start]) (code_simp, simp add: untouched_def newRelay_def)

definition sampleRequest :: request where
  "sampleRequest = \<lparr>req_Role = 1, Token = ''token'', req_HomeID = ''h'',
     req_CoordinatorName = []\<rparr>"

text \<open>A STATE_SET of the coordinator, and a relay in which the request it carries is in flight.\<close>

definition sampleSet :: frame where
  "sampleSet = \<lparr>Opcode = OpcodeStateSet,
     Payload = [VInt 5, VBytes [7], VArray [VArray [VInt 1, VInt 0, VInt 9]]]\<rparr>"

definition inFlight :: "relay \<Rightarrow> relay" where
  "inFlight w = updConn 0 (\<lambda>C. C\<lparr>requestIDs := [5]\<rparr>) w"

text \<open>The user's lease is in force until 1000.\<close>

definition leased :: "relay \<Rightarrow> relay" where
  "leased w = updConn 1 (\<lambda>C. C\<lparr>leaseDeadline := Some 1000\<rparr>) w"

lemma fst_eqD: "fst x = v \<Longrightarrow> x = (v, snd x)"
  by (cases x) simp

section \<open>A run\<close>

text \<open>Two connections open, a coordinator authenticates on the first and declares a path, a topic and
  a function, a user authenticates on the second. Every state on the way is reachable.\<close>

definition coordinatorVerdict :: "request \<Rightarrow> authError + identity" where
  "coordinatorVerdict q = Inr (sampleIdentity 2 ''h'' ''c'')"

definition userVerdict :: "request \<Rightarrow> authError + identity" where
  "userVerdict q = Inr (sampleIdentity 1 ''u'' [])"

definition helloCoordinator :: frame where
  "helloCoordinator = \<lparr>Opcode = OpcodeHello, Payload =
     [VInt 1, VInt 0, VInt 0, VInt 2, VString ''token'', VArray [VString ''c'']]\<rparr>"

definition helloUser :: frame where
  "helloUser = \<lparr>Opcode = OpcodeHello, Payload =
     [VInt 1, VInt 0, VInt 0, VInt 1, VString ''token'', VArray [VString ''h'']]\<rparr>"

definition sampleDeclarations :: "frame list" where
  "sampleDeclarations =
    [\<lparr>Opcode = OpcodeStateSync, Payload = [VInt 1, VArray [VArray [VString ''a'', VInt 1]]]\<rparr>,
     \<lparr>Opcode = OpcodeStateACLSync,
      Payload = [VInt 2, VArray [VArray [VString ''u'', VArray [VString ''a'']]]]\<rparr>,
     \<lparr>Opcode = OpcodeEventSync, Payload = [VInt 3, VArray [VArray [VString ''t'', VInt 15]]]\<rparr>,
     \<lparr>Opcode = OpcodeEventACLSync, Payload = [VInt 4, VArray [VArray [VString ''u'',
        VArray [VString ''t''], VArray [VString ''t'']]]]\<rparr>,
     \<lparr>Opcode = OpcodeFunctionSync, Payload = [VInt 5, VArray [VString ''f'']]\<rparr>]"

fun reads_all :: "protocol \<Rightarrow> nat \<Rightarrow> frame list \<Rightarrow> relay \<Rightarrow> relay" where
  "reads_all P c [] w = w"
| "reads_all P c (f # fs) w = reads_all P c fs (snd (readStep P userVerdict 0 c (Decoded f) w))"

lemma reads_reachable: "reachable_from P N w0 w \<Longrightarrow> reachable_from P N w0 (reads_all P c fs w)"
  by (induction fs arbitrary: w) (auto intro: next_step reads)

definition relayOpened :: relay where "relayOpened = connects freshRelay"

definition relayJoined :: relay where
  "relayJoined = snd (helloStep sampleCodec coordinatorVerdict (Some [7]) 0
     (Decoded helloCoordinator) relayOpened)"

definition relayDeclared :: relay where
  "relayDeclared = reads_all sampleCodec 0 sampleDeclarations relayJoined"

lemma fresh_free: "untouched freshRelay (nconns freshRelay)"
proof -
  have "nconns freshRelay = 1" by code_simp
  moreover have "conns freshRelay 1 = newConnection 0" by code_simp
  ultimately show ?thesis by (simp add: untouched_def)
qed

lemma opened_reachable: "reachable_from sampleCodec sampleNet (newRelay Default 0) relayOpened"
  unfolding relayOpened_def
  by (rule connects_reachable [OF sample_reachable _ fresh_free]) code_simp

lemma joined_reachable: "reachable_from sampleCodec sampleNet (newRelay Default 0) relayJoined"
  unfolding relayJoined_def
  by (rule next_step [OF opened_reachable hello]) code_simp+

lemma declared_reachable: "reachable_from sampleCodec sampleNet (newRelay Default 0) relayDeclared"
  unfolding relayDeclared_def by (rule reads_reachable [OF joined_reachable])

lemma joined_home: "conn_home (conns relayJoined 0) = Some 0" "get (registry relayJoined) ''h'' = Some 0"
  by code_simp+

section \<open>Concrete frames and states for the properties\<close>

definition sampleStage :: declarationStage where
  "sampleStage = (newStage 0 [(''b'', VInt 2)] [(''b'', 2)])\<lparr>stg_functions := [''f''],
     functionIDs := [(''f'', 1)]\<rparr>"

lemma sample_activates: "activateLocked sampleCodec 0 0 5 sampleStage sampleWorld =
    (Handled, snd (activateLocked sampleCodec 0 0 5 sampleStage sampleWorld))"
  by (rule fst_eqD, rule activation_succeeds) code_simp+

text \<open>The coordinator declares its topic again, but no user may subscribe to it any more; the user of
  \<open>subscribedWorld\<close> has subscribed.\<close>

definition keepStage :: declarationStage where
  "keepStage = sampleStage\<lparr>stg_events := [(''t'', 15)], topicIDs := [(''t'', 1)],
     stg_eventACL := [(''u'', \<lparr>publish = [''t''], subscribe_patterns = []\<rparr>)]\<rparr>"

definition subscribedWorld :: relay where
  "subscribedWorld = updConn 1 (\<lambda>C. C\<lparr>subscriptions := [1]\<rparr>) sampleWorld"

text \<open>An event, a subscription and a call of the user, and the answers of the coordinator.\<close>

definition subscribeFrame :: frame where
  "subscribeFrame = \<lparr>Opcode = OpcodeSubscribe, Payload = [VInt 6, VArray [VInt 1]]\<rparr>"

definition callFrame :: frame where
  "callFrame = \<lparr>Opcode = OpcodeCall, Payload =
     [VInt 9, VInt 0, VNil, VInt 1, VInt 1000, VNil, VInt 2, VArray []]\<rparr>"

definition resultFrame :: "bool \<Rightarrow> frame" where
  "resultFrame final = \<lparr>Opcode = OpcodeCallResult, Payload = [VInt 3, VBool final, VInt 4]\<rparr>"

definition cancelFrame :: frame where
  "cancelFrame = \<lparr>Opcode = OpcodeCallCancel, Payload = [VInt 9, VInt 1]\<rparr>"

definition creditFrame :: frame where
  "creditFrame = \<lparr>Opcode = OpcodeCallCredit, Payload = [VInt 9, VInt 5]\<rparr>"

text \<open>The relay while that call is in flight: the user knows it as 9, the coordinator as 3.\<close>

definition sampleRoute :: callRoute where
  "sampleRoute = \<lparr>caller = 1, callee = 0, callerID = 9, calleeID = 3, credit = 2,
     accepted = True, terminal = False, deadline = 1000000000, route_timer = True\<rparr>"

definition calledWorld :: relay where
  "calledWorld = sampleWorld\<lparr>
     conns := (\<lambda>_. newConnection 0)(0 := sampleCoordinator\<lparr>calls := [(3, 0)], nextCallID := 3\<rparr>,
       1 := sampleUser\<lparr>calls := [(9, 0)]\<rparr>),
     routes := (routes sampleWorld)(0 := sampleRoute), nroutes := 1\<rparr>"

lemma called_table: "call_table sampleCodec calledWorld"
  by (auto simp: call_table_def table_ok_def table_sound_def table_complete_def table_bounded_def
      all_accepted_def route_at_def calledWorld_def sampleRoute_def sample_defs split: if_splits)

text \<open>A second connection authenticated under the coordinator's name.\<close>

definition secondCoordinator :: relay where
  "secondCoordinator = updConn 2 (\<lambda>_. sampleCoordinator\<lparr>generation := 0\<rparr>) sampleWorld"

definition streamMessage :: "byte list \<Rightarrow> outboundMessage" where
  "streamMessage b = (plainMessage sampleSet b)\<lparr>droppableStream := True\<rparr>"

lemma Inr_pair: "\<not> isl (fst x) \<Longrightarrow> \<exists>r. x = (Inr r, snd x)"
  by (cases x, cases "fst x") auto

lemma Inl_pair: "isl (fst x) \<Longrightarrow> \<exists>e. x = (Inl e, snd x)"
  by (cases x, cases "fst x") auto

text \<open>A request that is no GET, and a controller that has admitted one connection.\<close>

definition upgradePost :: httpRequest where
  "upgradePost = \<lparr>url_path = ''/ws'', http_method = ''POST'', RemoteAddr = ''x'', Origins = [],
     Protocols = [''miakapp'']\<rparr>"

definition onceSource :: sourceAdmission where
  "onceSource = \<lparr>windowStartedAt = 0, attempts = 1, src_active = 1\<rparr>"

definition onceAdmitted :: admissionController where
  "onceAdmitted = newAdmissionController\<lparr>activeConnections := 1, sources := [(IPv4 1, onceSource)]\<rparr>"

end
