(* ===== verification/Key_Documents.thy ===== *)
theory Key_Documents
  imports Config Identity
begin

text \<open>
  The public-key documents of the Control Plane (\<open>internal/auth/key_cache.go\<close>, lines 228-240 and
  328-511): the bounds on a body, the rejection of unpaired surrogate escapes, and the closed
  profile a key must have.

  A body is a \<open>string\<close>, one \<open>char\<close> for each byte. The tree that \<open>encoding/json\<close> reads from it is the
  parameter \<open>json_parse\<close>: the document as a whole, with the members of an object in their order
  and duplicates kept, or \<open>None\<close> when reading it to the end of the input fails.
\<close>

definition maximumKeyDocumentBytes :: nat where "maximumKeyDocumentBytes = 65536"
definition maximumPublicKeys :: nat where "maximumPublicKeys = 16"

section \<open>Escapes\<close>

abbreviation quote_char :: char where "quote_char \<equiv> CHR 0x22"
abbreviation backslash :: char where "backslash \<equiv> CHR 0x5C"

definition hexDigit :: "char \<Rightarrow> 16 word option" where
  "hexDigit c =
     (let n = (of_char c :: nat) in
      if 0x30 \<le> n \<and> n \<le> 0x39 then Some (of_nat (n - 0x30))
      else if 0x61 \<le> n \<and> n \<le> 0x66 then Some (of_nat (n - 0x61) + 10)
      else if 0x41 \<le> n \<and> n \<le> 0x46 then Some (of_nat (n - 0x41) + 10)
      else None)"

fun hexLoop :: "string \<Rightarrow> 16 word \<Rightarrow> 16 word option" where
  "hexLoop [] v = Some v"
| "hexLoop (c # cs) v =
     (case hexDigit c of None \<Rightarrow> None | Some d \<Rightarrow> hexLoop cs (push_bit 4 v + d))"

definition decodeHexQuad :: "string \<Rightarrow> 16 word option" where
  "decodeHexQuad s = (if length s \<noteq> 4 then None else hexLoop s 0)"

text \<open>The number of backslashes right before an index, counted backwards as the source does.\<close>

definition backslashesBefore :: "string \<Rightarrow> nat \<Rightarrow> nat" where
  "backslashesBefore s i = length (takeWhile (\<lambda>c. c = backslash) (rev (take i s)))"

definition low_surrogate :: "16 word \<Rightarrow> bool" where
  "low_surrogate v \<longleftrightarrow> 0xDC00 \<le> v \<and> v \<le> 0xDFFF"

definition high_surrogate :: "16 word \<Rightarrow> bool" where
  "high_surrogate v \<longleftrightarrow> 0xD800 \<le> v \<and> v \<le> 0xDBFF"

text \<open>The loop from an index on; \<open>True\<close>: no error.\<close>

function surrogateLoop :: "string \<Rightarrow> nat \<Rightarrow> bool \<Rightarrow> bool" where
  "surrogateLoop s i inString =
     (if i \<ge> length s then True
      else if s ! i = quote_char
      then surrogateLoop s (i + 1) (if even (backslashesBefore s i) then \<not> inString else inString)
      else if s ! i = backslash then
        if \<not> inString \<or> i + 5 \<ge> length s \<or> s ! (i + 1) \<noteq> CHR ''u''
        then surrogateLoop s (i + 1) inString
        else if odd (backslashesBefore s i) then surrogateLoop s (i + 1) inString
        else (case decodeHexQuad (take 4 (drop (i + 2) s)) of
            None \<Rightarrow> surrogateLoop s (i + 1) inString
          | Some codePoint \<Rightarrow>
              if low_surrogate codePoint then False
              else if high_surrogate codePoint then
                if i + 11 \<ge> length s \<or> s ! (i + 6) \<noteq> backslash \<or> s ! (i + 7) \<noteq> CHR ''u'' then False
                else (case decodeHexQuad (take 4 (drop (i + 8) s)) of
                    None \<Rightarrow> False
                  | Some low \<Rightarrow>
                      if \<not> low_surrogate low then False else surrogateLoop s (i + 7) inString)
              else surrogateLoop s (i + 1) inString)
      else surrogateLoop s (i + 1) inString)"
  by pat_completeness auto
termination
  by (relation "measure (\<lambda>(s, i, _). length s - i)") auto

declare surrogateLoop.simps [simp del]

definition rejectUnpairedSurrogateEscapes :: "string \<Rightarrow> bool" where
  "rejectUnpairedSurrogateEscapes s \<longleftrightarrow> \<not> surrogateLoop s 0 False"

text \<open>The same in one pass, with the parity of the backslashes just read carried along.\<close>

fun surrogateScan :: "bool \<Rightarrow> bool \<Rightarrow> string \<Rightarrow> bool" where
  "surrogateScan inString esc [] = True"
| "surrogateScan inString esc (c # s) =
     (if c = quote_char then surrogateScan (if esc then inString else \<not> inString) False s
      else if c = backslash \<and> inString \<and> \<not> esc then
        (case s of
           u # h1 # h2 # h3 # h4 # rest \<Rightarrow>
             (case (if u = CHR ''u'' then decodeHexQuad [h1, h2, h3, h4] else None) of
                None \<Rightarrow> surrogateScan inString True s
              | Some codePoint \<Rightarrow>
                  if low_surrogate codePoint then False
                  else if high_surrogate codePoint then
                    (case rest of
                       e # v # l1 # l2 # l3 # l4 # rest' \<Rightarrow>
                         e = backslash \<and> v = CHR ''u'' \<and>
                         (case decodeHexQuad [l1, l2, l3, l4] of
                            None \<Rightarrow> False | Some low \<Rightarrow> low_surrogate low) \<and>
                         surrogateScan inString True (v # l1 # l2 # l3 # l4 # rest')
                     | _ \<Rightarrow> False)
                  else surrogateScan inString True s)
         | _ \<Rightarrow> surrogateScan inString True s)
      else surrogateScan inString (c = backslash \<and> \<not> esc) s)"

section \<open>A bounded body\<close>

text \<open>\<open>input\<close> is what the reader yields, \<open>None\<close> where it fails; reading stops one byte beyond the
  limit.\<close>

definition readBoundedBody :: "string option \<Rightarrow> string option" where
  "readBoundedBody input =
     (case input of None \<Rightarrow> None | Some whole \<Rightarrow>
        let body = take (maximumKeyDocumentBytes + 1) whole in
        if body = [] \<or> length body > maximumKeyDocumentBytes \<or> runes body = None then None
        else if rejectUnpairedSurrogateEscapes body then None
        else Some body)"

section \<open>Base64\<close>

text \<open>\<open>base64.RawURLEncoding\<close>: the URL alphabet, without padding. Decoding skips line ends and
  ignores surplus bits of the last character.\<close>

definition base64_alphabet :: string where
  "base64_alphabet =
     ''ABCDEFGHIJKLMNOPQRSTUVWXYZabcdefghijklmnopqrstuvwxyz0123456789-_''"

definition sextet_char :: "nat \<Rightarrow> char" where
  "sextet_char n = base64_alphabet ! n"

fun index_of :: "'a \<Rightarrow> 'a list \<Rightarrow> nat option" where
  "index_of x [] = None"
| "index_of x (y # ys) = (if x = y then Some 0 else map_option Suc (index_of x ys))"

definition char_sextet :: "char \<Rightarrow> nat option" where
  "char_sextet c = index_of c base64_alphabet"

fun sextets :: "nat list \<Rightarrow> nat list" where
  "sextets [] = []"
| "sextets [a] = [a div 4, a mod 4 * 16]"
| "sextets [a, b] = [a div 4, a mod 4 * 16 + b div 16, b mod 16 * 4]"
| "sextets (a # b # c # bytes) =
     a div 4 # (a mod 4 * 16 + b div 16) # (b mod 16 * 4 + c div 64) # c mod 64 # sextets bytes"

fun octets :: "nat list \<Rightarrow> nat list option" where
  "octets [] = Some []"
| "octets [p] = None"
| "octets [p, q] = Some [p * 4 + q div 16]"
| "octets [p, q, r] = Some [p * 4 + q div 16, q mod 16 * 16 + r div 4]"
| "octets (p # q # r # s # rest) =
     map_option (\<lambda>bytes. (p * 4 + q div 16) # (q mod 16 * 16 + r div 4) # (r mod 4 * 64 + s) # bytes)
       (octets rest)"

definition EncodeToString :: "nat list \<Rightarrow> string" where
  "EncodeToString bytes = map sextet_char (sextets bytes)"

definition DecodeString :: "string \<Rightarrow> nat list option" where
  "DecodeString s =
     Option.bind (all_some (map char_sextet (filter (\<lambda>c. c \<noteq> CHR 0x0A \<and> c \<noteq> CHR 0x0D) s))) octets"

section \<open>Keys\<close>

datatype json = JNull | JString string | JArray "json list" | JObject "(string \<times> json) list" | JOther

record publicJWK =
  KTY :: string
  KID :: string
  Use :: string
  Alg :: string
  CRV :: string
  X :: string

definition validKeyID :: "string \<Rightarrow> bool" where
  "validKeyID v \<longleftrightarrow>
     \<not> (v = [] \<or> length v > 128) \<and>
     list_all (\<lambda>c. \<not> ((of_char c :: nat) < 0x21 \<or> (of_char c :: nat) > 0x7E)) v"

definition allowedMembers :: "string list" where
  "allowedMembers = [''kty'', ''kid'', ''use'', ''alg'', ''crv'', ''x'']"

text \<open>\<open>Decode\<close> into a string: \<open>null\<close> leaves it empty.\<close>

fun decode_string :: "json \<Rightarrow> string option" where
  "decode_string (JString s) = Some s"
| "decode_string JNull = Some []"
| "decode_string _ = None"

fun decodeMembers :: "(string \<times> json) list \<Rightarrow> (string \<times> string) list \<Rightarrow> (string \<times> string) list option"
where
  "decodeMembers [] values = Some values"
| "decodeMembers ((name, j) # members) values =
     (if name \<notin> set allowedMembers \<or> name \<in> set (keys values) then None
      else case decode_string j of None \<Rightarrow> None
           | Some v \<Rightarrow> decodeMembers members (put name v values))"

definition canonicalX :: "string \<Rightarrow> bool" where
  "canonicalX x \<longleftrightarrow>
     (case DecodeString x of None \<Rightarrow> False
      | Some decoded \<Rightarrow> length decoded = 32 \<and> EncodeToString decoded = x)"

definition member_value :: "(string \<times> string) list \<Rightarrow> string \<Rightarrow> string" where
  "member_value values name = (case get values name of None \<Rightarrow> [] | Some v \<Rightarrow> v)"

definition decodeControlPlaneKey :: "json \<Rightarrow> publicJWK option" where
  "decodeControlPlaneKey j =
     (case j of
        JObject members \<Rightarrow>
          (case decodeMembers members [] of None \<Rightarrow> None | Some values \<Rightarrow>
             let v = member_value values in
             if length values \<noteq> length allowedMembers then None
             else if \<not> canonicalX (v ''x'') then None
             else if v ''kty'' \<noteq> ''OKP'' \<or> v ''crv'' \<noteq> ''Ed25519'' \<or> v ''use'' \<noteq> ''sig'' \<or>
                     v ''alg'' \<noteq> ''EdDSA'' \<or> \<not> validKeyID (v ''kid'') then None
             else Some \<lparr>KTY = v ''kty'', KID = v ''kid'', Use = v ''use'', Alg = v ''alg'',
                         CRV = v ''crv'', X = v ''x''\<rparr>)
      | _ \<Rightarrow> None)"

fun decodeKeyLoop :: "json list \<Rightarrow> publicJWK list \<Rightarrow> publicJWK list option" where
  "decodeKeyLoop [] ks = Some ks"
| "decodeKeyLoop (j # js) ks =
     (if length ks \<ge> maximumPublicKeys then None
      else case decodeControlPlaneKey j of None \<Rightarrow> None
           | Some k \<Rightarrow> if KID k \<in> set (map KID ks) then None else decodeKeyLoop js (ks @ [k]))"

definition decodeControlPlaneKeys :: "json \<Rightarrow> publicJWK list option" where
  "decodeControlPlaneKeys j =
     (case j of
        JArray js \<Rightarrow>
          (case decodeKeyLoop js [] of None \<Rightarrow> None | Some ks \<Rightarrow> if ks = [] then None else Some ks)
      | _ \<Rightarrow> None)"

fun decodeDocument :: "(string \<times> json) list \<Rightarrow> publicJWK list option \<Rightarrow> publicJWK list option" where
  "decodeDocument [] found = found"
| "decodeDocument ((name, j) # members) found =
     (if name \<noteq> ''keys'' \<or> found \<noteq> None then None
      else case decodeControlPlaneKeys j of None \<Rightarrow> None
           | Some ks \<Rightarrow> decodeDocument members (Some ks))"

definition decodeControlPlaneJWKS :: "(string \<Rightarrow> json option) \<Rightarrow> string \<Rightarrow> publicJWK list option" where
  "decodeControlPlaneJWKS json_parse body =
     (case json_parse body of Some (JObject members) \<Rightarrow> decodeDocument members None | _ \<Rightarrow> None)"

section \<open>What a decoded document holds\<close>

definition key_profile :: "publicJWK \<Rightarrow> bool" where
  "key_profile k \<longleftrightarrow>
     KTY k = ''OKP'' \<and> CRV k = ''Ed25519'' \<and> Use k = ''sig'' \<and> Alg k = ''EdDSA'' \<and>
     validKeyID (KID k) \<and> canonicalX (X k)"

definition key_set :: "publicJWK list \<Rightarrow> bool" where
  "key_set ks \<longleftrightarrow>
     ks \<noteq> [] \<and> length ks \<le> maximumPublicKeys \<and> distinct (map KID ks) \<and> (\<forall>k \<in> set ks. key_profile k)"

lemma decodeKey_profile: "decodeControlPlaneKey j = Some k \<Longrightarrow> key_profile k"
  by (auto simp: decodeControlPlaneKey_def key_profile_def Let_def
      split: json.splits option.splits if_splits)

lemma decodeKeyLoop_set:
  "decodeKeyLoop js ks = Some ks' \<Longrightarrow> length ks \<le> maximumPublicKeys \<Longrightarrow> distinct (map KID ks) \<Longrightarrow>
   \<forall>k \<in> set ks. key_profile k \<Longrightarrow>
   length ks' \<le> maximumPublicKeys \<and> distinct (map KID ks') \<and> (\<forall>k \<in> set ks'. key_profile k)"
proof (induction js arbitrary: ks)
  case (Cons j js)
  from Cons.prems(1) obtain k where k: "decodeControlPlaneKey j = Some k" "KID k \<notin> set (map KID ks)"
    "length ks < maximumPublicKeys" "decodeKeyLoop js (ks @ [k]) = Some ks'"
    by (auto split: if_splits option.splits)
  show ?case
    by (rule Cons.IH [OF k(4)]) (use k Cons.prems(2-) decodeKey_profile [OF k(1)] in auto)
qed auto

lemma decodeKeys_set: "decodeControlPlaneKeys j = Some ks \<Longrightarrow> key_set ks"
  by (auto simp: decodeControlPlaneKeys_def key_set_def split: json.splits option.splits if_splits
      dest!: decodeKeyLoop_set)

lemma decodeDocument_found: "decodeDocument members found = Some ks \<Longrightarrow>
    found = Some ks \<and> members = [] \<or>
    found = None \<and> (\<exists>j. members = [(''keys'', j)] \<and> decodeControlPlaneKeys j = Some ks)"
proof (induction members found rule: decodeDocument.induct)
  case (2 name j members found)
  then show ?case by (auto split: if_splits option.splits)
qed simp

lemma decoded_document:
  assumes "decodeControlPlaneJWKS json_parse body = Some ks"
  shows "key_set ks" "\<exists>j. json_parse body = Some (JObject [(''keys'', j)])"
proof -
  obtain members where m: "json_parse body = Some (JObject members)" "decodeDocument members None = Some ks"
    using assms by (auto simp: decodeControlPlaneJWKS_def split: option.splits json.splits)
  from decodeDocument_found [OF m(2)] m(1) decodeKeys_set
  show "key_set ks" "\<exists>j. json_parse body = Some (JObject [(''keys'', j)])" by auto
qed

end
