(* ===== verification/Key_Responses.thy ===== *)
theory Key_Responses
  imports Key_Documents
begin

text \<open>
  What the relay makes of a response of the key endpoint (\<open>internal/auth/key_cache.go\<close>, lines
  177-226 and 242-326): the closed cache policy, the entity tag and the fetch itself; and
  what the policy accepts, said of the parts of the headers.

  A response is what the HTTP client delivers; \<open>mime_parse\<close> is \<open>mime.ParseMediaType\<close> (the media type,
  or \<open>None\<close>). Durations are nanoseconds.
\<close>

section \<open>Strings\<close>

text \<open>\<open>strings.Cut\<close> at a one-byte separator: before, after, and whether it was found.\<close>

fun Cut :: "char \<Rightarrow> string \<Rightarrow> string \<times> string \<times> bool" where
  "Cut sep [] = ([], [], False)"
| "Cut sep (c # s) =
     (if c = sep then ([], s, True)
      else case Cut sep s of (before, after, found) \<Rightarrow> (c # before, after, found))"

text \<open>\<open>strings.ToLower\<close>, as far as it yields ASCII: ASCII letters, and the two other letters whose
  lower case is ASCII, U+0130 and U+212A. Any other byte is kept; a directive whose name has one
  is not among those the policy names, whatever its case.\<close>

fun ToLower :: "string \<Rightarrow> string" where
  "ToLower [] = []"
| "ToLower (c # s) =
     (let n = (of_char c :: nat) in
      if 0x41 \<le> n \<and> n \<le> 0x5A then char_of (n + 0x20) # ToLower s
      else case s of
        d # r \<Rightarrow>
          if n = 0xC4 \<and> (of_char d :: nat) = 0xB0 then CHR ''i'' # ToLower r
          else (case r of
                  e # t \<Rightarrow>
                    if n = 0xE2 \<and> (of_char d :: nat) = 0x84 \<and> (of_char e :: nat) = 0xAA
                    then CHR ''k'' # ToLower t else c # ToLower s
                | [] \<Rightarrow> c # ToLower s)
      | [] \<Rightarrow> [c])"

section \<open>Cache control\<close>

abbreviation dquote :: char where "dquote \<equiv> CHR 0x22"

definition cacheDirectiveValue :: "string \<Rightarrow> string option" where
  "cacheDirectiveValue raw =
     (let v = TrimSpace raw in
      if v = [] then None
      else
        let quoted = (hd v = dquote \<or> last v = dquote) in
        if quoted \<and> (length v < 2 \<or> hd v \<noteq> dquote \<or> last v \<noteq> dquote) then None
        else let w = (if quoted then butlast (tl v) else v) in
          if w = [] \<or> dquote \<in> set w \<or> CHR 0x5C \<in> set w then None else Some w)"

fun parseDirectives :: "string list \<Rightarrow> (string \<times> string) list \<Rightarrow> (string \<times> string) list option" where
  "parseDirectives [] ds = Some ds"
| "parseDirectives (raw # parts) ds =
     (let part = TrimSpace raw in
      if part = [] then parseDirectives parts ds
      else case Cut CHR ''='' part of (before, after, found) \<Rightarrow>
        let name = ToLower (TrimSpace before) in
        if name = [] \<or> name \<in> set (keys ds) then None
        else if found
        then (case cacheDirectiveValue after of None \<Rightarrow> None
              | Some v \<Rightarrow> parseDirectives parts (put name v ds))
        else parseDirectives parts (put name after ds))"

text \<open>\<open>values\<close> are the values of the Cache-Control header, \<open>ageText\<close> the first Age header or the empty
  string. \<open>None\<close> is an error.\<close>

definition responseCacheTTL :: "string list \<Rightarrow> string \<Rightarrow> int option" where
  "responseCacheTTL values ageText =
     (case parseDirectives (concat (map (splitOn CHR '','') values)) [] of
        None \<Rightarrow> None
      | Some ds \<Rightarrow>
          (case Option.bind (get ds ''max-age'') ParseInt of
             None \<Rightarrow> None
           | Some maxAge \<Rightarrow>
               if maxAge < 1 then None
               else if maxAge \<noteq> 60 \<or> get ds ''public'' \<noteq> Some [] \<or>
                       get ds ''must-revalidate'' \<noteq> Some [] \<or> length ds \<noteq> 3
               then None
               else (case (if ageText = [] then Some 0 else ParseInt ageText) of
                       None \<Rightarrow> None
                     | Some age \<Rightarrow>
                         if age < 0 then None
                         else let remaining = maxAge - age in
                           if remaining < 1 then None else Some (remaining * second))))"

section \<open>Entity tags\<close>

definition canonicalETag :: "string \<Rightarrow> string option" where
  "canonicalETag v =
     (if v = [] \<or> length v > 512 \<or> TrimSpace v \<noteq> v then None
      else
        let tag = (if take 2 v = ''W/'' then drop 2 v else v) in
        if length tag < 2 \<or> hd tag \<noteq> dquote \<or> last tag \<noteq> dquote then None
        else if list_ex (\<lambda>c. (of_char c :: nat) < 0x21 \<or> c = dquote \<or> (of_char c :: nat) > 0x7E)
                  (butlast (tl tag))
        then None
        else Some v)"

section \<open>Fetching\<close>

record httpResponse =
  cacheControl :: "string list"
  ageHeader :: string
  statusCode :: int
  contentType :: string
  etagHeader :: string
  bodyInput :: "string option"

datatype fetchError =
  RequestError | InvalidCacheControl | Unsolicited304 | NonEmpty304 | UnexpectedStatus int
| NotJSON | InvalidBody | InvalidETag | InvalidKeys

record keyFetchResult =
  fetched_keys :: "publicJWK list"
  fetched_etag :: string
  fetched_ttl :: int
  notModified :: bool

text \<open>\<open>response\<close> is \<open>None\<close> where building the request or sending it fails. The body of a 304 is read up
  to one byte beyond the limit; only whether it is empty matters.\<close>

definition fetch ::
  "(string \<Rightarrow> json option) \<Rightarrow> (string \<Rightarrow> string option) \<Rightarrow> string \<Rightarrow> httpResponse option
     \<Rightarrow> fetchError + keyFetchResult" where
  "fetch json_parse mime_parse etag response =
     (case response of None \<Rightarrow> Inl RequestError | Some r \<Rightarrow>
      case responseCacheTTL (cacheControl r) (ageHeader r) of None \<Rightarrow> Inl InvalidCacheControl
      | Some t \<Rightarrow>
          if statusCode r = 304
          then if etag = [] then Inl Unsolicited304
               else if map_option (take (maximumKeyDocumentBytes + 1)) (bodyInput r) \<noteq> Some []
               then Inl NonEmpty304
               else Inr \<lparr>fetched_keys = [], fetched_etag = etag, fetched_ttl = t, notModified = True\<rparr>
          else if statusCode r \<noteq> 200 then Inl (UnexpectedStatus (statusCode r))
          else if mime_parse (contentType r) \<noteq> Some ''application/json'' then Inl NotJSON
          else (case readBoundedBody (bodyInput r) of None \<Rightarrow> Inl InvalidBody | Some body \<Rightarrow>
                case canonicalETag (etagHeader r) of None \<Rightarrow> Inl InvalidETag | Some tag \<Rightarrow>
                case decodeControlPlaneJWKS json_parse body of None \<Rightarrow> Inl InvalidKeys
                | Some ks \<Rightarrow>
                    Inr \<lparr>fetched_keys = ks, fetched_etag = tag, fetched_ttl = t, notModified = False\<rparr>))"

section \<open>What a response can bring\<close>

text \<open>The policy is closed: exactly three directives, a maximal age of a minute, and an age below it.\<close>

lemma responseCacheTTL_iff:
  "responseCacheTTL vs ageText = Some t \<longleftrightarrow>
    (\<exists>ds age. parseDirectives (concat (map (splitOn CHR '','') vs)) [] = Some ds \<and>
      Option.bind (get ds ''max-age'') ParseInt = Some 60 \<and> get ds ''public'' = Some [] \<and>
      get ds ''must-revalidate'' = Some [] \<and> length ds = 3 \<and>
      (if ageText = [] then Some 0 else ParseInt ageText) = Some age \<and>
      0 \<le> age \<and> age < 60 \<and> t = (60 - age) * second)"
  by (auto simp: responseCacheTTL_def Let_def split: option.splits if_splits)

lemma ttl_bounds: "responseCacheTTL vs age = Some t \<Longrightarrow> second \<le> t \<and> t \<le> 60 * second"
  by (auto simp: responseCacheTTL_def Let_def second_def split: option.splits if_splits)

lemma etag_nonempty: "canonicalETag v = Some w \<Longrightarrow> w = v \<and> v \<noteq> []"
  by (auto simp: canonicalETag_def Let_def split: if_splits)

text \<open>A fetch that succeeds: an empty answer to the tag that was sent, or a set of keys under a tag,
  for at least a second and at most a minute.\<close>

lemma fetch_sound:
  assumes "fetch json_parse mime_parse etag response = Inr res"
  shows "second \<le> fetched_ttl res \<and> fetched_ttl res \<le> 60 * second \<and> fetched_etag res \<noteq> [] \<and>
    (if notModified res then etag \<noteq> [] \<and> fetched_etag res = etag else key_set (fetched_keys res))"
proof -
  obtain r t where r: "response = Some r" "responseCacheTTL (cacheControl r) (ageHeader r) = Some t"
    using assms by (auto simp: fetch_def split: option.splits)
  note t = ttl_bounds [OF r(2)]
  show ?thesis
  proof (cases "statusCode r = 304")
    case True
    then show ?thesis using assms r t by (auto simp: fetch_def split: if_splits)
  next
    case False
    then obtain body tag ks where e: "canonicalETag (etagHeader r) = Some tag"
      and k: "decodeControlPlaneJWKS json_parse body = Some ks"
      and "res = \<lparr>fetched_keys = ks, fetched_etag = tag, fetched_ttl = t, notModified = False\<rparr>"
      using assms r by (auto simp: fetch_def split: option.splits if_splits)
    then show ?thesis using t etag_nonempty [OF e] decoded_document(1) [OF k] by simp
  qed
qed

section \<open>What the policy accepts\<close>

text \<open>A part of the header says a directive: its name, in lower case and without the space around it,
  and its value, empty where the part has no equals sign, else not empty, bare or in double quotes,
  without a quote or a backslash in it.\<close>

definition directive_says :: "string \<Rightarrow> string \<times> string \<Rightarrow> bool" where
  "directive_says part d \<longleftrightarrow> fst d \<noteq> [] \<and>
     (CHR ''='' \<notin> set part \<and> fst d = ToLower (TrimSpace part) \<and> snd d = [] \<or>
      (\<exists>before after. part = before @ CHR ''='' # after \<and> CHR ''='' \<notin> set before \<and>
         fst d = ToLower (TrimSpace before) \<and> snd d \<noteq> [] \<and>
         dquote \<notin> set (snd d) \<and> CHR 0x5C \<notin> set (snd d) \<and>
         (TrimSpace after = snd d \<or> TrimSpace after = dquote # snd d @ [dquote])))"

lemma Cut_eq: "Cut c s = (takeWhile (\<lambda>x. x \<noteq> c) s,
    (if c \<in> set s then tl (dropWhile (\<lambda>x. x \<noteq> c) s) else []), c \<in> set s)"
  by (induction s) auto

lemma Cut_split: "Cut c s = (before, after, True) \<longleftrightarrow> s = before @ c # after \<and> c \<notin> set before"
proof
  assume "Cut c s = (before, after, True)"
  then have e: "c \<in> set s" "before = takeWhile (\<lambda>x. x \<noteq> c) s" "after = tl (dropWhile (\<lambda>x. x \<noteq> c) s)"
    by (auto simp: Cut_eq split: if_splits)
  obtain d where d: "dropWhile (\<lambda>x. x \<noteq> c) s = c # d"
    using e(1) hd_dropWhile [of "\<lambda>x. x \<noteq> c" s] by (cases "dropWhile (\<lambda>x. x \<noteq> c) s") auto
  then have "s = before @ c # after"
    using takeWhile_dropWhile_id [of "\<lambda>x. x \<noteq> c" s] e by simp
  moreover have "c \<notin> set before" unfolding e(2) by (auto dest: set_takeWhileD)
  ultimately show "s = before @ c # after \<and> c \<notin> set before" by blast
next
  show "s = before @ c # after \<and> c \<notin> set before \<Longrightarrow> Cut c s = (before, after, True)"
    by (auto simp: Cut_eq takeWhile_append dropWhile_append)
qed

lemma Cut_missing: "Cut c s = (before, after, False) \<longleftrightarrow> c \<notin> set s \<and> before = s \<and> after = []"
  by (auto simp: Cut_eq)

text \<open>The value the parser reads is the one the part says.\<close>

lemma quoted_iff: "v \<noteq> [] \<Longrightarrow> \<not> (length v < 2 \<or> hd v \<noteq> q \<or> last v \<noteq> q) \<longleftrightarrow> v = q # butlast (tl v) @ [q]"
  by (cases v; cases "tl v" rule: rev_cases) auto

lemma directive_value:
  "cacheDirectiveValue raw = Some v \<longleftrightarrow> v \<noteq> [] \<and> dquote \<notin> set v \<and> CHR 0x5C \<notin> set v \<and>
     (TrimSpace raw = v \<or> TrimSpace raw = dquote # v @ [dquote])"
proof -
  let ?r = "TrimSpace raw"
  consider "?r = []" | "?r \<noteq> []" "hd ?r = dquote \<or> last ?r = dquote"
    | "?r \<noteq> []" "hd ?r \<noteq> dquote" "last ?r \<noteq> dquote" by blast
  then show ?thesis
  proof cases
    case 2
    have "?r \<noteq> v" if "dquote \<notin> set v" using that 2 hd_in_set last_in_set by metis
    moreover have "?r = dquote # v @ [dquote] \<longleftrightarrow>
        \<not> (length ?r < 2 \<or> hd ?r \<noteq> dquote \<or> last ?r \<noteq> dquote) \<and> butlast (tl ?r) = v"
      using quoted_iff [OF 2(1), of dquote] by auto
    ultimately show ?thesis using 2 by (auto simp: cacheDirectiveValue_def Let_def)
  qed (auto simp: cacheDirectiveValue_def Let_def)
qed

lemma directive_step:
  assumes "part \<noteq> []" "TrimSpace raw = part"
  shows "parseDirectives (raw # parts) ds = Some ds' \<longleftrightarrow>
    (\<exists>d. directive_says part d \<and> fst d \<notin> set (keys ds) \<and>
       parseDirectives parts (put (fst d) (snd d) ds) = Some ds')"
proof -
  obtain before after found where c: "Cut CHR ''='' part = (before, after, found)" by (metis prod_cases3)
  define n where "n = ToLower (TrimSpace before)"
  have step: "parseDirectives (raw # parts) ds =
      (if n = [] \<or> n \<in> set (keys ds) then None
       else if found
       then (case cacheDirectiveValue after of None \<Rightarrow> None
             | Some v \<Rightarrow> parseDirectives parts (put n v ds))
       else parseDirectives parts (put n after ds))"
    unfolding n_def using assms(1) by (simp add: Let_def c assms(2))
  show ?thesis
  proof (cases found)
    case True
    have says: "directive_says part d \<longleftrightarrow> fst d \<noteq> [] \<and> fst d = n \<and> cacheDirectiveValue after = Some (snd d)" for d
    proof -
      have p: "part = b @ CHR ''='' # a \<and> CHR ''='' \<notin> set b \<longleftrightarrow> b = before \<and> a = after" for a b
        using c True Cut_split [of "CHR ''=''" part b a] by auto
      have e: "CHR ''='' \<in> set part" using p [of before after] by auto
      have ex: "(\<exists>b a. part = b @ CHR ''='' # a \<and> CHR ''='' \<notin> set b \<and> R b a) \<longleftrightarrow> R before after" for R
        using p by metis
      show ?thesis
        unfolding directive_says_def ex directive_value n_def using e by auto
    qed
    show ?thesis unfolding step says using True by (cases "cacheDirectiveValue after") auto
  next
    case False
    then have m: "CHR ''='' \<notin> set part" "before = part" "after = []"
      using c Cut_missing [of "CHR ''=''" part before after] by auto
    have says: "directive_says part d \<longleftrightarrow> fst d \<noteq> [] \<and> fst d = n \<and> snd d = []" for d
      using m by (auto simp: directive_says_def n_def)
    show ?thesis unfolding step says using False m(3) by auto
  qed
qed

text \<open>The parser reads every part that is not empty, and refuses a name that comes twice.\<close>

lemma parseDirectives_spec:
  "parseDirectives parts ds = Some ds' \<longleftrightarrow>
    (\<exists>new. list_all2 directive_says (filter (\<lambda>p. p \<noteq> []) (map TrimSpace parts)) new \<and>
       distinct (map fst new) \<and> set (map fst new) \<inter> set (keys ds) = {} \<and> ds' = ds @ new)"
proof (induction parts arbitrary: ds)
  case (Cons raw parts)
  show ?case
  proof (cases "TrimSpace raw = []")
    case True
    then show ?thesis using Cons.IH by simp
  next
    case False
    have "parseDirectives (raw # parts) ds = Some ds' \<longleftrightarrow>
        (\<exists>d new. directive_says (TrimSpace raw) d \<and> fst d \<notin> set (keys ds) \<and>
           list_all2 directive_says (filter (\<lambda>p. p \<noteq> []) (map TrimSpace parts)) new \<and>
           distinct (map fst new) \<and> set (map fst new) \<inter> set (keys (put (fst d) (snd d) ds)) = {} \<and>
           ds' = put (fst d) (snd d) ds @ new)"
      unfolding directive_step [OF False refl] Cons.IH by blast
    also have "\<dots> \<longleftrightarrow> (\<exists>d new. directive_says (TrimSpace raw) d \<and>
           list_all2 directive_says (filter (\<lambda>p. p \<noteq> []) (map TrimSpace parts)) new \<and>
           distinct (map fst (d # new)) \<and> set (map fst (d # new)) \<inter> set (keys ds) = {} \<and>
           ds' = ds @ d # new)"
      unfolding keys_put by (intro iff_exI) (auto simp: put_new simp del: set_map)
    finally show ?thesis using False by (auto simp: list_all2_Cons1)
  qed
qed auto

lemma three_directives:
  assumes "distinct (map fst ds)"
  shows "get ds ''max-age'' = Some v \<and> get ds ''public'' = Some [] \<and> get ds ''must-revalidate'' = Some [] \<and>
      length ds = 3 \<longleftrightarrow> set ds = {(''max-age'', v), (''public'', []), (''must-revalidate'', [])}"
    (is "?l \<longleftrightarrow> set ds = ?s")
proof
  have c: "card ?s = 3" by simp
  have d: "distinct ds" using assms(1) by (simp add: distinct_map)
  show "set ds = ?s" if ?l
  proof -
    have "?s \<subseteq> set ds" using that by (auto dest: map_of_SomeD)
    moreover have "card (set ds) = card ?s" using distinct_card [OF d] that c by simp
    ultimately show ?thesis using card_subset_eq [of "set ds" ?s] by simp
  qed
  show ?l if "set ds = ?s"
  proof -
    have "length ds = 3" using distinct_card [OF d] that c by simp
    then show ?thesis using that assms(1) by (auto intro!: map_of_is_SomeI)
  qed
qed

text \<open>The policy, without the parser: the parts of the header say the three directives in some order, and
  nothing else, for a minute; the response is younger than that.\<close>

lemma responseCacheTTL_spec:
  "responseCacheTTL vs ageText = Some t \<longleftrightarrow>
    (\<exists>ds v age. list_all2 directive_says
         (filter (\<lambda>p. p \<noteq> []) (map TrimSpace (concat (map (splitOn CHR '','') vs)))) ds \<and>
       distinct (map fst ds) \<and> set ds = {(''max-age'', v), (''public'', []), (''must-revalidate'', [])} \<and>
       ParseInt v = Some 60 \<and> (if ageText = [] then Some 0 else ParseInt ageText) = Some age \<and>
       0 \<le> age \<and> age < 60 \<and> t = (60 - age) * second)"
proof -
  have "responseCacheTTL vs ageText = Some t \<longleftrightarrow>
    (\<exists>ds v age. list_all2 directive_says
         (filter (\<lambda>p. p \<noteq> []) (map TrimSpace (concat (map (splitOn CHR '','') vs)))) ds \<and>
       distinct (map fst ds) \<and>
       (get ds ''max-age'' = Some v \<and> get ds ''public'' = Some [] \<and> get ds ''must-revalidate'' = Some [] \<and>
         length ds = 3) \<and>
       ParseInt v = Some 60 \<and> (if ageText = [] then Some 0 else ParseInt ageText) = Some age \<and>
       0 \<le> age \<and> age < 60 \<and> t = (60 - age) * second)"
    unfolding responseCacheTTL_iff parseDirectives_spec by (auto simp: bind_eq_Some_conv)
  also have "\<dots> \<longleftrightarrow>
    (\<exists>ds v age. list_all2 directive_says
         (filter (\<lambda>p. p \<noteq> []) (map TrimSpace (concat (map (splitOn CHR '','') vs)))) ds \<and>
       distinct (map fst ds) \<and> set ds = {(''max-age'', v), (''public'', []), (''must-revalidate'', [])} \<and>
       ParseInt v = Some 60 \<and> (if ageText = [] then Some 0 else ParseInt ageText) = Some age \<and>
       0 \<le> age \<and> age < 60 \<and> t = (60 - age) * second)"
  proof (intro iff_exI conj_cong refl)
    fix ds :: "(string \<times> string) list" and v
    assume "distinct (map fst ds)"
    show "(get ds ''max-age'' = Some v \<and> get ds ''public'' = Some [] \<and> get ds ''must-revalidate'' = Some [] \<and>
        length ds = 3) = (set ds = {(''max-age'', v), (''public'', []), (''must-revalidate'', [])})"
      using three_directives [OF \<open>distinct (map fst ds)\<close>] by simp
  qed
  finally show ?thesis .
qed

end
