(* ===== verification/Key_Cache.thy ===== *)
theory Key_Cache
  imports Key_Responses
begin

text \<open>
  The cache of public keys (\<open>internal/auth/key_cache.go\<close>, lines 22-171): one refresh at a time,
  callers that wait for it, a pause after a failed fetch and a longer one between refreshes for an
  unknown key identifier.

  \<open>load\<close> is a loop around two critical sections with a fetch between them. The sections are
  \<open>enterLoad\<close> and \<open>finishLoad\<close>; what the goroutine does in between is the value of the first. An
  instant is an \<open>int\<close> and the zero time is \<open>None\<close>; the channel \<open>refreshDone\<close> is a number, and it is
  closed exactly when the refresh it was made for is over. A goroutine that runs the loop is a
  \<open>task\<close>, and \<open>cache_step\<close> lets any number of them interleave.
\<close>

section \<open>The cache\<close>

definition failedFetchRetryDelay :: int where "failedFetchRetryDelay = second"
definition unknownKIDRefreshDelay :: int where "unknownKIDRefreshDelay = 10 * second"

datatype cacheError = FetchFailed fetchError | NotModifiedWithoutKeys | RateLimited | Cancelled

record keyCache =
  cachedKeys :: "publicJWK list"
  cachedETag :: string
  cacheExpiresAt :: "int option"
  refreshing :: bool
  refreshDone :: nat
  nextFetch :: "int option"
  nextUnknownRefresh :: "int option"
  lastFailure :: "cacheError option"

definition newKeyCache :: keyCache where
  "newKeyCache = \<lparr>cachedKeys = [], cachedETag = [], cacheExpiresAt = None, refreshing = False, refreshDone = 0,
     nextFetch = None, nextUnknownRefresh = None, lastFailure = None\<rparr>"

definition before_time :: "int \<Rightarrow> int option \<Rightarrow> bool" where
  "before_time now t = (case t of None \<Rightarrow> False | Some d \<Rightarrow> now < d)"

definition keysFresh :: "int \<Rightarrow> keyCache \<Rightarrow> bool" where
  "keysFresh now K \<longleftrightarrow> cachedKeys K \<noteq> [] \<and> before_time now (cacheExpiresAt K)"

text \<open>What the goroutine does when it leaves the first section: return keys, wait for a channel,
  return an error, or fetch with a tag.\<close>

datatype loadStep = Serve "publicJWK list" | Await nat | Refuse cacheError | Fetch string

definition enterLoad :: "bool \<Rightarrow> int \<Rightarrow> keyCache \<Rightarrow> loadStep \<times> keyCache" where
  "enterLoad force now K =
     (if \<not> force \<and> keysFresh now K then (Serve (cachedKeys K), K)
      else if force \<and> refreshing K then (Await (refreshDone K), K)
      else if force \<and> keysFresh now K \<and> before_time now (nextUnknownRefresh K)
      then (Serve (cachedKeys K), K)
      else if refreshing K then (Await (refreshDone K), K)
      else if before_time now (nextFetch K)
      then (if keysFresh now K \<and> force then Serve (cachedKeys K)
            else Refuse (case lastFailure K of None \<Rightarrow> RateLimited | Some e \<Rightarrow> e), K)
      else (Fetch (cachedETag K),
            K\<lparr>refreshing := True, refreshDone := refreshDone K + 1,
              nextFetch := Some (now + failedFetchRetryDelay),
              nextUnknownRefresh :=
                (if force then Some (now + unknownKIDRefreshDelay) else nextUnknownRefresh K)\<rparr>))"

text \<open>Lines 145-170: \<open>res\<close> is what the fetch returned; \<open>now\<close> and \<open>later\<close> are the two readings of the
  clock.\<close>

definition finishLoad ::
  "bool \<Rightarrow> fetchError + keyFetchResult \<Rightarrow> int \<Rightarrow> int \<Rightarrow> keyCache
     \<Rightarrow> (cacheError + publicJWK list) \<times> keyCache" where
  "finishLoad force res now later K =
     (let (failure, K1) =
        (case res of
           Inl e \<Rightarrow> (Some (FetchFailed e), K)
         | Inr r \<Rightarrow>
             if notModified r
             then (if cachedKeys K = [] then Some NotModifiedWithoutKeys else None, K)
             else (None, K\<lparr>cachedKeys := fetched_keys r, cachedETag := fetched_etag r\<rparr>));
          K2 =
        (case (failure, res) of
           (None, Inr r) \<Rightarrow>
             K1\<lparr>cacheExpiresAt := Some (now + fetched_ttl r), lastFailure := None, nextFetch := None\<rparr>
         | _ \<Rightarrow> K1\<lparr>lastFailure := failure\<rparr>);
          K3 = K2\<lparr>refreshing := False\<rparr>
      in (case failure of
            None \<Rightarrow> Inr (cachedKeys K3)
          | Some e \<Rightarrow> if force \<and> keysFresh later K3 then Inr (cachedKeys K3) else Inl e, K3))"

text \<open>\<open>refreshUnknownKID\<close> (lines 64-78) looks once before it loads.\<close>

definition enterUnknown :: "int \<Rightarrow> keyCache \<Rightarrow> publicJWK list option" where
  "enterUnknown now K =
     (if cachedKeys K \<noteq> [] \<and> before_time now (cacheExpiresAt K) \<and> \<not> refreshing K \<and>
         before_time now (nextUnknownRefresh K)
      then Some (cachedKeys K) else None)"

section \<open>Tasks\<close>

datatype task =
  Idle
| Entering bool
| Waiting nat
| Fetching bool string
| Returned "cacheError + publicJWK list"

fun task_of :: "bool \<Rightarrow> loadStep \<Rightarrow> task" where
  "task_of force (Serve ks) = Returned (Inr ks)"
| "task_of force (Await ch) = Waiting ch"
| "task_of force (Refuse e) = Returned (Inl e)"
| "task_of force (Fetch tag) = Fetching force tag"

record cacheSystem =
  keyStore :: keyCache
  cacheTasks :: "nat \<Rightarrow> task"
  cacheClock :: int

definition newSystem :: "int \<Rightarrow> cacheSystem" where
  "newSystem t = \<lparr>keyStore = newKeyCache, cacheTasks = (\<lambda>_. Idle), cacheClock = t\<rparr>"

definition setTask :: "nat \<Rightarrow> task \<Rightarrow> cacheSystem \<Rightarrow> cacheSystem" where
  "setTask i T s = s\<lparr>cacheTasks := (cacheTasks s)(i := T)\<rparr>"

definition enters :: "bool \<Rightarrow> nat \<Rightarrow> cacheSystem \<Rightarrow> cacheSystem" where
  "enters force i s =
     (case enterLoad force (cacheClock s) (keyStore s) of (d, K) \<Rightarrow>
        setTask i (task_of force d) (s\<lparr>keyStore := K\<rparr>))"

definition fetches ::
  "bool \<Rightarrow> fetchError + keyFetchResult \<Rightarrow> int \<Rightarrow> nat \<Rightarrow> cacheSystem \<Rightarrow> cacheSystem" where
  "fetches force res later i s =
     (case finishLoad force res (cacheClock s) later (keyStore s) of (r, K) \<Rightarrow>
        setTask i (Returned r) (s\<lparr>keyStore := K, cacheClock := later\<rparr>))"

text \<open>A task calls \<open>current\<close> or \<open>refreshUnknownKID\<close>, runs the loop, and is done when it has returned;
  a wait ends when its channel is closed or its context is done. The answer to a fetch is that of
  \<open>fetch\<close> for any response whatsoever.\<close>

inductive cache_step ::
  "(string \<Rightarrow> json option) \<Rightarrow> (string \<Rightarrow> string option) \<Rightarrow> cacheSystem \<Rightarrow> cacheSystem \<Rightarrow> bool"
  for json_parse mime_parse where
  passes: "cacheClock s \<le> t \<Longrightarrow> cache_step json_parse mime_parse s (s\<lparr>cacheClock := t\<rparr>)"
| calls_current: "cacheTasks s i = Idle \<Longrightarrow> cache_step json_parse mime_parse s (setTask i (Entering False) s)"
| calls_unknown: "cacheTasks s i = Idle \<Longrightarrow> cache_step json_parse mime_parse s
    (setTask i (case enterUnknown (cacheClock s) (keyStore s) of
       Some ks \<Rightarrow> Returned (Inr ks) | None \<Rightarrow> Entering True) s)"
| loads: "cacheTasks s i = Entering force \<Longrightarrow> cache_step json_parse mime_parse s (enters force i s)"
| wakes: "cacheTasks s i = Waiting ch \<Longrightarrow> \<not> (refreshing (keyStore s) \<and> refreshDone (keyStore s) = ch) \<Longrightarrow>
    cache_step json_parse mime_parse s (setTask i (Entering False) s)"
| cancels: "cacheTasks s i = Waiting ch \<Longrightarrow>
    cache_step json_parse mime_parse s (setTask i (Returned (Inl Cancelled)) s)"
| fetched: "cacheTasks s i = Fetching force tag \<Longrightarrow> cacheClock s \<le> later \<Longrightarrow>
    cache_step json_parse mime_parse s
      (fetches force (fetch json_parse mime_parse tag response) later i s)"
| leaves: "cacheTasks s i = Returned r \<Longrightarrow> cache_step json_parse mime_parse s (setTask i Idle s)"

inductive cache_reachable ::
  "(string \<Rightarrow> json option) \<Rightarrow> (string \<Rightarrow> string option) \<Rightarrow> cacheSystem \<Rightarrow> bool"
  for json_parse mime_parse where
  starts: "cache_reachable json_parse mime_parse (newSystem t)"
| continues: "cache_reachable json_parse mime_parse s \<Longrightarrow> cache_step json_parse mime_parse s s' \<Longrightarrow>
    cache_reachable json_parse mime_parse s'"

section \<open>Single flight, and only keys that were checked\<close>

definition is_fetching :: "task \<Rightarrow> bool" where
  "is_fetching T \<longleftrightarrow> (\<exists>force tag. T = Fetching force tag)"

text \<open>At most one task fetches, and one does exactly while the cache is refreshing; the tag it sent is
  the tag of the cache; a task waits for a refresh that was started.\<close>

definition single_flight :: "cacheSystem \<Rightarrow> bool" where
  "single_flight s \<longleftrightarrow>
     (refreshing (keyStore s) \<longleftrightarrow> (\<exists>i. is_fetching (cacheTasks s i))) \<and>
     (\<forall>i j. is_fetching (cacheTasks s i) \<longrightarrow> is_fetching (cacheTasks s j) \<longrightarrow> i = j) \<and>
     (\<forall>i force tag. cacheTasks s i = Fetching force tag \<longrightarrow> tag = cachedETag (keyStore s)) \<and>
     (\<forall>i ch. cacheTasks s i = Waiting ch \<longrightarrow> ch \<le> refreshDone (keyStore s))"

definition checked_keys :: "keyCache \<Rightarrow> bool" where
  "checked_keys K \<longleftrightarrow>
     (cachedKeys K = [] \<longleftrightarrow> cachedETag K = []) \<and> (cachedKeys K = [] \<longleftrightarrow> cacheExpiresAt K = None) \<and>
     (cachedKeys K \<noteq> [] \<longrightarrow> key_set (cachedKeys K))"

definition served_checked :: "cacheSystem \<Rightarrow> bool" where
  "served_checked s \<longleftrightarrow> checked_keys (keyStore s) \<and>
     (\<forall>i ks. cacheTasks s i = Returned (Inr ks) \<longrightarrow> key_set ks)"

end
