(* ===== verification/Key_Encoding.thy ===== *)
theory Key_Encoding
  imports Key_Documents
begin

text \<open>
  The two encodings of \<open>Key_Documents\<close>: the loop that looks back for backslashes is a one-pass scan,
  and a public key is the base64 of 32 bytes in exactly one way.
\<close>

section \<open>Escapes in one pass\<close>

lemma backslashes_step:
  assumes "i < length s"
  shows "backslashesBefore s (Suc i) = (if s ! i = backslash then Suc (backslashesBefore s i) else 0)"
  using assms by (simp add: backslashesBefore_def take_Suc_conv_app_nth)

lemma drop_nth:
  "i < length s \<Longrightarrow> drop i s = s ! i # drop (Suc i) s"
  by (simp add: Cons_nth_drop_Suc)

lemma drop_five:
  assumes "i + 5 < length s"
  shows "drop (Suc i) s = s ! (i + 1) # s ! (i + 2) # s ! (i + 3) # s ! (i + 4) # s ! (i + 5) # drop (i + 6) s"
  using assms by (simp add: drop_nth numeral_eq_Suc)

lemma drop_short: "\<not> i + 5 < length s \<Longrightarrow> drop (Suc i) s = u # h1 # h2 # h3 # h4 # rest \<Longrightarrow> False"
  by (drule arg_cong [where f = length]) simp

lemma scan_five:
  "surrogateScan True False (backslash # u # h1 # h2 # h3 # h4 # rest) =
     (case (if u = CHR ''u'' then decodeHexQuad [h1, h2, h3, h4] else None) of
        None \<Rightarrow> surrogateScan True True (u # h1 # h2 # h3 # h4 # rest)
      | Some codePoint \<Rightarrow>
          if low_surrogate codePoint then False
          else if high_surrogate codePoint then
            (case rest of
               e # v # l1 # l2 # l3 # l4 # rest' \<Rightarrow>
                 e = backslash \<and> v = CHR ''u'' \<and>
                 (case decodeHexQuad [l1, l2, l3, l4] of
                    None \<Rightarrow> False | Some low \<Rightarrow> low_surrogate low) \<and>
                 surrogateScan True True (v # l1 # l2 # l3 # l4 # rest')
             | _ \<Rightarrow> False)
          else surrogateScan True True (u # h1 # h2 # h3 # h4 # rest))"
  by simp

lemma scan_short:
  assumes "length cs < 5"
  shows "surrogateScan True False (backslash # cs) = surrogateScan True True cs"
proof -
  consider "cs = []" | a where "cs = [a]" | a b where "cs = [a, b]" | a b c where "cs = [a, b, c]"
    | a b c d where "cs = [a, b, c, d]"
    using assms by (fastforce simp: less_Suc_eq numeral_eq_Suc length_Suc_conv)
  then show ?thesis by cases simp_all
qed

lemma nth_drop4: "i + 4 \<le> length s \<Longrightarrow> take 4 (drop i s) = [s ! i, s ! (i + 1), s ! (i + 2), s ! (i + 3)]"
  by (simp add: drop_nth numeral_eq_Suc)

lemma drop_six:
  assumes "i + 11 < length s"
  shows "drop (i + 6) s = s ! (i + 6) # s ! (i + 7) # s ! (i + 8) # s ! (i + 9) # s ! (i + 10) #
    s ! (i + 11) # drop (i + 12) s"
  using assms by (simp add: drop_nth numeral_eq_Suc)

lemma six_short:
  assumes "length r < 6"
  shows "\<not> (case r of e # v # l1 # l2 # l3 # l4 # r' \<Rightarrow> Q e v l1 l2 l3 l4 r' | _ \<Rightarrow> False)"
proof -
  consider "r = []" | a where "r = [a]" | a b where "r = [a, b]" | a b c where "r = [a, b, c]"
    | a b c d where "r = [a, b, c, d]" | a b c d e where "r = [a, b, c, d, e]"
    using assms by (fastforce simp: less_Suc_eq numeral_eq_Suc length_Suc_conv)
  then show ?thesis by cases simp_all
qed

lemma high_scan:
  assumes "high_surrogate codePoint" "\<not> low_surrogate codePoint"
    and "decodeHexQuad [h1, h2, h3, h4] = Some codePoint"
  shows "surrogateScan True False (backslash # CHR ''u'' # h1 # h2 # h3 # h4 # rest) =
    (case rest of
       e # v # l1 # l2 # l3 # l4 # rest' \<Rightarrow>
         e = backslash \<and> v = CHR ''u'' \<and>
         (case decodeHexQuad [l1, l2, l3, l4] of None \<Rightarrow> False | Some low \<Rightarrow> low_surrogate low) \<and>
         surrogateScan True True (v # l1 # l2 # l3 # l4 # rest')
     | _ \<Rightarrow> False)"
  using assms by (simp add: scan_five del: surrogateScan.simps)

lemma hexQuad_last: "decodeHexQuad [h1, h2, h3, h4] = Some v \<Longrightarrow> h4 \<noteq> backslash"
  by (auto simp: decodeHexQuad_def hexDigit_def split: option.splits)

lemma escape_high:
  assumes i: "i + 5 < length s" "s ! i = backslash" "s ! (i + 1) = CHR ''u''" "even (backslashesBefore s i)"
    and Some: "decodeHexQuad [s ! (i + 2), s ! (i + 3), s ! (i + 4), s ! (i + 5)] = Some v"
    and high: "\<not> low_surrogate v" "high_surrogate v"
    and IH: "i + 7 \<le> length s \<Longrightarrow> surrogateLoop s (i + 7) True =
      surrogateScan True (odd (backslashesBefore s (i + 7))) (drop (i + 7) s)"
  shows "surrogateLoop s i True = surrogateScan True False (drop i s)"
proof -
  have q: "decodeHexQuad (take 4 (drop (i + 2) s)) = Some v"
    using i Some nth_drop4 [of "i + 2" s] by (simp add: numeral_eq_Suc)
  have D: "drop i s = backslash # CHR ''u'' # s ! (i + 2) # s ! (i + 3) # s ! (i + 4) #
      s ! (i + 5) # drop (i + 6) s"
    using drop_nth [of i s] drop_five [of i s] i by simp
  note H = high_scan [OF high(2,1) Some]
  show ?thesis
  proof (cases "i + 11 < length s")
    case False
    have "surrogateLoop s i True = False"
      using i q high False by (simp add: surrogateLoop.simps [of s i])
    moreover have "length (drop (i + 6) s) < 6" using False by simp
    then have "surrogateScan True False (drop i s) = False" unfolding D H by (simp only: six_short)
    ultimately show ?thesis by simp
  next
    case far: True
    have B: "odd (backslashesBefore s (i + 7)) = True" if "s ! (i + 6) = backslash"
      using hexQuad_last [OF Some] far that backslashes_step [of "i + 5" s]
        backslashes_step [of "i + 6" s] by (simp add: numeral_eq_Suc)
    let ?low = "case decodeHexQuad [s ! (i + 8), s ! (i + 9), s ! (i + 10), s ! (i + 11)] of
      None \<Rightarrow> False | Some l \<Rightarrow> low_surrogate l"
    have q': "decodeHexQuad (take 4 (drop (i + 8) s)) =
        decodeHexQuad [s ! (i + 8), s ! (i + 9), s ! (i + 10), s ! (i + 11)]"
      using far nth_drop4 [of "i + 8" s] by (simp add: numeral_eq_Suc)
    have D7: "drop (i + 7) s = s ! (i + 7) # s ! (i + 8) # s ! (i + 9) # s ! (i + 10) #
        s ! (i + 11) # drop (i + 12) s"
      using drop_six [OF far] drop_nth [of "i + 6" s] far by (simp add: numeral_eq_Suc)
    have "surrogateLoop s i True \<longleftrightarrow>
        s ! (i + 6) = backslash \<and> s ! (i + 7) = CHR ''u'' \<and> ?low \<and> surrogateLoop s (i + 7) True"
      using i q high far q' by (auto simp: surrogateLoop.simps [of s i] split: option.split)
    moreover have "surrogateLoop s (i + 7) True =
        surrogateScan True (odd (backslashesBefore s (i + 7))) (drop (i + 7) s)" using IH far by simp
    moreover have "surrogateScan True False (drop i s) \<longleftrightarrow>
        s ! (i + 6) = backslash \<and> s ! (i + 7) = CHR ''u'' \<and> ?low \<and>
        surrogateScan True True (drop (i + 7) s)"
      unfolding D H drop_six [OF far] D7 list.case by (rule refl)
    ultimately show ?thesis using B by (cases "s ! (i + 6) = backslash") (simp_all only: simp_thms)
  qed
qed

lemma escape_scan:
  assumes i: "i < length s" "s ! i = backslash" "even (backslashesBefore s i)"
    and S: "surrogateLoop s (Suc i) True = surrogateScan True True (drop (Suc i) s)"
    and IH: "i + 7 \<le> length s \<Longrightarrow> surrogateLoop s (i + 7) True =
      surrogateScan True (odd (backslashesBefore s (i + 7))) (drop (i + 7) s)"
  shows "surrogateLoop s i True = surrogateScan True False (drop i s)"
proof (cases "i + 5 < length s \<and> s ! (i + 1) = CHR ''u''")
  case False
  have "surrogateLoop s i True = surrogateLoop s (Suc i) True"
    using i False by (auto simp: surrogateLoop.simps [of s i])
  also have "\<dots> = surrogateScan True False (backslash # drop (Suc i) s)"
    unfolding S
  proof (cases "i + 5 < length s")
    case True
    then show "surrogateScan True True (drop (Suc i) s) =
        surrogateScan True False (backslash # drop (Suc i) s)"
      using False by (simp add: drop_five scan_five del: surrogateScan.simps)
  qed (simp add: scan_short del: surrogateScan.simps)
  finally show ?thesis using drop_nth [OF i(1)] i(2) by simp
next
  case long: True
  let ?q = "decodeHexQuad [s ! (i + 2), s ! (i + 3), s ! (i + 4), s ! (i + 5)]"
  have q: "decodeHexQuad (take 4 (drop (i + 2) s)) = ?q"
    using long nth_drop4 [of "i + 2" s] by (simp add: numeral_eq_Suc)
  have D1: "drop (Suc i) s = CHR ''u'' # s ! (i + 2) # s ! (i + 3) # s ! (i + 4) #
      s ! (i + 5) # drop (i + 6) s"
    using drop_five [of i s] long by simp
  have D: "drop i s = backslash # drop (Suc i) s" using drop_nth [OF i(1)] i(2) by simp
  consider (none) "\<And>v. ?q = Some v \<Longrightarrow> \<not> low_surrogate v \<and> \<not> high_surrogate v"
    | (low) v where "?q = Some v" "low_surrogate v"
    | (high) v where "?q = Some v" "\<not> low_surrogate v" "high_surrogate v" by blast
  then show ?thesis
  proof cases
    case none
    have "surrogateLoop s i True = surrogateLoop s (Suc i) True"
      using i long none q by (auto simp: surrogateLoop.simps [of s i] split: option.split)
    then show ?thesis using S none unfolding D D1
      by (simp add: scan_five split: option.split del: surrogateScan.simps)
  next
    case low
    then show ?thesis using i long q unfolding D D1
      by (simp add: surrogateLoop.simps [of s i] scan_five del: surrogateScan.simps)
  next
    case high
    then show ?thesis using escape_high [of i s v] long i IH by blast
  qed
qed

lemma surrogateLoop_scan:
  "i \<le> length s \<Longrightarrow>
   surrogateLoop s i ins = surrogateScan ins (odd (backslashesBefore s i)) (drop i s)"
proof (induction "length s - i" arbitrary: i ins rule: less_induct)
  case less
  have IH: "surrogateLoop s j ins' = surrogateScan ins' (odd (backslashesBefore s j)) (drop j s)"
    if "i < j" "j \<le> length s" for j ins'
    using less.hyps [of j ins'] that less.prems by simp
  show ?case
  proof (cases "i < length s")
    case False
    then show ?thesis using less.prems by (simp add: surrogateLoop.simps)
  next
    case True
    note d = drop_nth [OF True] and b = backslashes_step [OF True]
    have S: "surrogateLoop s (Suc i) ins' =
        surrogateScan ins' (odd (backslashesBefore s (Suc i))) (drop (Suc i) s)" for ins'
      using IH [of "Suc i"] True by simp
    consider (quote) "s ! i = quote_char"
      | (plain) "s ! i \<noteq> quote_char" "s ! i \<noteq> backslash"
      | (skip) "s ! i = backslash" "\<not> ins \<or> odd (backslashesBefore s i)"
      | (escape) "s ! i = backslash" "ins" "even (backslashesBefore s i)" by blast
    then show ?thesis
    proof cases
      case escape
      then show ?thesis using escape_scan [OF True escape(1,3)] S b IH [of "i + 7"] by simp
    qed (use True in \<open>auto simp: surrogateLoop.simps [of s i] S d b\<close>)
  qed
qed

text \<open>The lookback loop is the one-pass scan.\<close>

lemma reject_scan: "rejectUnpairedSurrogateEscapes s \<longleftrightarrow> \<not> surrogateScan False False s"
  using surrogateLoop_scan [of 0 s False]
  by (simp add: rejectUnpairedSurrogateEscapes_def backslashesBefore_def)

section \<open>Base64 round trips\<close>

definition bytes_ok :: "nat list \<Rightarrow> bool" where
  [simp]: "bytes_ok bs \<longleftrightarrow> (\<forall>b \<in> set bs. b < 256)"

lemma sextets_bound: "bytes_ok bs \<Longrightarrow> \<forall>q \<in> set (sextets bs). q < 64"
  by (induction bs rule: sextets.induct) auto

lemma octets_sextets: "bytes_ok bs \<Longrightarrow> octets (sextets bs) = Some bs"
proof (induction bs rule: sextets.induct)
  case (2 a)
  then show ?case by simp
next
  case (3 a b)
  then have "b div 16 < 16" by (auto intro: less_mult_imp_div_less)
  then show ?case by simp
next
  case (4 a b c bytes)
  then have "b div 16 < 16" "c div 64 < 4" by (auto intro: less_mult_imp_div_less)
  then show ?case using 4 by simp
qed simp

lemma octets_bound: "octets qs = Some bs \<Longrightarrow> \<forall>q \<in> set qs. q < 64 \<Longrightarrow> bytes_ok bs"
proof (induction qs arbitrary: bs rule: octets.induct)
  case (5 p q r s rest)
  then show ?case by auto
qed auto

text \<open>The alphabet has 64 distinct characters, none of them a line end.\<close>

lemma alphabet_distinct: "distinct base64_alphabet" "length base64_alphabet = 64"
  by (simp_all add: base64_alphabet_def)

lemma index_of_nth: "distinct xs \<Longrightarrow> n < length xs \<Longrightarrow> index_of (xs ! n) xs = Some n"
proof (induction xs arbitrary: n)
  case (Cons x xs)
  then show ?case by (cases n) auto
qed simp

lemma sextet_inverse: "n < 64 \<Longrightarrow> char_sextet (sextet_char n) = Some n"
  by (simp add: char_sextet_def sextet_char_def index_of_nth alphabet_distinct)

lemma sextet_no_newline: "n < 64 \<Longrightarrow> sextet_char n \<noteq> CHR 0x0A \<and> sextet_char n \<noteq> CHR 0x0D"
proof -
  assume "n < 64"
  then have "sextet_char n \<in> set base64_alphabet"
    using alphabet_distinct(2) nth_mem [of n base64_alphabet] by (simp add: sextet_char_def)
  moreover have "CHR 0x0A \<notin> set base64_alphabet" "CHR 0x0D \<notin> set base64_alphabet"
    by (simp_all add: base64_alphabet_def)
  ultimately show ?thesis by auto
qed

lemma char_sextet_bound: "char_sextet c = Some n \<Longrightarrow> n < 64"
proof -
  have "index_of c xs = Some n \<Longrightarrow> n < length xs" for xs
    by (induction xs arbitrary: n) (auto split: if_splits)
  then show "char_sextet c = Some n \<Longrightarrow> n < 64"
    using alphabet_distinct(2) by (fastforce simp: char_sextet_def)
qed

lemma all_sextets:
  "\<forall>q \<in> set qs. q < 64 \<Longrightarrow> all_some (map char_sextet (map sextet_char qs)) = Some qs"
  by (induction qs) (simp_all add: sextet_inverse)

lemma DecodeString_Encode: "bytes_ok bs \<Longrightarrow> DecodeString (EncodeToString bs) = Some bs"
proof -
  assume b: "bytes_ok bs"
  have q: "\<forall>q \<in> set (sextets bs). q < 64" using b by (rule sextets_bound)
  have "filter (\<lambda>c. c \<noteq> CHR 0x0A \<and> c \<noteq> CHR 0x0D) (EncodeToString bs) = EncodeToString bs"
    using q sextet_no_newline by (auto simp: EncodeToString_def filter_id_conv)
  then show ?thesis
    using q b by (simp add: DecodeString_def EncodeToString_def all_sextets octets_sextets del: map_map)
qed

lemma DecodeString_bytes: "DecodeString s = Some bs \<Longrightarrow> bytes_ok bs"
proof -
  assume "DecodeString s = Some bs"
  then obtain qs where q: "all_some (map char_sextet
      (filter (\<lambda>c. c \<noteq> CHR 0x0A \<and> c \<noteq> CHR 0x0D) s)) = Some qs" "octets qs = Some bs"
    by (auto simp: DecodeString_def bind_eq_Some_conv)
  have "q < 64" if "q \<in> set qs" for q
  proof -
    have "Some q \<in> set (map Some qs)" using that by simp
    then have "Some q \<in> char_sextet ` set s" using q(1) unfolding all_some_Some by (metis (no_types, lifting) filter_is_subset image_mono in_mono list.set_map)
    then show ?thesis using char_sextet_bound by (metis imageE)
  qed
  then have "\<forall>q \<in> set qs. q < 64" by blast
  with q(2) show ?thesis by (rule octets_bound)
qed

text \<open>A public key is accepted exactly when it is the encoding of 32 bytes, and of one such list.\<close>

lemma canonicalX_iff:
  "canonicalX x \<longleftrightarrow> (\<exists>!bs. bytes_ok bs \<and> length bs = 32 \<and> x = EncodeToString bs)"
proof
  assume "canonicalX x"
  then obtain bs where b: "DecodeString x = Some bs" "length bs = 32" "EncodeToString bs = x"
    by (auto simp: canonicalX_def split: option.splits)
  have u: "cs = bs" if "bytes_ok cs" "x = EncodeToString cs" for cs
    using DecodeString_Encode [OF that(1)] that(2) b(1) by simp
  show "\<exists>!bs. bytes_ok bs \<and> length bs = 32 \<and> x = EncodeToString bs"
    using b DecodeString_bytes [OF b(1)] u by blast
next
  assume "\<exists>!bs. bytes_ok bs \<and> length bs = 32 \<and> x = EncodeToString bs"
  then obtain bs where "bytes_ok bs" "length bs = 32" "x = EncodeToString bs" by blast
  then show "canonicalX x" by (simp add: canonicalX_def DecodeString_Encode)
qed

end
