(* ===== verification/Key_Cache_Props.thy ===== *)
theory Key_Cache_Props
  imports Key_Cache Key_Encoding
begin

text \<open>
  What the key cache guarantees, over every interleaving of its callers: one fetch at a time, no
  caller left waiting, only keys that passed the checks of \<open>Key_Documents\<close>, and the two pauses
  between fetches. The locale \<open>cache_invariant\<close> is the contract of an invariant of the system of
  callers; \<open>flight\<close> and \<open>checked\<close> are its two uses.
\<close>

section \<open>The sections of the loop\<close>

lemma serve_fresh:
  "enterLoad force t K = (Serve ks, K') \<Longrightarrow> K' = K \<and> ks = cachedKeys K \<and> keysFresh t K"
  by (auto simp: enterLoad_def split: if_splits)

lemma unknown_fresh: "enterUnknown t K = Some ks \<Longrightarrow> ks = cachedKeys K \<and> keysFresh t K"
  by (auto simp: enterUnknown_def keysFresh_def split: if_splits)

lemma await_refreshing:
  "enterLoad force t K = (Await ch, K') \<Longrightarrow> K' = K \<and> ch = refreshDone K \<and> refreshing K"
  by (auto simp: enterLoad_def split: if_splits)

lemma refuse_same: "enterLoad force t K = (Refuse e, K') \<Longrightarrow> K' = K"
  by (auto simp: enterLoad_def split: if_splits)

text \<open>A fetch starts only when none is running and the pauses are over, and sets the pauses.\<close>

lemma fetch_starts:
  "enterLoad force t K = (Fetch tag, K') \<Longrightarrow>
   \<not> refreshing K \<and> \<not> before_time t (nextFetch K) \<and>
   (keysFresh t K \<longrightarrow> force \<and> \<not> before_time t (nextUnknownRefresh K)) \<and> tag = cachedETag K \<and>
   K' = K\<lparr>refreshing := True, refreshDone := refreshDone K + 1,
     nextFetch := Some (t + failedFetchRetryDelay),
     nextUnknownRefresh := (if force then Some (t + unknownKIDRefreshDelay) else nextUnknownRefresh K)\<rparr>"
  by (auto simp: enterLoad_def split: if_splits)

text \<open>Nothing but a fetch changes the cache.\<close>

lemma not_fetch_same:
  assumes "enterLoad force t K = (d, K')"
  shows "K' = K \<or> (\<exists>tag. d = Fetch tag)"
  using assms serve_fresh [of force t K _ K'] await_refreshing [of force t K _ K'] refuse_same [of force t K _ K']
  by (cases d) blast+

lemma finish_cases:
  assumes "finishLoad force res t later K = (r, K')"
  obtains (failed) e where "lastFailure K' = Some e"
      "K' = K\<lparr>lastFailure := Some e, refreshing := False\<rparr>"
      "r = Inl e \<or> force \<and> keysFresh later K' \<and> r = Inr (cachedKeys K)"
    | (renewed) x where "res = Inr x" "notModified x" "cachedKeys K \<noteq> []" "r = Inr (cachedKeys K)"
      "K' = K\<lparr>cacheExpiresAt := Some (t + fetched_ttl x), lastFailure := None, nextFetch := None,
         refreshing := False\<rparr>"
    | (replaced) x where "res = Inr x" "\<not> notModified x" "r = Inr (fetched_keys x)"
      "K' = K\<lparr>cachedKeys := fetched_keys x, cachedETag := fetched_etag x,
         cacheExpiresAt := Some (t + fetched_ttl x), lastFailure := None, nextFetch := None,
         refreshing := False\<rparr>"
  using assms
  by (cases res) (auto simp: finishLoad_def Let_def keysFresh_def split: if_splits)

lemma finish_channel: "finishLoad force res t later K = (r, K') \<Longrightarrow>
    \<not> refreshing K' \<and> refreshDone K' = refreshDone K \<and> nextUnknownRefresh K' = nextUnknownRefresh K"
  by (erule finish_cases) simp_all

text \<open>After a fetch that failed nobody fetches for a second; after one for an unknown key
  identifier nobody fetches for ten seconds while the keys are fresh.\<close>

lemma failure_pause:
  assumes "enterLoad force t K = (Fetch tag, K1)" "finishLoad force res t1 t2 K1 = (r, K2)"
    and "lastFailure K2 \<noteq> None" "t' < t + failedFetchRetryDelay"
  shows "enterLoad f t' K2 \<noteq> (Fetch tag', K3)"
proof -
  have "nextFetch K1 = Some (t + failedFetchRetryDelay)" using fetch_starts [OF assms(1)] by simp
  moreover have "nextFetch K2 = nextFetch K1"
    using assms(2) by (rule finish_cases) (use assms(3) in auto)
  ultimately show ?thesis
    using fetch_starts [of f t' K2 tag' K3] assms(4) by (auto simp: before_time_def)
qed

lemma unknown_pause:
  assumes "enterLoad True t K = (Fetch tag, K1)" "finishLoad True res t1 t2 K1 = (r, K2)"
    and "keysFresh t' K2" "t' < t + unknownKIDRefreshDelay"
  shows "enterLoad f t' K2 = (Serve (cachedKeys K2), K2)"
proof -
  have "nextUnknownRefresh K2 = Some (t + unknownKIDRefreshDelay)" "\<not> refreshing K2"
    using fetch_starts [OF assms(1)] finish_channel [OF assms(2)] by simp_all
  then show ?thesis using assms(3,4) by (simp add: enterLoad_def before_time_def)
qed

section \<open>Invariants of the callers\<close>

text \<open>A task that is not fetching may go anywhere but into a fetch or a wait, and may take the keys
  with it when they are fresh.\<close>

definition moves_to :: "cacheSystem \<Rightarrow> task \<Rightarrow> bool" where
  "moves_to s T \<longleftrightarrow>
     T = Idle \<or> (\<exists>force. T = Entering force) \<or> (\<exists>e. T = Returned (Inl e)) \<or>
     cachedKeys (keyStore s) \<noteq> [] \<and> T = Returned (Inr (cachedKeys (keyStore s)))"

lemma moves_simps [simp]:
  "moves_to s Idle" "moves_to s (Entering force)" "moves_to s (Returned (Inl e))"
  by (simp_all add: moves_to_def)

locale cache_invariant =
  fixes json_parse :: "string \<Rightarrow> json option" and mime_parse :: "string \<Rightarrow> string option"
    and I :: "cacheSystem \<Rightarrow> bool"
  assumes I_new: "I (newSystem t)"
    and I_time: "I s \<Longrightarrow> I (s\<lparr>cacheClock := t\<rparr>)"
    and I_moves: "I s \<Longrightarrow> \<not> is_fetching (cacheTasks s i) \<Longrightarrow> moves_to s T \<Longrightarrow> I (setTask i T s)"
    and I_waits: "I s \<Longrightarrow> \<not> is_fetching (cacheTasks s i) \<Longrightarrow> refreshing (keyStore s) \<Longrightarrow>
      I (setTask i (Waiting (refreshDone (keyStore s))) s)"
    and I_starts: "I s \<Longrightarrow> \<not> is_fetching (cacheTasks s i) \<Longrightarrow>
      enterLoad force (cacheClock s) (keyStore s) = (Fetch tag, K) \<Longrightarrow>
      I (setTask i (Fetching force tag) (s\<lparr>keyStore := K\<rparr>))"
    and I_fetched: "I s \<Longrightarrow> cacheTasks s i = Fetching force tag \<Longrightarrow>
      I (fetches force (fetch json_parse mime_parse tag response) later i s)"
begin

lemma I_enters: "I s \<Longrightarrow> cacheTasks s i = Entering force \<Longrightarrow> I (enters force i s)"
proof -
  assume I: "I s" and t: "cacheTasks s i = Entering force"
  have n: "\<not> is_fetching (cacheTasks s i)" by (simp add: t is_fetching_def)
  obtain d K where e: "enterLoad force (cacheClock s) (keyStore s) = (d, K)" by (meson surj_pair)
  have same: "s\<lparr>keyStore := keyStore s\<rparr> = s" by simp
  show "I (enters force i s)"
  proof (cases d)
    case (Serve ks)
    then show ?thesis using I_moves [OF I n] serve_fresh [OF e [unfolded Serve]] e same
      by (simp add: enters_def moves_to_def keysFresh_def)
  next
    case (Await ch)
    then show ?thesis using I_waits [OF I n] await_refreshing [OF e [unfolded Await]] e same
      by (simp add: enters_def)
  next
    case (Refuse x)
    then show ?thesis using I_moves [OF I n] refuse_same [OF e [unfolded Refuse]] e same
      by (simp add: enters_def moves_to_def)
  next
    case (Fetch tag)
    then show ?thesis using I_starts [OF I n] e by (simp add: enters_def)
  qed
qed

lemma I_step: "cache_step json_parse mime_parse s s' \<Longrightarrow> I s \<Longrightarrow> I s'"
proof (induction rule: cache_step.induct)
  case (calls_unknown s i)
  then show ?case
    by (intro I_moves) (auto simp: is_fetching_def moves_to_def keysFresh_def dest!: unknown_fresh
        split: option.split)
next
  case (loads s i force)
  then show ?case using I_enters by blast
next
  case (fetched s i force tag later response)
  then show ?case using I_fetched by blast
next
  case (passes s t)
  then show ?case using I_time by blast
qed (simp_all add: I_moves is_fetching_def)

lemma I_reachable: "cache_reachable json_parse mime_parse s \<Longrightarrow> I s"
  by (induction rule: cache_reachable.induct) (auto intro: I_new I_step)

end

lemma setTask_simps [simp]:
  "keyStore (setTask i T s) = keyStore s" "cacheTasks (setTask i T s) = (cacheTasks s)(i := T)"
  "cacheClock (setTask i T s) = cacheClock s"
  by (simp_all add: setTask_def)

lemma flight_task:
  assumes "single_flight s" "\<not> is_fetching (cacheTasks s i)" "\<not> is_fetching T"
    and "\<And>ch. T = Waiting ch \<Longrightarrow> ch \<le> refreshDone (keyStore s)"
  shows "single_flight (setTask i T s)"
proof -
  have f: "is_fetching (((cacheTasks s)(i := T)) j) = is_fetching (cacheTasks s j)" for j
    using assms(2,3) by simp
  have g: "((cacheTasks s)(i := T)) j = Fetching force tag \<Longrightarrow> cacheTasks s j = Fetching force tag"
    for j force tag
    using assms(3) by (auto simp: is_fetching_def split: if_splits)
  have n: "T \<noteq> Fetching force tag" for force tag using assms(3) by (auto simp: is_fetching_def)
  show ?thesis
    using assms(1,4) n unfolding single_flight_def setTask_simps f by (auto dest: g)
qed

interpretation flight: cache_invariant json_parse mime_parse single_flight for json_parse mime_parse
proof unfold_locales
  show "single_flight (newSystem t)" for t
    by (simp add: single_flight_def newSystem_def newKeyCache_def is_fetching_def)
  show "single_flight (s\<lparr>cacheClock := t\<rparr>)" if "single_flight s" for s t
    using that by (simp add: single_flight_def)
  show "single_flight (setTask i T s)"
    if "single_flight s" "\<not> is_fetching (cacheTasks s i)" "moves_to s T" for s i T
    using that(3) by (intro flight_task [OF that(1,2)]) (auto simp: moves_to_def is_fetching_def)
  show "single_flight (setTask i (Waiting (refreshDone (keyStore s))) s)"
    if "single_flight s" "\<not> is_fetching (cacheTasks s i)" for s i
    using that by (intro flight_task) (auto simp: is_fetching_def)
  show "single_flight (setTask i (Fetching force tag) (s\<lparr>keyStore := K\<rparr>))"
    if "single_flight s" "\<not> is_fetching (cacheTasks s i)"
      "enterLoad force (cacheClock s) (keyStore s) = (Fetch tag, K)" for s i force tag K
    using that fetch_starts [OF that(3)]
    by (auto simp: single_flight_def is_fetching_def split: if_splits intro: le_SucI)
  show "single_flight (fetches force (fetch json_parse mime_parse tag response) later i s)"
    if I: "single_flight s" and t: "cacheTasks s i = Fetching force tag"
    for s i force tag json_parse mime_parse response later
  proof -
    obtain r K where f: "finishLoad force (fetch json_parse mime_parse tag response) (cacheClock s)
        later (keyStore s) = (r, K)" by (meson surj_pair)
    have only: "\<not> is_fetching (cacheTasks s j)" if "j \<noteq> i" for j
      using I t that by (auto simp: single_flight_def is_fetching_def)
    show ?thesis
      using I finish_channel [OF f] only
      by (auto simp: fetches_def f single_flight_def is_fetching_def split: if_splits)
  qed
qed

text \<open>Nobody is left waiting: while a task waits, either the refresh it waits for is being fetched, or
  it can go on.\<close>

lemma no_lost_wakeup:
  assumes "single_flight s" "cacheTasks s i = Waiting ch"
  shows "(\<exists>j. is_fetching (cacheTasks s j)) \<or>
    cache_step json_parse mime_parse s (setTask i (Entering False) s)"
  using assms wakes [OF assms(2)] by (auto simp: single_flight_def)

section \<open>Only checked keys\<close>

lemma finish_checked:
  assumes "checked_keys K" "finishLoad force (fetch json_parse mime_parse (cachedETag K) response) t later K = (r, K')"
  shows "checked_keys K' \<and> (\<forall>ks. r = Inr ks \<longrightarrow> key_set ks)"
  using assms(2)
proof (cases rule: finish_cases)
  case (failed e)
  then show ?thesis using assms(1) by (auto simp: checked_keys_def keysFresh_def)
next
  case (renewed x)
  then show ?thesis using assms(1) by (auto simp: checked_keys_def)
next
  case (replaced x)
  from fetch_sound [OF replaced(1)] replaced(2) have "key_set (fetched_keys x)" "fetched_etag x \<noteq> []"
    by simp_all
  then show ?thesis using replaced by (auto simp: checked_keys_def key_set_def)
qed

definition tags_sent :: "cacheSystem \<Rightarrow> bool" where
  "tags_sent s \<longleftrightarrow> single_flight s \<and> served_checked s"

interpretation checked: cache_invariant json_parse mime_parse tags_sent for json_parse mime_parse
proof unfold_locales
  show "tags_sent (newSystem t)" for t
    using flight.I_new [of t]
    by (simp add: tags_sent_def served_checked_def checked_keys_def newSystem_def newKeyCache_def)
  show "tags_sent (s\<lparr>cacheClock := t\<rparr>)" if "tags_sent s" for s t
    using that flight.I_time by (simp add: tags_sent_def served_checked_def)
  show "tags_sent (setTask i T s)"
    if "tags_sent s" "\<not> is_fetching (cacheTasks s i)" "moves_to s T" for s i T
    using that flight.I_moves [of s i T]
    by (auto simp: tags_sent_def served_checked_def moves_to_def checked_keys_def)
  show "tags_sent (setTask i (Waiting (refreshDone (keyStore s))) s)"
    if "tags_sent s" "\<not> is_fetching (cacheTasks s i)" "refreshing (keyStore s)" for s i
    using that flight.I_waits [of s i] by (auto simp: tags_sent_def served_checked_def)
  show "tags_sent (setTask i (Fetching force tag) (s\<lparr>keyStore := K\<rparr>))"
    if "tags_sent s" "\<not> is_fetching (cacheTasks s i)"
      "enterLoad force (cacheClock s) (keyStore s) = (Fetch tag, K)" for s i force tag K
    using that flight.I_starts [of s i force tag K] fetch_starts [OF that(3)]
    by (auto simp: tags_sent_def served_checked_def checked_keys_def)
  show "tags_sent (fetches force (fetch json_parse mime_parse tag response) later i s)"
    if I: "tags_sent s" and t: "cacheTasks s i = Fetching force tag"
    for s i force tag json_parse mime_parse response later
  proof -
    obtain r K where f: "finishLoad force (fetch json_parse mime_parse tag response) (cacheClock s)
        later (keyStore s) = (r, K)" by (meson surj_pair)
    have "tag = cachedETag (keyStore s)" using I t by (auto simp: tags_sent_def single_flight_def)
    with finish_checked [of "keyStore s"] f I
    have "checked_keys K \<and> (\<forall>ks. r = Inr ks \<longrightarrow> key_set ks)"
      by (simp add: tags_sent_def served_checked_def)
    moreover have "single_flight (fetches force (fetch json_parse mime_parse tag response) later i s)"
      using I t flight.I_fetched by (simp add: tags_sent_def)
    ultimately show ?thesis
      using I by (auto simp: tags_sent_def served_checked_def fetches_def f)
  qed
qed

end
