(* ===== verification/Platform.thy ===== *)
theory Platform
  imports Key_Cache
begin

text \<open>
  The platform verifier (\<open>internal/auth/platform.go\<close>, \<open>platform_config.go\<close>): the pinned authorities,
  the verification of a token with a second attempt when its key is unknown, and the mapping of a
  verified access token to the identity the relay believes.

  The contract package is not under \<open>src\<close>: its verification of a token is the parameter \<open>verify\<close>, given
  the time in seconds, the configuration, the token, the profile and the keys. Its two identity
  types are records of the fields the code reads.
\<close>

section \<open>Configuration\<close>

record platformConfig =
  Issuer :: string
  JWKSURL :: string
  RelayAudience :: string

datatype platformError =
  BadIssuer | BadJWKSURL | ForeignJWKS | BadAudience | IncompleteDependencies

definition canonicalURL :: "(string \<Rightarrow> url option) \<Rightarrow> string \<Rightarrow> string \<Rightarrow> bool \<Rightarrow> url option" where
  "canonicalURL url_parse raw scheme allowPort =
     (if raw = [] \<or> TrimSpace raw \<noteq> raw \<or> length raw > 2048 then None
      else case url_parse raw of None \<Rightarrow> None | Some u \<Rightarrow>
        if Scheme u \<noteq> scheme \<or> Host u = [] \<or> Hostname u = [] then None
        else if User u \<or> RawQuery u \<noteq> [] \<or> Fragment u \<noteq> [] \<or> RawPath u \<noteq> [] then None
        else if \<not> allowPort \<and> Port u \<noteq> [] then None
        else if url_String u \<noteq> raw then None
        else Some u)"

definition HasSuffix :: "string \<Rightarrow> string \<Rightarrow> bool" where
  "HasSuffix s suffix \<longleftrightarrow> length s \<ge> length suffix \<and> drop (length s - length suffix) s = suffix"

definition PlatformValidate :: "(string \<Rightarrow> url option) \<Rightarrow> platformConfig \<Rightarrow> platformError option" where
  "PlatformValidate url_parse cfg =
     (case canonicalURL url_parse (Issuer cfg) ''https'' True of
        None \<Rightarrow> Some BadIssuer
      | Some issuer \<Rightarrow>
          if Path issuer \<noteq> [] then Some BadIssuer
          else (case canonicalURL url_parse (JWKSURL cfg) ''https'' True of
              None \<Rightarrow> Some BadJWKSURL
            | Some jwks \<Rightarrow>
                if Path jwks \<noteq> ''/.well-known/jwks.json'' then Some BadJWKSURL
                else if Scheme issuer \<noteq> Scheme jwks \<or> Host issuer \<noteq> Host jwks then Some ForeignJWKS
                else (case canonicalURL url_parse (RelayAudience cfg) ''wss'' True of
                    None \<Rightarrow> Some BadAudience
                  | Some audience \<Rightarrow>
                      if \<not> HasSuffix (Path audience) ''/ws'' then Some BadAudience else None)))"

definition LoadPlatformConfig ::
  "(string \<Rightarrow> url option) \<Rightarrow> (string \<Rightarrow> string option) \<Rightarrow> platformError + platformConfig" where
  "LoadPlatformConfig url_parse env =
     (let cfg = \<lparr>Issuer = environment env ''MIAKAPP_CONTROL_PLANE_ISSUER'' [],
                 JWKSURL = environment env ''MIAKAPP_CONTROL_PLANE_JWKS_URL'' [],
                 RelayAudience = environment env ''MIAKAPP_RELAY_AUDIENCE'' []\<rparr>
      in case PlatformValidate url_parse cfg of Some e \<Rightarrow> Inl e | None \<Rightarrow> Inr cfg)"

text \<open>A verifier starts with an empty cache; \<open>client\<close> and \<open>clock\<close> say whether the two dependencies were
  given.\<close>

record platformVerifier =
  verifierConfig :: platformConfig
  controlKeys :: keyCache

definition newPlatformVerifier ::
  "(string \<Rightarrow> url option) \<Rightarrow> platformConfig \<Rightarrow> bool \<Rightarrow> bool \<Rightarrow> platformError + platformVerifier" where
  "newPlatformVerifier url_parse cfg client clock =
     (case PlatformValidate url_parse cfg of Some e \<Rightarrow> Inl e | None \<Rightarrow>
        if \<not> client \<or> \<not> clock then Inl IncompleteDependencies
        else Inr \<lparr>verifierConfig = cfg, controlKeys = newKeyCache\<rparr>)"

section \<open>Verified access\<close>

record homeKeyAccess =
  hk_Scope :: string
  hk_Role :: "string option"
  hk_CoordinatorName :: "string option"
  hk_HomeID :: string
  hk_PrincipalID :: string
  hk_ClientID :: string
  hk_ExpiresAt :: int

record userAccess =
  ua_Scope :: string
  ua_Role :: string
  ua_VerifiedEmail :: "string option"
  ua_HomeID :: string
  ua_PrincipalID :: string
  ua_ExpiresAt :: int

datatype accessIdentity = HomeKeyAccess homeKeyAccess | UserAccess userAccess | OtherAccess

datatype verificationCode = Expired | InvalidAudience | UnknownKID | OtherCode

text \<open>\<open>time.Unix(seconds, 0)\<close> in nanoseconds, and a nil string as the empty one.\<close>

definition Unix :: "int \<Rightarrow> int" where "Unix seconds = seconds * second"

definition nil_string :: "string option \<Rightarrow> string" where
  "nil_string s = (case s of None \<Rightarrow> [] | Some v \<Rightarrow> v)"

definition mapAccessIdentity :: "accessIdentity \<Rightarrow> string \<Rightarrow> string \<Rightarrow> authError + identity" where
  "mapAccessIdentity verified profile scope =
     (case verified of
        HomeKeyAccess a \<Rightarrow>
          if profile = ''user'' \<or> hk_Scope a \<noteq> scope \<or> hk_Role a \<noteq> Some profile
          then Inl (AuthFailure ErrRejected)
          else
            let coordinatorName = nil_string (hk_CoordinatorName a) in
            if (profile = ''coordinator'') \<noteq> (coordinatorName \<noteq> [])
            then Inl (AuthFailure ErrRejected)
            else Inr \<lparr>Role = (if profile = ''coordinator'' then RoleCoordinator else RoleCLI),
                      HomeID = hk_HomeID a, ID = hk_PrincipalID a, ClientID = hk_ClientID a,
                      CoordinatorName = coordinatorName, VerifiedEmail = [],
                      ExpiresAt = Unix (hk_ExpiresAt a), Scopes = [scope]\<rparr>
      | UserAccess a \<Rightarrow>
          if profile \<noteq> ''user'' \<or> ua_Scope a \<noteq> scope \<or> ua_Role a \<noteq> ''user''
          then Inl (AuthFailure ErrRejected)
          else Inr \<lparr>Role = RoleUser, HomeID = ua_HomeID a, ID = ua_PrincipalID a, ClientID = [],
                    CoordinatorName = [], VerifiedEmail = nil_string (ua_VerifiedEmail a),
                    ExpiresAt = Unix (ua_ExpiresAt a), Scopes = [scope]\<rparr>
      | OtherAccess \<Rightarrow> Inl (AuthFailure ErrRejected))"

fun verificationFailureForContract :: "verificationCode \<Rightarrow> authError" where
  "verificationFailureForContract Expired = AuthFailure ErrExpired"
| "verificationFailureForContract InvalidAudience = AuthFailure ErrAudience"
| "verificationFailureForContract _ = AuthFailure ErrRejected"

type_synonym verifier =
  "int \<Rightarrow> platformConfig \<Rightarrow> string \<Rightarrow> string \<Rightarrow> publicJWK list \<Rightarrow> verificationCode + accessIdentity"

text \<open>\<open>current\<close> and \<open>refreshed\<close> are what the key cache returns if it is asked; the two verifications may
  happen at different times.\<close>

definition verifyAccess ::
  "verifier \<Rightarrow> platformConfig \<Rightarrow> int \<Rightarrow> int \<Rightarrow> cacheError + publicJWK list
     \<Rightarrow> cacheError + publicJWK list \<Rightarrow> request \<Rightarrow> string \<Rightarrow> string \<Rightarrow> authError + identity" where
  "verifyAccess verify cfg first second_try current refreshed q profile scope =
     (let conclude = (\<lambda>r. case r of
            Inl code \<Rightarrow> Inl (verificationFailureForContract code)
          | Inr verified \<Rightarrow> mapAccessIdentity verified profile scope)
      in case current of Inl _ \<Rightarrow> Inl (AuthFailure ErrTemporary) | Inr ks \<Rightarrow>
        let verified = verify first cfg (Token q) profile ks in
        if verified = Inl UnknownKID
        then (case refreshed of Inl _ \<Rightarrow> Inl (AuthFailure ErrTemporary)
              | Inr ks' \<Rightarrow> conclude (verify second_try cfg (Token q) profile ks'))
        else conclude verified)"

definition PlatformVerify ::
  "verifier \<Rightarrow> platformConfig \<Rightarrow> int \<Rightarrow> int \<Rightarrow> cacheError + publicJWK list
     \<Rightarrow> cacheError + publicJWK list \<Rightarrow> request \<Rightarrow> authError + identity" where
  "PlatformVerify verify cfg first second_try current refreshed q =
     (let access = verifyAccess verify cfg first second_try current refreshed q in
      if req_Role q = RoleCoordinator then access ''coordinator'' ''relay:coordinator''
      else if req_Role q = RoleCLI then access ''cli'' ''relay:cli''
      else if req_Role q = RoleUser then access ''user'' ''relay:user''
      else Inl (AuthFailure ErrRejected))"

section \<open>What a verified identity is\<close>

text \<open>The identity of a profile: role, scope and the fields that only one role may have.\<close>

definition profile_identity :: "int \<Rightarrow> identity \<Rightarrow> bool" where
  "profile_identity role i \<longleftrightarrow>
     Role i = role \<and> role \<in> {RoleUser, RoleCoordinator, RoleCLI} \<and>
     (\<exists>scope. expectedScope role = Some scope \<and> Scopes i = [scope]) \<and>
     (role = RoleUser \<longrightarrow> ClientID i = []) \<and> (role \<noteq> RoleUser \<longrightarrow> VerifiedEmail i = []) \<and>
     (CoordinatorName i \<noteq> [] \<longleftrightarrow> role = RoleCoordinator)"

lemma map_access:
  assumes "mapAccessIdentity verified profile scope = Inr i"
  shows "profile = ''user'' \<and> (\<exists>a. verified = UserAccess a) \<and> Role i = RoleUser \<and> ClientID i = [] \<and>
      CoordinatorName i = [] \<and> Scopes i = [scope] \<or>
    profile \<noteq> ''user'' \<and> (\<exists>a. verified = HomeKeyAccess a \<and> hk_Role a = Some profile) \<and>
      Role i = (if profile = ''coordinator'' then RoleCoordinator else RoleCLI) \<and>
      (CoordinatorName i \<noteq> [] \<longleftrightarrow> profile = ''coordinator'') \<and> VerifiedEmail i = [] \<and> Scopes i = [scope]"
  using assms by (auto simp: mapAccessIdentity_def Let_def split: accessIdentity.splits if_splits)

lemma verifyAccess_mapped:
  assumes "verifyAccess verify cfg t1 t2 current refreshed q profile scope = Inr i"
  obtains ks verified t where "current = Inr ks \<or> refreshed = Inr ks"
    "verify t cfg (Token q) profile ks = Inr verified" "mapAccessIdentity verified profile scope = Inr i"
  using assms
  by (auto simp: verifyAccess_def Let_def split: sum.splits if_splits)

lemma platform_profile:
  assumes "PlatformVerify verify cfg t1 t2 current refreshed q = Inr i"
  shows "profile_identity (req_Role q) i"
proof -
  obtain profile scope where p: "verifyAccess verify cfg t1 t2 current refreshed q profile scope = Inr i"
    "(req_Role q, profile, scope) \<in> {(RoleCoordinator, ''coordinator'', ''relay:coordinator''),
       (RoleCLI, ''cli'', ''relay:cli''), (RoleUser, ''user'', ''relay:user'')}"
    using assms by (auto simp: PlatformVerify_def Let_def split: if_splits)
  obtain verified where "mapAccessIdentity verified profile scope = Inr i"
    using p(1) by (rule verifyAccess_mapped)
  from map_access [OF this] p(2) show ?thesis
    by (auto simp: profile_identity_def expectedScope_def)
qed

text \<open>What a verified access grants: its own scope and role, and no field that it does not state.\<close>

definition grants :: "accessIdentity \<Rightarrow> string \<Rightarrow> identity \<Rightarrow> bool" where
  "grants verified profile i \<longleftrightarrow>
     (case verified of
        HomeKeyAccess a \<Rightarrow>
          profile \<noteq> ''user'' \<and> hk_Role a = Some profile \<and> hk_Scope a = ''relay:'' @ profile \<and>
          HomeID i = hk_HomeID a \<and> ID i = hk_PrincipalID a \<and> ClientID i = hk_ClientID a \<and>
          CoordinatorName i = nil_string (hk_CoordinatorName a) \<and> VerifiedEmail i = [] \<and>
          ExpiresAt i = hk_ExpiresAt a * second
      | UserAccess a \<Rightarrow>
          profile = ''user'' \<and> ua_Role a = ''user'' \<and> ua_Scope a = ''relay:user'' \<and>
          HomeID i = ua_HomeID a \<and> ID i = ua_PrincipalID a \<and> ClientID i = [] \<and>
          CoordinatorName i = [] \<and> VerifiedEmail i = nil_string (ua_VerifiedEmail a) \<and>
          ExpiresAt i = ua_ExpiresAt a * second
      | OtherAccess \<Rightarrow> False)"

lemma mapped_grants:
  "mapAccessIdentity verified profile (''relay:'' @ profile) = Inr i \<Longrightarrow> grants verified profile i"
  by (auto simp: mapAccessIdentity_def grants_def Unix_def Let_def
      split: accessIdentity.splits if_splits)

text \<open>Nothing is believed without keys that verified the token for the role that was asked for.\<close>

lemma verified_access:
  assumes "PlatformVerify verify cfg t1 t2 current refreshed q = Inr i"
  obtains ks verified t profile where "current = Inr ks \<or> refreshed = Inr ks"
    "verify t cfg (Token q) profile ks = Inr verified"
    "(req_Role q, profile) \<in> {(RoleCoordinator, ''coordinator''), (RoleCLI, ''cli''), (RoleUser, ''user'')}"
    "grants verified profile i"
proof -
  obtain profile where p: "verifyAccess verify cfg t1 t2 current refreshed q profile (''relay:'' @ profile) = Inr i"
    "(req_Role q, profile) \<in> {(RoleCoordinator, ''coordinator''), (RoleCLI, ''cli''), (RoleUser, ''user'')}"
    using assms by (auto simp: PlatformVerify_def Let_def split: if_splits)
  from p(1) show thesis by (rule verifyAccess_mapped) (use p(2) that mapped_grants in blast)
qed

text \<open>What is left for \<open>ValidateBinding\<close> to check.\<close>

lemma profile_binding:
  assumes "profile_identity (req_Role q) i"
  shows "ValidateBinding q i now = None \<longleftrightarrow>
    validIdentityValue (HomeID i) 128 \<and> validIdentityValue (ID i) 128 \<and>
    (if req_Role q = RoleUser then req_HomeID q \<noteq> [] \<and> HomeID i = req_HomeID q
     else validIdentityValue (ClientID i) 128 \<and> (req_HomeID q = [] \<or> HomeID i = req_HomeID q)) \<and>
    (req_Role q = RoleCoordinator \<longrightarrow> CoordinatorName i = req_CoordinatorName q) \<and>
    now < ExpiresAt i \<and> 0 < UnixMilli (ExpiresAt i) \<and> UnixMilli (ExpiresAt i) \<le> max_safe_integer \<and>
    (VerifiedEmail i = [] \<or> validIdentityValue (VerifiedEmail i) 320)"
  using assms unfolding ValidateBinding_None bound_identity_def profile_identity_def by auto

section \<open>What a validated configuration is\<close>

lemma canonicalURL_Some:
  "canonicalURL url_parse raw scheme allowPort = Some u \<Longrightarrow>
   url_parse raw = Some u \<and> Scheme u = scheme \<and> Host u \<noteq> [] \<and> url_String u = raw \<and> \<not> User u \<and>
   RawQuery u = [] \<and> Fragment u = []"
  by (auto simp: canonicalURL_def split: if_splits option.splits)

lemma platform_config_ok:
  assumes "PlatformValidate url_parse cfg = None"
  shows "\<exists>issuer jwks audience.
    url_parse (Issuer cfg) = Some issuer \<and> url_parse (JWKSURL cfg) = Some jwks \<and>
    url_parse (RelayAudience cfg) = Some audience \<and>
    Scheme issuer = ''https'' \<and> Scheme jwks = ''https'' \<and> Scheme audience = ''wss'' \<and>
    Host jwks = Host issuer \<and> Path issuer = [] \<and> Path jwks = ''/.well-known/jwks.json''"
proof -
  obtain issuer jwks audience where u:
    "canonicalURL url_parse (Issuer cfg) ''https'' True = Some issuer"
    "canonicalURL url_parse (JWKSURL cfg) ''https'' True = Some jwks"
    "canonicalURL url_parse (RelayAudience cfg) ''wss'' True = Some audience"
    "Host jwks = Host issuer" "Path issuer = []" "Path jwks = ''/.well-known/jwks.json''"
    using assms by (auto simp: PlatformValidate_def split: option.splits if_splits)
  from canonicalURL_Some [OF u(1)] canonicalURL_Some [OF u(2)] canonicalURL_Some [OF u(3)] u(4-6)
  show ?thesis by blast
qed

end
