(* ===== verification/Auth_Samples.thy ===== *)
theory Auth_Samples
  imports Samples Key_Cache_Props Platform
begin

text \<open>
  A Control Plane with one key, a cache that fetches it while a second caller waits, and a verifier
  that believes one token: where the properties of the auth package are evaluated.
\<close>

definition sampleKey :: publicJWK where
  "sampleKey = \<lparr>KTY = ''OKP'', KID = ''k1'', Use = ''sig'', Alg = ''EdDSA'', CRV = ''Ed25519'',
     X = replicate 43 CHR ''A''\<rparr>"

definition sampleJSON :: "string \<Rightarrow> json option" where
  "sampleJSON document = Some (JObject [(''keys'', JArray [JObject
     [(''kty'', JString ''OKP''), (''kid'', JString ''k1''), (''use'', JString ''sig''),
      (''alg'', JString ''EdDSA''), (''crv'', JString ''Ed25519''),
      (''x'', JString (replicate 43 CHR ''A''))]])])"

definition sampleMime :: "string \<Rightarrow> string option" where "sampleMime s = Some s"

definition sampleResponse :: httpResponse where
  "sampleResponse = \<lparr>cacheControl = [''public, max-age=60, must-revalidate''], ageHeader = ''10'',
     statusCode = 200, contentType = ''application/json'', etagHeader = [dquote, CHR ''v'', dquote],
     bodyInput = Some ''{}''\<rparr>"

definition sampleAnswer :: "fetchError + keyFetchResult" where
  "sampleAnswer = fetch sampleJSON sampleMime [] (Some sampleResponse)"

text \<open>Caller 0 fetches, caller 1 waits; then the answer arrives.\<close>

definition fetchingSystem :: cacheSystem where
  "fetchingSystem = enters False 0 (setTask 0 (Entering False) (newSystem 0))"

definition waitingSystem :: cacheSystem where
  "waitingSystem = enters False 1 (setTask 1 (Entering False) fetchingSystem)"

definition servedSystem :: cacheSystem where
  "servedSystem = fetches False sampleAnswer 5 0 waitingSystem"

lemmas cache_run = servedSystem_def waitingSystem_def fetchingSystem_def enters_def fetches_def
  setTask_def newSystem_def newKeyCache_def enterLoad_def keysFresh_def before_time_def
  finishLoad_def failedFetchRetryDelay_def second_def

lemma fetching_reachable: "cache_reachable sampleJSON sampleMime fetchingSystem"
proof -
  have "cache_reachable sampleJSON sampleMime (setTask 0 (Entering False) (newSystem 0))"
    by (rule cache_reachable.continues [OF cache_reachable.starts [of _ _ 0]])
      (rule calls_current, simp add: newSystem_def)
  then show ?thesis unfolding fetchingSystem_def
    by (rule cache_reachable.continues) (intro loads, simp add: setTask_def)
qed

lemma waiting_reachable: "cache_reachable sampleJSON sampleMime waitingSystem"
proof -
  have "cacheTasks fetchingSystem 1 = Idle" by (simp add: cache_run)
  then have "cache_reachable sampleJSON sampleMime (setTask 1 (Entering False) fetchingSystem)"
    by (intro cache_reachable.continues [OF fetching_reachable] calls_current)
  then show ?thesis unfolding waitingSystem_def
    by (rule cache_reachable.continues) (intro loads, simp add: setTask_def)
qed

lemma served_reachable: "cache_reachable sampleJSON sampleMime servedSystem"
proof -
  have "cacheTasks waitingSystem 0 = Fetching False []" "cacheClock waitingSystem \<le> 5"
    by (simp_all add: cache_run)
  then have "cache_step sampleJSON sampleMime waitingSystem servedSystem"
    unfolding servedSystem_def sampleAnswer_def by (rule fetched)
  with waiting_reachable show ?thesis by (rule cache_reachable.continues)
qed

text \<open>The answer, one check at a time.\<close>

lemma sample_policy: "responseCacheTTL (cacheControl sampleResponse) (ageHeader sampleResponse) = Some 50000000000"
  by code_simp

lemma sample_body: "readBoundedBody (bodyInput sampleResponse) = Some ''{}''"
proof -
  have "\<not> rejectUnpairedSurrogateEscapes ''{}''" "runes ''{}'' \<noteq> None" by code_simp+
  then show ?thesis by (simp add: sampleResponse_def readBoundedBody_def maximumKeyDocumentBytes_def Let_def)
qed

lemma sample_tag: "canonicalETag (etagHeader sampleResponse) = Some [dquote, CHR ''v'', dquote]"
  by code_simp

lemma sample_keys: "decodeControlPlaneJWKS sampleJSON ''{}'' = Some [sampleKey]"
  by code_simp

lemma sample_answer: "sampleAnswer = Inr \<lparr>fetched_keys = [sampleKey],
    fetched_etag = [dquote, CHR ''v'', dquote], fetched_ttl = 50000000000, notModified = False\<rparr>"
  by (simp add: sampleAnswer_def fetch_def sample_policy sample_body sample_tag sample_keys)
    (simp add: sampleResponse_def sampleMime_def)

lemma served_keys: "cacheTasks servedSystem 0 = Returned (Inr [sampleKey])"
  by (simp add: cache_run sample_answer)

lemma waiting_flight: "refreshing (keyStore waitingSystem)" "cacheTasks waitingSystem 1 = Waiting 1"
  by (simp_all add: cache_run)

text \<open>A verifier that believes the user.\<close>

definition sampleVerify :: verifier where
  "sampleVerify t con token profile ks =
     (if ks = [] then Inl UnknownKID
      else Inr (UserAccess \<lparr>ua_Scope = ''relay:user'', ua_Role = ''user'', ua_VerifiedEmail = None,
        ua_HomeID = ''h'', ua_PrincipalID = ''u'', ua_ExpiresAt = 1000\<rparr>))"

definition samplePlatform :: platformConfig where
  "samplePlatform = \<lparr>Issuer = ''https://c'', JWKSURL = ''https://c/.well-known/jwks.json'',
     RelayAudience = ''wss://r/ws''\<rparr>"

lemma sample_verdict:
  "PlatformVerify sampleVerify samplePlatform 0 0 (Inr [sampleKey]) (Inr [sampleKey]) sampleRequest =
     Inr (sampleIdentity 1 ''u'' [])"
  by code_simp

end
