(* ===== verification/Spec2Isabelle.thy ===== *)
theory Spec2Isabelle
  imports Auth_Samples
begin

text \<open>
  The Miakapp relay server (\<open>src/internal\<close>, Go): a WebSocket relay that keeps, for each home, the
  state, events and functions its coordinators declare, and lets users and coordinators of the
  home read, publish, subscribe and call. This development models the relay package, the auth
  package (identity binding, key cache, platform verifier) and the configuration, as definitions
  that compute, and proves what makes them correct.

  \<^bold>\<open>The program and its model.\<close> The process state is one record \<open>relay\<close> (\<open>Relay_State\<close>): the
  configuration, the admission controller, the connections, call routes and homes (maps from
  addresses, so that sharing by pointer is sharing of an address), the registry of homes and the
  flags of the server. An operation takes the process state and the addresses it works on and
  returns the new state; every critical section of the source (under the home lock, the outbound
  lock, the lifecycle lock) is one step. Fallible operations return \<open>outcome\<close>: handled, failed
  with the error the peer is told, or panicked (a type assertion of Go that fails; the read loop
  recovers it). Go's \<open>int64\<close> is \<open>int\<close> with \<open>wrap64\<close> where arithmetic can overflow; a map is an
  association list without duplicate keys (\<open>wf_map\<close>), so that iteration has an order and the
  development holds for every order.

  \<^item> \<open>Prelude\<close>: association lists, sets as lists, \<open>wrap64\<close>, and the locales \<open>once_guard\<close>
    (\<open>sync.Once\<close>) and \<open>event_machine\<close>.
  \<^item> \<open>Frames\<close>: values, opcodes, frames, the error catalogue and the payload accessors
    (\<open>relay/errors.go\<close>, \<open>relay/projection.go\<close>). The codec package is not under \<open>src\<close>: it is the
    parameter \<open>protocol\<close>, of which \<open>codec_bounded\<close> says that no encoded frame exceeds the limit.
  \<^item> \<open>Config\<close>: \<open>config/config.go\<close>. \<open>Admission\<close>: \<open>relay/admission.go\<close>; parsing of addresses is the
    parameter \<open>netlib\<close>. \<open>Identity\<close>: \<open>auth/auth.go\<close>.
  \<^item> \<open>Key_Documents\<close>, \<open>Key_Responses\<close>, \<open>Key_Cache\<close>: \<open>auth/key_cache.go\<close>, from the bytes of a key
    document up to the cache and its callers. A caller is a \<open>task\<close> that runs the loop of \<open>load\<close> as two
    critical sections (\<open>enterLoad\<close>, \<open>finishLoad\<close>) with a fetch or a wait between them; \<open>cache_step\<close>
    interleaves any number of callers, and a channel \<open>refreshDone\<close> is closed where \<open>refreshing\<close> is
    \<open>False\<close>. \<open>json_parse\<close> and \<open>mime_parse\<close> are the parsers of the library.
  \<^item> \<open>Platform\<close>: \<open>auth/platform.go\<close> and \<open>platform_config.go\<close>; \<open>verify\<close> is the verification of a token
    in the contract package, which is not under \<open>src\<close>.
  \<^item> \<open>Relay_State\<close>, \<open>Outbound\<close>, \<open>Lease\<close>, \<open>Session\<close>: \<open>relay/connection.go\<close>. The write loop is one
    step per message (\<open>writeStep\<close>), the read loop one step per message (\<open>helloStep\<close>, \<open>readStep\<close>),
    an authentication two steps, before and after the verifier has answered. \<open>writeStep\<close> is one step for
    the pop, the socket write and what follows it: a message that is being written still counts as
    queued.
  \<^item> \<open>Views\<close>, \<open>Declarations\<close>, \<open>State_Set\<close>, \<open>Events\<close>, \<open>Calls\<close>, \<open>Home_Lifecycle\<close>:
    \<open>relay/home.go\<close>, \<open>declarations.go\<close>, \<open>state.go\<close>, \<open>events.go\<close>, \<open>calls.go\<close>.
  \<^item> \<open>Server\<close>: \<open>relay/server.go\<close>. A request that is let in holds an admission token, first among the
    \<open>upgrades\<close> of the process, then, once it runs a connection, among those \<open>serving\<close>; it releases the
    token when its upgrade fails (\<open>abandonUpgrade\<close>) or its session is over (\<open>closeSession\<close>).
  \<^item> \<open>Relay_Steps\<close>: the inductive relation \<open>relay_step\<close> with one rule for each thing that happens to
    a relay (time, a request, an upgrade that fails or opens a session, a session that ends, a message read or
    written, each timer, drain and close),
    and \<open>reachable_from\<close>.

  \<^bold>\<open>How the proofs are built.\<close> What every operation keeps is stated once, as locales, and each
  invariant of the relay is an interpretation of them: \<open>outbound_contract\<close>, \<open>session_contract\<close>,
  \<open>call_contract\<close> (\<open>Outbound_Inv\<close>, \<open>Contracts\<close>) and, over all steps, \<open>traffic_contract\<close> (what happens
  behind the door), \<open>door_contract\<close> (also at it) and \<open>system_contract\<close> (also the writer;
  \<open>Relay_Steps\<close>) for predicates on queues, budget and calls; \<open>budget_contract\<close> for those that no
  update of a connection touches; \<open>home_contract\<close> (\<open>Home_Contracts\<close>) for predicates on
  homes. \<open>queue_system\<close> interprets them with the byte accounting of the queues, \<open>call_system\<close> with
  the consistency of the call table (\<open>Call_Inv\<close>), \<open>admission_system\<close> with the connection counts,
  \<open>own_inv\<close> with the ownership of declarations and the registry (\<open>Ownership\<close>, \<open>Ownership_Inv\<close>).
  \<open>Door_Inv\<close> uses the same contracts for what is counted at the door, for the requests in flight
  (kept by every step but a write) and for a drain that was announced.
  \<open>Call_Props\<close>, \<open>Session_Props\<close>, \<open>State_View\<close> and \<open>Home_Props\<close> show what single operations do;
  \<open>State_View\<close> relates STATE_SET to an abstract view of the state of each user and to the frames
  every session is sent, over the delivery lemmas of \<open>Outbound_Inv\<close>; \<open>Key_Responses\<close> characterises
  the cache policy by what the parts of a header say. For the key cache,
  \<open>cache_invariant\<close> (\<open>Key_Cache_Props\<close>) is the contract of an invariant of its callers, interpreted as
  \<open>flight\<close> (one fetch at a time) and \<open>checked\<close> (only checked keys); \<open>Key_Encoding\<close> relates the escape
  check to one pass over the document and shows that the base64 coding of a key is a bijection.
  \<open>Samples\<close> and \<open>Auth_Samples\<close> hold the parameters, the states and the runs at which the properties
  below are evaluated.

  \<^bold>\<open>Bounds and fuel.\<close> \<open>sessionLoop\<close> has fuel 2: the second round starts from 1 and succeeds
  (\<open>sessionLoop_range\<close>). \<open>allocateLoop\<close> has one more round than there are identifiers in use
  (\<open>allocate_total\<close>, and \<open>callee_identifier_found\<close> below). \<open>surrogateLoop\<close> ends because its index
  grows; every other loop is structural.

  \<^bold>\<open>Assumed of the environment.\<close> A step \<open>session_opens\<close> needs a request whose upgrade is under way, and
  allocates a connection at an address nothing has written to (\<open>untouched\<close>), and the codec's HELLO of a coordinator carries a name that is not
  empty (\<open>named_hello\<close>).

  \<^bold>\<open>Not modelled.\<close> The codec package, the WebSocket library and the verification of tokens are not
  under \<open>src\<close>; \<open>net/http\<close> only as far as the handlers read it; scheduling is the choice of the next
  step. The entry point \<open>cmd/miakapp-server\<close>, the integration verifier (a TLS client for tests) and
  the test programs under \<open>test\<close> are process input and output.
\<close>

section \<open>Every state the relay reaches\<close>

text \<open>C1. Bounded queues. In every state a relay with a validated configuration reaches, a
  connection holds exactly the bytes of its queued messages, at most its own ceiling, nothing is
  queued behind a closing message, and the shared budget is the sum over all connections and at
  most the aggregate ceiling.\<close>
theorem reachable_queues:
  assumes "codec_bounded P" "Validate P url_parse configuration = None"
    and "reachable_from P N (newRelay configuration seed) w"
  shows "queuedBytes (conns w c) = sum_list (map msg_len (queue (conns w c))) \<and>
    queuedBytes (conns w c) \<le> MaxQueuedBytes (cfg w) \<and>
    (\<forall>m \<in> set (butlast (queue (conns w c))). closeStatus m = 0) \<and>
    adm_queuedBytes (admission w) \<le> MaxAggregateQueuedBytes (cfg w) \<and>
    (\<exists>n. (\<forall>d \<ge> n. queuedBytes (conns w d) = 0) \<and>
      adm_queuedBytes (admission w) = (\<Sum>d<n. queuedBytes (conns w d)))"
proof -
  have "queues_ok P w"
    using assms(3) new_relay_ok [OF assms(1) Validate_ok [OF assms(2)]]
    by (rule queue_system.I_reachable)
  then show ?thesis using queues_okD by blast
qed

theorem reachable_queues_witness:
  "queuedBytes (conns relayDeclared 0) = sum_list (map msg_len (queue (conns relayDeclared 0))) \<and>
   queuedBytes (conns relayDeclared 0) \<le> MaxQueuedBytes (cfg relayDeclared)"
  using reachable_queues [OF sample_bounded sample_validated declared_reachable, of 0] by blast

text \<open>C2. Exclusive ownership. In every reachable state, the owner maps of a home that is not closed
  name exactly what the active declarations declare, so that a path, a topic and a function have
  one owner each, and the value of a path is the one its owner declared or set.\<close>
theorem reachable_ownership:
  assumes "Validate P url_parse configuration = None"
    and "reachable_from P N (newRelay configuration seed) w"
  shows "home_closed (homes w h) \<or>
    (get (stateOwners (homes w h)) p = Some n \<longleftrightarrow>
       (\<exists>cf. slotActive (homes w h) n = Some cf \<and> p \<in> set (ownedState cf))) \<and>
    (get (topicOwners (homes w h)) t = Some n \<longleftrightarrow>
       (\<exists>cf. slotActive (homes w h) n = Some cf \<and> t \<in> set (keys (cfg_events cf)))) \<and>
    (get (functionOwners (homes w h)) f = Some n \<longleftrightarrow>
       (\<exists>cf. slotActive (homes w h) n = Some cf \<and> f \<in> set (cfg_functions cf))) \<and>
    get (state (homes w h)) p = Option.bind (get (stateOwners (homes w h)) p)
      (\<lambda>m. Option.bind (slotActive (homes w h) m) (\<lambda>cf. get (cfg_state cf) p))"
proof -
  have "owned w"
    using assms(2) new_relay_owned [OF Validate_ok [OF assms(1)]] by (rule own_inv.V_reachable)
  then have "home_closed (homes w h) \<or> own_ok (homes w h)" by (rule ownedD)
  then show ?thesis using own_okD by blast
qed

theorem reachable_ownership_witness:
  "home_closed (homes relayDeclared 0) \<or>
   (get (stateOwners (homes relayDeclared 0)) ''a'' = Some ''c'' \<longleftrightarrow>
     (\<exists>cf. slotActive (homes relayDeclared 0) ''c'' = Some cf \<and> ''a'' \<in> set (ownedState cf)))"
  using reachable_ownership [OF sample_validated declared_reachable, of 0 "''a''" "''c''"] by blast

text \<open>C3. Tenant isolation. In every reachable state, a session sits in the home its verified
  identity names, the registry finds a home under its own identifier only, and there are at most
  as many homes as configured.\<close>
theorem reachable_tenancy:
  assumes "Validate P url_parse configuration = None"
    and "reachable_from P N (newRelay configuration seed) w"
  shows "(conn_home (conns w c) = Some h \<longrightarrow>
      h < nhomes w \<and> home_id (homes w h) = HomeID (conn_identity (conns w c))) \<and>
    (get (registry w) name = Some k \<longrightarrow> k < nhomes w \<and> home_id (homes w k) = name) \<and>
    int (length (registry w)) \<le> MaxHomes (cfg w)"
proof -
  have w: "owned w"
    using assms(2) new_relay_owned [OF Validate_ok [OF assms(1)]] by (rule own_inv.V_reachable)
  then show ?thesis using ownedD(7) [OF w] ownedD(6) [OF w] own_inv.V_registered [OF w] by blast
qed

theorem reachable_tenancy_witness:
  "home_id (homes relayJoined 0) = HomeID (conn_identity (conns relayJoined 0)) \<and>
   home_id (homes relayJoined 0) = ''h''"
  using reachable_tenancy [OF sample_validated joined_reachable, of 0 0 "''h''" 0] joined_home by blast

text \<open>C4. The call table. In every reachable state, an identifier in the map of a connection leads to
  a live, dispatched route that this connection takes part in under that identifier, and both ends
  of a live route find it.\<close>
theorem reachable_calls:
  assumes "reachable_from P N (newRelay configuration seed) w"
  shows "(get (calls (conns w c)) i = Some r \<longrightarrow>
      \<not> terminal (routes w r) \<and> accepted (routes w r) \<and>
      (caller (routes w r) = c \<and> callerID (routes w r) = i \<or>
       callee (routes w r) = c \<and> calleeID (routes w r) = i)) \<and>
    (\<not> terminal (routes w r) \<longrightarrow>
      get (calls (conns w (caller (routes w r)))) (callerID (routes w r)) = Some r \<and>
      get (calls (conns w (callee (routes w r)))) (calleeID (routes w r)) = Some r)"
proof -
  have w: "call_table P w"
    using assms new_relay_calls by (rule call_system.I_reachable)
  note ok = call_table_ok [OF w]
  have "get (calls (conns w c)) i = Some r \<Longrightarrow> \<not> terminal (routes w r) \<and> accepted (routes w r) \<and>
      (caller (routes w r) = c \<and> callerID (routes w r) = i \<or>
       callee (routes w r) = c \<and> calleeID (routes w r) = i)"
    using table_ok_soundD [OF ok] call_table_acceptedD [OF w] unfolding route_at_def by blast
  moreover have "\<not> terminal (routes w r) \<Longrightarrow>
      get (calls (conns w (caller (routes w r)))) (callerID (routes w r)) = Some r \<and>
      get (calls (conns w (callee (routes w r)))) (calleeID (routes w r)) = Some r"
    using table_ok_completeD [OF ok] unfolding route_at_def by blast
  ultimately show ?thesis by blast
qed

theorem reachable_calls_witness:
  "get (calls (conns relayDeclared 0)) 1 = None \<or>
   accepted (routes relayDeclared (the (get (calls (conns relayDeclared 0)) 1)))"
  using reachable_calls [OF declared_reachable, of 0 1] by (metis option.exhaust_sel)

text \<open>C5. Admission is exact. In every reachable state, the number of admitted connections is the
  number of requests that are being upgraded or run a session; each source is counted with exactly those
  of them that it holds, none of which has been released; every live connection is among the sessions
  that are counted. A source and the whole stay within their limits, and no more sources are tracked
  than configured.\<close>
theorem reachable_admission:
  assumes "codec_bounded P" "Validate P url_parse configuration = None"
    and "reachable_from P N (newRelay configuration seed) w"
  shows "activeConnections (admission w) = int (length (upgrades w) + length (serving w)) \<and>
    (case get (sources (admission w)) s of None \<Rightarrow> 0 | Some cur \<Rightarrow> src_active cur) =
      int (length (filter (\<lambda>token. token_source token = s) (upgrades w @ map snd (serving w)))) \<and>
    (\<forall>token \<in> set (upgrades w @ map snd (serving w)). \<not> token_once token) \<and>
    distinct (keys (serving w)) \<and> set (live w) \<subseteq> set (keys (serving w)) \<and>
    activeConnections (admission w) \<le> MaxConnections (cfg w) \<and>
    int (length (sources (admission w))) \<le> MaxTrackedIPs (cfg w) \<and>
    (\<forall>p \<in> set (sources (admission w)). 0 \<le> src_active (snd p) \<and>
       src_active (snd p) \<le> MaxConnectionsPerIP (cfg w) \<and>
       attempts (snd p) \<le> ConnectionAttemptsPerMinute (cfg w))"
proof -
  have "admitted (newRelay configuration seed)"
    by (rule new_relay_admitted [OF assms(1) Validate_ok [OF assms(2)]])
  with counted_new have "counted w \<and> admitted w" by (intro counted_reachable [OF assms(3)]) simp
  then show ?thesis
    by (simp add: counted_def tokens_def held_by_def active_of_def admitted_def admission_ok_def
        admission_inv_def source_ok_def)
qed

theorem reachable_admission_witness:
  "activeConnections (admission relayDeclared) =
     int (length (upgrades relayDeclared) + length (serving relayDeclared)) \<and>
   set (live relayDeclared) \<subseteq> set (keys (serving relayDeclared))"
  using reachable_admission [OF sample_bounded sample_validated declared_reachable] by blast

section \<open>State\<close>

text \<open>C6. Replication of the state. A STATE_SET that is handled replays the mutations its frame carries
  on the state of the home. Each user's view afterwards is its view before with the mutations of the
  paths it may see replayed. Every other connection of a user that may see one of them is told exactly
  those mutations, as they stand in the frame, once per session, in a patch from the revision it stood
  at to the new one (or, where the codec cannot encode the patch, in the snapshot of the new state), and
  is recorded at the new revision: its queue ends with that frame unless the connection has failed,
  which it has not where its queue and the shared budget had room. All others are left as they were.\<close>
theorem state_set_replicates:
  assumes "applyStateSet P h c f w = (Handled, w')" "codec_bounded P"
  defines "H \<equiv> homes w h" and "H' \<equiv> homes w' h"
  shows "\<exists>ms changes. Option.bind (payload_at (Payload f) 2) arrayValue = Some ms \<and>
    list_all2 (mutation_says H) ms changes \<and>
    get (state H') = replay changes (get (state H)) \<and>
    (\<forall>u. user_view H' u =
       replay (filter (\<lambda>ch. userCanSeeStateLocked H u (fst ch)) changes) (user_view H u)) \<and>
    (\<forall>d. d \<noteq> c \<longrightarrow>
       (let visible = shown H (userOf (conns w d)) ms changes in
        if available w d \<and> visible \<noteq> [] \<and> 0 < sessions_of H d
        then lastStateRevision (conns w' d) = revision H' \<and>
          told P w w' d (sessions_of H d) (length (users H)) (pushed P H H' (conns w d) visible)
        else conns w' d = conns w d))"
  unfolding H_def H'_def using assms(1,2) by (rule state_set_views)

theorem state_set_replicates_witness:
  "queue (conns (snd (applyStateSet sampleCodec 0 0 sampleSet sampleWorld)) 1) =
     [plainMessage \<lparr>Opcode = OpcodeStatePatch,
        Payload = [VBytes [7], VInt 1, VInt 2, VArray [VArray [VInt 1, VInt 0, VInt 9]]]\<rparr> [0]]"
proof -
  let ?w' = "snd (applyStateSet sampleCodec 0 0 sampleSet sampleWorld)"
  let ?H = "homes sampleWorld 0" and ?ms = "[VArray [VInt 1, VInt 0, VInt 9]]"
  have w': "applyStateSet sampleCodec 0 0 sampleSet sampleWorld = (Handled, ?w')"
    by (rule fst_eqD) code_simp
  obtain ms changes where m: "Option.bind (payload_at (Payload sampleSet) 2) arrayValue = Some ms"
    "list_all2 (mutation_says ?H) ms changes"
    and d: "\<forall>d. d \<noteq> 0 \<longrightarrow>
       (let visible = shown ?H (userOf (conns sampleWorld d)) ms changes in
        if available sampleWorld d \<and> visible \<noteq> [] \<and> 0 < sessions_of ?H d
        then lastStateRevision (conns ?w' d) = revision (homes ?w' 0) \<and>
          told sampleCodec sampleWorld ?w' d (sessions_of ?H d) (length (users ?H))
            (pushed sampleCodec ?H (homes ?w' 0) (conns sampleWorld d) visible)
        else conns ?w' d = conns sampleWorld d)"
    using state_set_replicates [OF w' sample_bounded] by blast
  have ms: "ms = ?ms" using m(1) by (simp add: sampleSet_def)
  have "nameOfID (pathsByID ?H) 1 = ''a''" by code_simp
  then have "changes = [(''a'', Some (VInt 9))]"
    using m(2) by (auto simp: ms list_all2_Cons1 mutation_says_def prod_eq_iff)
  moreover have "shown ?H (userOf (conns sampleWorld 1)) ?ms [(''a'', Some (VInt 9))] = ?ms"
    "available sampleWorld 1" "sessions_of ?H 1 = 1" "length (users ?H) = 1" by code_simp+
  ultimately have "told sampleCodec sampleWorld ?w' 1 1 1
      (pushed sampleCodec ?H (homes ?w' 0) (conns sampleWorld 1) ?ms)"
    using d [rule_format, of 1] ms by simp
  moreover have "room sampleWorld 1 1 131072" "queue (conns sampleWorld 1) = []" by code_simp+
  moreover have "revision (homes ?w' 0) = 2" by code_simp
  moreover have "epoch ?H = [7]" "revision ?H = 1" "lastStateRevision (conns sampleWorld 1) = 0" by code_simp+
  ultimately show ?thesis by (simp add: told_def pushed_def Let_def)
qed

text \<open>C7. Authority over the state, all or nothing. A STATE_SET changes only paths its sender owns and
  declared, in its own home, and advances the revision by one; one that is not handled changes no
  home, no other connection and no recorded revision.\<close>
theorem state_set_authority:
  assumes "applyStateSet P h c f w = (out, w')"
  shows "(out = Handled \<longrightarrow>
      revision (homes w' h) = revision (homes w h) + 1 \<and>
      stateOwners (homes w' h) = stateOwners (homes w h) \<and>
      (\<forall>k. k \<noteq> h \<longrightarrow> homes w' k = homes w k) \<and>
      (\<forall>p. get (state (homes w' h)) p \<noteq> get (state (homes w h)) p \<longrightarrow>
         ownerOf (stateOwners (homes w h)) p = nameOf (conns w c) \<and>
         (\<exists>cf. slotActive (homes w h) (nameOf (conns w c)) = Some cf \<and> p \<in> set (ownedState cf)))) \<and>
    (out \<noteq> Handled \<longrightarrow>
      homes w' = homes w \<and> (\<forall>d. d \<noteq> c \<longrightarrow> conns w' d = conns w d) \<and>
      lastStateRevision (conns w' c) = lastStateRevision (conns w c))"
proof (cases "out = Handled")
  case True
  with assms have "applyStateSet P h c f w = (Handled, w')" by simp
  from state_set_effect [OF this] show ?thesis using True by simp
next
  case False
  from state_set_atomic [OF assms False] False show ?thesis by simp
qed

theorem state_set_authority_witness:
  "revision (homes (snd (applyStateSet sampleCodec 0 0 sampleSet sampleWorld)) 0) =
     revision (homes sampleWorld 0) + 1"
proof -
  have "applyStateSet sampleCodec 0 0 sampleSet sampleWorld =
      (Handled, snd (applyStateSet sampleCodec 0 0 sampleSet sampleWorld))"
    by (rule fst_eqD) code_simp
  from state_set_authority [OF this] show ?thesis by simp
qed

text \<open>C8. What a snapshot shows. Every entry of the state snapshot of a user is a path of the home
  that the user may see, under its identifier, with its current value.\<close>
theorem snapshot_shows_visible:
  assumes "Payload (stateSnapshotFrameLocked H u) = [VBytes e, VInt rv, VArray entries]"
    and "entry \<in> set entries"
  shows "\<exists>path v. entry = VArray [VInt (idOf (pathsByName H) path), v] \<and>
    (path, v) \<in> set (state H) \<and> userCanSeeStateLocked H u path"
  using assms by (rule snapshot_visible)

theorem snapshot_shows_visible_witness:
  "\<exists>path v. VArray [VInt 1, VInt 1] = VArray [VInt (idOf (pathsByName sampleHome) path), v] \<and>
    (path, v) \<in> set (state sampleHome) \<and> userCanSeeStateLocked sampleHome ''u'' path"
proof (rule snapshot_shows_visible)
  show "Payload (stateSnapshotFrameLocked sampleHome ''u'') =
    [VBytes [7], VInt 1, VArray [VArray [VInt 1, VInt 1]]]" by code_simp
qed simp

section \<open>Declarations\<close>

text \<open>C9. Activation is all or nothing. Either the declarations take effect as a whole, in the one
  home concerned, or they are refused, every home stays as it was and the stage is discarded.\<close>
theorem activation_all_or_nothing:
  assumes "activateLocked P h c r st w = (out, w')"
  shows "out = Handled \<and>
      validateActivationLocked P w (homes w h) (nameOf (conns w c)) r st (configFromStage st) = None \<and>
      homes w' = (homes w)(h := activatedHome (homes w h) (nameOf (conns w c)) st) \<or>
    out \<noteq> Handled \<and> homes w' = homes w \<and> stage (conns w' c) = None"
  using activation_atomic [OF assms] activation_Handled [of P h c r st w w'] assms by blast

theorem activation_all_or_nothing_witness:
  "homes (snd (activateLocked sampleCodec 0 0 5 sampleStage sampleWorld)) =
     (homes sampleWorld)(0 := activatedHome (homes sampleWorld 0) (nameOf (conns sampleWorld 0)) sampleStage)"
  using activation_all_or_nothing [OF sample_activates] by blast

text \<open>C10. What an activation establishes. Every path, topic and function the coordinator declared is
  its own afterwards, a path with the value it declared; what it held before and did not declare again
  has no owner and no value; all other owners and values are as they were. So where the owner maps were
  exact before, as they are in every open home of a reachable relay, the coordinator owns exactly what it
  declared. The declarations are the active configuration of its slot.\<close>
theorem activation_establishes:
  assumes "activateLocked P h c r st w = (Handled, w')" "wf_map (stg_state st)"
  defines "n \<equiv> nameOf (conns w c)" and "H \<equiv> homes w h" and "H' \<equiv> homes w' h"
  shows "get (stateOwners H') p = (if p \<in> set (keys (stg_state st)) then Some n
      else if p \<in> held ownedState H n then None else get (stateOwners H) p) \<and>
    get (state H') p = (case get (stg_state st) p of Some v \<Rightarrow> Some v
      | None \<Rightarrow> if p \<in> held ownedState H n then None else get (state H) p) \<and>
    get (topicOwners H') t = (if t \<in> set (keys (stg_events st)) then Some n
      else if t \<in> held topicsOf H n then None else get (topicOwners H) t) \<and>
    get (functionOwners H') f = (if f \<in> set (stg_functions st) then Some n
      else if f \<in> held cfg_functions H n then None else get (functionOwners H) f) \<and>
    (own_ok H \<longrightarrow>
      (get (stateOwners H') p = Some n \<longleftrightarrow> p \<in> set (keys (stg_state st))) \<and>
      (get (topicOwners H') t = Some n \<longleftrightarrow> t \<in> set (keys (stg_events st))) \<and>
      (get (functionOwners H') f = Some n \<longleftrightarrow> f \<in> set (stg_functions st))) \<and>
    (get (coordinators H) n \<noteq> None \<longrightarrow> slotActive H' n = Some (configFromStage st))"
  unfolding n_def H_def H'_def
  by (intro conjI impI activation_owners [OF assms(1,2)] activation_exact [OF assms(1,2)])

theorem activation_establishes_witness:
  "get (stateOwners (homes (snd (activateLocked sampleCodec 0 0 5 sampleStage sampleWorld)) 0)) ''b'' =
     Some ''c'' \<and>
   get (stateOwners (homes (snd (activateLocked sampleCodec 0 0 5 sampleStage sampleWorld)) 0)) ''a'' = None \<and>
   get (functionOwners (homes (snd (activateLocked sampleCodec 0 0 5 sampleStage sampleWorld)) 0)) ''f'' =
     Some ''c''"
proof -
  have "wf_map (stg_state sampleStage)" "keys (stg_state sampleStage) = [''b'']"
    "stg_functions sampleStage = [''f'']" "nameOf (conns sampleWorld 0) = ''c''"
    "''a'' \<in> held ownedState (homes sampleWorld 0) ''c''"
    by (simp_all add: sampleStage_def newStage_def sample_defs held_def slotActive_def)
  with activation_establishes [OF sample_activates, of "''a''"]
    activation_establishes [OF sample_activates, of "''b''"] show ?thesis by simp
qed

section \<open>Events\<close>

text \<open>C11. Delivery is authorised. When the routing of an event changes a connection, the sender may
  speak (its lease and, for a coordinator, its generation are in force), the topic is declared, and
  that connection is entitled to the event: it is available, and it is the owning coordinator of a
  user's event that accepts users and that the user may publish, or a subscriber or another ready
  coordinator that the owner's flags name.\<close>
theorem event_delivery_authorised:
  assumes "conns (snd (routeClaimedEvent P h c e topicID kind target payload w)) d \<noteq> conns w d"
  shows "coordinatorGate w h c = None \<and> nameOfID (topicsByID (homes w h)) topicID \<noteq> [] \<and>
    (\<exists>owner slot cf.
       owner = ownerOf (topicOwners (homes w h)) (nameOfID (topicsByID (homes w h)) topicID) \<and>
       get (coordinators (homes w h)) owner = Some slot \<and> active slot = Some cf \<and>
       entitled w h c owner slot (idOf (cfg_events cf) (nameOfID (topicsByID (homes w h)) topicID))
         (nameOfID (topicsByID (homes w h)) topicID) topicID d)"
  using route_entitled [OF assms] by blast

theorem event_delivery_authorised_witness:
  "coordinatorGate sampleWorld 0 1 = None \<and> nameOfID (topicsByID (homes sampleWorld 0)) 1 \<noteq> []"
proof -
  let ?w = "snd (routeClaimedEvent sampleCodec 0 1 7 1 0 VNil (VInt 4) sampleWorld)"
  have "queue (conns ?w 0) \<noteq> []" by code_simp
  moreover have "queue (conns sampleWorld 0) = []" by (simp add: sample_defs)
  ultimately have "conns ?w 0 \<noteq> conns sampleWorld 0" by metis
  then show ?thesis using event_delivery_authorised by blast
qed

text \<open>C15. A user's event. An event of a user that is handled is appended, with the principal of the
  sender in it, to the queue of the coordinator that owns the topic, and to nothing else.\<close>
theorem user_event_reaches_owner:
  assumes "routeClaimedEvent P h c e topicID kind target payload w = (Handled, w')"
    and "roleOf (conns w c) = RoleUser"
  shows "\<exists>slot d b. get (coordinators (homes w h))
        (ownerOf (topicOwners (homes w h)) (nameOfID (topicsByID (homes w h)) topicID)) = Some slot \<and>
      slot_connection slot = Some d \<and> kind = 0 \<and> target = VNil \<and>
      EncodeFrame P (forwardedEvent (conns w c) e topicID 0 VNil payload) = Some b \<and>
      queue (conns w' d) = queue (conns w d) @
        [plainMessage (forwardedEvent (conns w c) e topicID 0 VNil payload) b] \<and>
      (\<forall>x. x \<noteq> d \<longrightarrow> conns w' x = conns w x)"
  using user_publish [OF assms] by (auto simp: appended_def)

theorem user_event_reaches_owner_witness:
  "queue (conns (snd (routeClaimedEvent sampleCodec 0 1 7 1 0 VNil (VInt 4) sampleWorld)) 0) =
     [plainMessage (forwardedEvent (conns sampleWorld 1) 7 1 0 VNil (VInt 4)) [0]]"
proof -
  have "routeClaimedEvent sampleCodec 0 1 7 1 0 VNil (VInt 4) sampleWorld =
      (Handled, snd (routeClaimedEvent sampleCodec 0 1 7 1 0 VNil (VInt 4) sampleWorld))"
    by (rule fst_eqD) code_simp
  moreover have "roleOf (conns sampleWorld 1) = RoleUser" by (simp add: sample_defs)
  ultimately show ?thesis
    using user_event_reaches_owner [of sampleCodec 0 1 7 1 0 VNil "VInt 4" sampleWorld]
    by (simp add: sample_defs nameOfID_def ownerOf_def)
qed

text \<open>C16. Subscriptions. A subscription adds only topics that are declared and that the enrolled user
  may subscribe to, within the limit of the session, and touches no other connection.\<close>
theorem subscription_authorised:
  assumes "subscribe P h c f w = (out, w')"
  shows "(subscriptions (conns w' c) = subscriptions (conns w c) \<or>
     (\<exists>ids. Option.bind (payload_at (Payload f) 1) arrayValue = Some (map VInt ids) \<and>
        subscriptions (conns w' c) = fold sadd ids (subscriptions (conns w c)) \<and>
        int (length (subscriptions (conns w' c))) \<le> MaxSubscriptions P \<and>
        userEnrolledLocked (homes w h) (userOf (conns w c)) \<and>
        (\<forall>i \<in> set ids. nameOfID (topicsByID (homes w h)) i \<noteq> [] \<and>
           userCanSubscribeTopicLocked (homes w h) (userOf (conns w c))
             (nameOfID (topicsByID (homes w h)) i)))) \<and>
    (\<forall>d. d \<noteq> c \<longrightarrow> conns w' d = conns w d) \<and> homes w' = homes w"
  using subscribe_effect [OF assms] by blast

theorem subscription_authorised_witness:
  "homes (snd (subscribe sampleCodec 0 1 subscribeFrame sampleWorld)) = homes sampleWorld"
  using subscription_authorised [OF surjective_pairing] by blast

text \<open>C17. Revocation. After an activation no user of the home is subscribed to a topic that nobody
  owns any more or that the user may not subscribe to.\<close>
theorem activation_revokes_subscriptions:
  assumes "activateLocked P h c r st w = (Handled, w')"
  shows "\<forall>(s, u) \<in> set (users (homes w' h)). \<forall>i \<in> set (subscriptions (conns w' u)).
    ownerOf (topicOwners (homes w' h)) (nameOfID (topicsByID (homes w' h)) i) \<noteq> [] \<and>
    userCanSubscribeTopicLocked (homes w' h) (userOf (conns w' u))
      (nameOfID (topicsByID (homes w' h)) i)"
  using activation_revokes [OF assms]
  by (force simp: subscriptions_authorised_def keepSubscription_def Let_def)

theorem activation_revokes_subscriptions_witness:
  "list_all (\<lambda>(s, u). list_all (\<lambda>i. nameOfID (topicsByID
       (homes (snd (activateLocked sampleCodec 0 0 5 keepStage subscribedWorld)) 0)) i = ''t'')
     (subscriptions (conns (snd (activateLocked sampleCodec 0 0 5 keepStage subscribedWorld)) u)))
   (users (homes (snd (activateLocked sampleCodec 0 0 5 keepStage subscribedWorld)) 0))"
proof -
  let ?w' = "snd (activateLocked sampleCodec 0 0 5 keepStage subscribedWorld)"
  have w': "activateLocked sampleCodec 0 0 5 keepStage subscribedWorld = (Handled, ?w')"
    by (rule fst_eqD, rule activation_succeeds) code_simp+
  have h: "homes ?w' 0 = activatedHome (homes subscribedWorld 0) (nameOf (conns subscribedWorld 0)) keepStage"
    using activation_atomic [OF w'] by auto
  have "topicOwners (homes ?w' 0) = [(''t'', ''c'')]" unfolding h by code_simp
  moreover have "topicsByID (homes ?w' 0) = [(1, ''t'')]" unfolding h by code_simp
  ultimately show ?thesis using activation_revokes_subscriptions [OF w']
    by (fastforce simp: list_all_iff nameOfID_def ownerOf_def split: if_splits)
qed

section \<open>Calls\<close>

text \<open>C18. A call that is accepted. The request was new and within the limits of both the caller and
  the callee, the function is declared and owned, an unenrolled user only joins, the callee is one the
  call may reach; a live route links both ends under the caller's identifier and a fresh one of the
  callee, and the caller is told.\<close>
theorem call_accepted:
  assumes "startCall P received h c f w = (Handled, w')"
  shows "\<exists>q d i b.
    decodeCall f = Some q \<and> coordinatorGate w h c = None \<and>
    get (calls (conns w c)) (rq_id q) = None \<and>
    int (length (calls (conns w c))) < MaxInflightCalls P \<and>
    int (length (calls (conns w d))) < MaxInflightCalls P \<and>
    nameOfID (functionsByID (homes w h)) (rq_function q) \<noteq> [] \<and>
    ownerOf (functionOwners (homes w h)) (nameOfID (functionsByID (homes w h)) (rq_function q)) \<noteq> [] \<and>
    (roleOf (conns w c) = RoleUser \<longrightarrow> userEnrolledLocked (homes w h) (userOf (conns w c)) \<or>
       nameOfID (functionsByID (homes w h)) (rq_function q) = ''miakapp.join'') \<and>
    call_target w (homes w h) c (ownerOf (functionOwners (homes w h))
       (nameOfID (functionsByID (homes w h)) (rq_function q))) (rq_targetKind q) d \<and>
    1 \<le> i \<and> i \<le> max_safe_integer \<and> get (calls (conns w d)) i = None \<and>
    clock w < received + wrap64 (rq_timeout q * millisecond) \<and>
    routes w' (nroutes w) = \<lparr>caller = c, callee = d, callerID = rq_id q, calleeID = i,
       credit = rq_credit q, accepted = True, terminal = False,
       deadline = received + wrap64 (rq_timeout q * millisecond), route_timer = True\<rparr> \<and>
    get (calls (conns w' c)) (rq_id q) = Some (nroutes w) \<and>
    get (calls (conns w' d)) i = Some (nroutes w) \<and>
    EncodeFrame P \<lparr>Opcode = OpcodeCallAccepted, Payload = [VInt (rq_id q)]\<rparr> = Some b \<and>
    last (queue (conns w' c)) =
      plainMessage \<lparr>Opcode = OpcodeCallAccepted, Payload = [VInt (rq_id q)]\<rparr> b"
proof -
  obtain q d where q: "decodeCall f = Some q" "coordinatorGate w h c = None"
    "rq_id q \<notin> set (keys (calls (conns w c)))"
    "int (length (calls (conns w c))) < MaxInflightCalls P"
    "nameOfID (functionsByID (homes w h)) (rq_function q) \<noteq> []"
    "ownerOf (functionOwners (homes w h)) (nameOfID (functionsByID (homes w h)) (rq_function q)) \<noteq> []"
    "roleOf (conns w c) = RoleUser \<longrightarrow> userEnrolledLocked (homes w h) (userOf (conns w c)) \<or>
       nameOfID (functionsByID (homes w h)) (rq_function q) = ''miakapp.join''"
    and t: "resolveCallTargetLocked w (homes w h) c
       (ownerOf (functionOwners (homes w h)) (nameOfID (functionsByID (homes w h)) (rq_function q)))
       (rq_targetKind q) (rq_target q) = Some (Inr d)"
    and d: "dispatchCall P c d q (received + wrap64 (rq_timeout q * millisecond)) w = (Handled, w')"
    using assms by (rule startCall_Handled)
  have n: "get (calls (conns w c)) (rq_id q) = None" using q(3) by (simp only: get_None_keys not_False_eq_True)
  from dispatchCall_accepts [OF d] resolve_target [OF t] q(1,2,4-) n show ?thesis by blast
qed

theorem call_accepted_witness:
  "get (calls (conns (snd (startCall sampleCodec 0 0 1 callFrame sampleWorld)) 1)) 9 = Some 0"
proof -
  have "startCall sampleCodec 0 0 1 callFrame sampleWorld =
      (Handled, snd (startCall sampleCodec 0 0 1 callFrame sampleWorld))"
    by (rule fst_eqD) code_simp
  moreover have "map_option rq_id (decodeCall callFrame) = Some 9" by code_simp
  moreover have "nroutes sampleWorld = 0" by (simp add: sample_defs)
  ultimately show ?thesis using call_accepted by fastforce
qed

text \<open>C19. The final result. A final result that is handled ends its route, goes to the caller as the
  last thing in its queue, and no later frame of the callee finds the route again.\<close>
theorem final_result_once:
  assumes "forwardCallResult P h c f w = (Handled, w')" "payload_at (Payload f) 1 = Some (VBool True)"
    and "firstInteger f = Some i" "calleeRoute w c i = Inr r"
  shows "terminal (routes w' r) \<and> (\<forall>q. calleeRoute w' c i \<noteq> Inr q) \<and>
    (\<exists>v b. payload_at (Payload f) 2 = Some v \<and>
      EncodeFrame P \<lparr>Opcode = OpcodeCallResult,
        Payload = [VInt (callerID (routes w r)), VBool True, v]\<rparr> = Some b \<and>
      last (queue (conns w' (caller (routes w r)))) = plainMessage \<lparr>Opcode = OpcodeCallResult,
        Payload = [VInt (callerID (routes w r)), VBool True, v]\<rparr> b)"
  using forwardResult_final [OF assms] by blast

theorem final_result_once_witness:
  "terminal (routes (snd (forwardCallResult sampleCodec 0 0 (resultFrame True) calledWorld)) 0)"
proof -
  have "forwardCallResult sampleCodec 0 0 (resultFrame True) calledWorld =
      (Handled, snd (forwardCallResult sampleCodec 0 0 (resultFrame True) calledWorld))"
    by (rule fst_eqD) code_simp
  moreover have "payload_at (Payload (resultFrame True)) 1 = Some (VBool True)" by code_simp
  moreover have "firstInteger (resultFrame True) = Some 3" by code_simp
  moreover have "calleeRoute calledWorld 0 3 = Inr 0" by code_simp
  ultimately show ?thesis using final_result_once by blast
qed

text \<open>C20. Credit is bounded. A grant of credit that is handled adds up, in the width of the machine,
  to at most the limit of the protocol.\<close>
theorem credit_within_limit:
  assumes "creditCall P h c f w = (Handled, w')" "firstInteger f = Some i"
    and "Option.bind (payload_at (Payload f) 1) integer = Some n"
  shows "\<exists>r. callerRoute w c i = Some r \<and> credit (routes w' r) = wrap64 (credit (routes w r) + n) \<and>
    credit (routes w' r) \<le> MaxStreamCredit P"
  using assms by (rule credit_bounded)

theorem credit_within_limit_witness:
  "credit (routes (snd (creditCall sampleCodec 0 1 creditFrame calledWorld)) 0) = 7"
proof -
  have "creditCall sampleCodec 0 1 creditFrame calledWorld =
      (Handled, snd (creditCall sampleCodec 0 1 creditFrame calledWorld))"
    by (rule fst_eqD) code_simp
  moreover have "firstInteger creditFrame = Some 9" by code_simp
  moreover have "Option.bind (payload_at (Payload creditFrame) 1) integer = Some 5" by code_simp
  moreover have "callerRoute calledWorld 1 9 = Some 0" by code_simp
  moreover have "credit (routes calledWorld 0) = 2" by (simp add: calledWorld_def sampleRoute_def)
  ultimately show ?thesis
    using credit_within_limit [of sampleCodec 0 1 creditFrame calledWorld _ 9 5]
    by (simp add: wrap64_id)
qed

text \<open>C21. Cancellation. A cancellation that is handled ends a live route of the caller, and the
  caller learns, as the last thing in its queue, that the outcome is unknown.\<close>
theorem cancellation_answers:
  assumes "cancelCall P h c f w = (Handled, w')" "call_table P w" "firstInteger f = Some i"
  shows "\<exists>r b. callerRoute w c i = Some r \<and> terminal (routes w' r) \<and> callerRoute w' c i = None \<and>
    EncodeFrame P (callFailure i codeOutcomeUnknown ''call cancellation outcome is unknown'') = Some b \<and>
    last (queue (conns w' c)) =
      plainMessage (callFailure i codeOutcomeUnknown ''call cancellation outcome is unknown'') b"
  using assms by (rule cancel_answers)

theorem cancellation_answers_witness:
  "callerRoute (snd (cancelCall sampleCodec 0 1 cancelFrame calledWorld)) 1 9 = None"
proof -
  have "cancelCall sampleCodec 0 1 cancelFrame calledWorld =
      (Handled, snd (cancelCall sampleCodec 0 1 cancelFrame calledWorld))"
    by (rule fst_eqD) code_simp
  moreover have "firstInteger cancelFrame = Some 9" by code_simp
  ultimately show ?thesis using cancellation_answers [OF _ called_table] by blast
qed

text \<open>C22. Disconnection. When a connection goes, every call it takes part in is over and its own map
  of calls is empty.\<close>
theorem disconnection_ends_calls:
  assumes "call_table P w" "terminateCallsForConnectionLocked c w = (acts, w')"
  shows "calls (conns w' c) = [] \<and> (\<forall>i r. get (calls (conns w c)) i = Some r \<longrightarrow> terminal (routes w' r))"
  using terminate_clears [OF call_table_ok [OF assms(1)] assms(2)]
    terminated_routes [OF call_table_ok [OF assms(1)] _ assms(2)] by blast

theorem disconnection_ends_calls_witness:
  "calls (conns (snd (terminateCallsForConnectionLocked 0 calledWorld)) 0) = [] \<and>
   terminal (routes (snd (terminateCallsForConnectionLocked 0 calledWorld)) 0)"
proof -
  have "get (calls (conns calledWorld 0)) 3 = Some 0" by (simp add: calledWorld_def)
  then show ?thesis using disconnection_ends_calls [OF called_table surjective_pairing] by blast
qed

text \<open>C23. Identifiers of the callee. The search for a free identifier ends, within one round more
  than there are calls in flight, with an identifier in the protocol's range that is not in use.\<close>
theorem callee_identifier_found:
  assumes "int (length (calls (conns w d))) < max_safe_integer"
  shows "\<exists>i. allocateCalleeCallIDLocked d w = (Some i, updConn d (\<lambda>C. C\<lparr>nextCallID := i\<rparr>) w) \<and>
    get (calls (conns w d)) i = None \<and> 1 \<le> i \<and> i \<le> max_safe_integer"
proof -
  have "allocateLoop (Suc (length (keys (calls (conns w d))))) (keys (calls (conns w d)))
      (nextCallID (conns w d)) \<noteq> None"
    using allocate_total [of "keys (calls (conns w d))"] assms by simp
  then obtain i w' where a: "allocateCalleeCallIDLocked d w = (Some i, w')"
    by (auto simp: allocateCalleeCallIDLocked_def Let_def simp del: allocateLoop.simps)
  with allocate_spec [OF a] show ?thesis by simp
qed

theorem callee_identifier_found_witness:
  "\<exists>i. fst (allocateCalleeCallIDLocked 0 calledWorld) = Some i \<and> i \<noteq> 3"
  using callee_identifier_found [of calledWorld 0]
  by (fastforce simp: calledWorld_def)

section \<open>Sessions\<close>

text \<open>C24. Authentication. A connection that is authenticated carries the identity the verifier
  returned, bound to what it asked for; a coordinator speaks for its own home.\<close>
theorem authentication_sound:
  assumes "completeAuthentication P random q verdict c w = (None, w')"
  shows "\<exists>i. verdict = Inr i \<and> bound_identity q i (clock w) \<and> conn_identity (conns w' c) = i \<and>
    (Role i = RoleCoordinator \<longrightarrow> ID i = HomeID i)"
proof -
  obtain i where i: "verdict = Inr i" "ValidateBinding q i (clock w) = None"
    "req_Role q = RoleCoordinator \<longrightarrow> ID i = HomeID i" "conn_identity (conns w' c) = i"
    using assms by (rule authentication_Inr)
  then show ?thesis by (auto simp: ValidateBinding_None bound_identity_def)
qed

theorem authentication_sound_witness:
  "\<exists>i. Inr (sampleIdentity 1 ''u'' []) = (Inr i :: authError + identity) \<and>
     bound_identity sampleRequest i (clock relayOpened) \<and>
     conn_identity (conns (snd (completeAuthentication sampleCodec (Some [7]) sampleRequest
       (Inr (sampleIdentity 1 ''u'' [])) 0 relayOpened)) 0) = i \<and>
     (Role i = RoleCoordinator \<longrightarrow> ID i = HomeID i)"
proof (rule authentication_sound)
  show "completeAuthentication sampleCodec (Some [7]) sampleRequest
      (Inr (sampleIdentity 1 ''u'' [])) 0 relayOpened =
    (None, snd (completeAuthentication sampleCodec (Some [7]) sampleRequest
       (Inr (sampleIdentity 1 ''u'' [])) 0 relayOpened))"
    by (rule fst_eqD) code_simp
qed

text \<open>C25. The binding of an identity. \<open>ValidateBinding\<close> accepts exactly the identities with the
  role, home and coordinator name of the request, the one scope of the role, well-formed values and
  an expiry in the future that the protocol can represent.\<close>
theorem binding_characterised: "ValidateBinding q i now = None \<longleftrightarrow> bound_identity q i now"
  by (rule ValidateBinding_None)

text \<open>C26. Users and command-line sessions cannot declare or mutate: such a frame is refused before
  any handler runs.\<close>
theorem writes_need_coordinator:
  assumes "call_opcodes P" "roleOf (conns w c) \<noteq> RoleCoordinator"
    and "Opcode f \<in> {OpcodeStateSync, OpcodeStateSet, OpcodeStateACLSync, OpcodeEventSync,
      OpcodeEventACLSync, OpcodeFunctionSync}"
  shows "\<exists>e. handle P verify received c f w = (Failed e, w)"
  using assms by (rule only_coordinators_write)

theorem writes_need_coordinator_witness:
  "\<exists>e. handle numberedCodec (\<lambda>_. Inl OtherFailure) 0 1 sampleSet sampleWorld = (Failed e, sampleWorld)"
  by (rule writes_need_coordinator [OF numbered_calls])
    (simp_all add: sample_defs sampleSet_def)

text \<open>C27. Reauthentication. A token that is accepted on a live session names the same principal, and
  the lease in force afterwards ends when that token does.\<close>
theorem reauthentication_sound:
  assumes "completeReauth P requestID q previous verdict c w = (Handled, w')"
  shows "\<exists>i. verdict = Inr i \<and> bound_identity q i (clock w) \<and>
    ID i = ID (conn_identity (conns w c)) \<and> ClientID i = ClientID (conn_identity (conns w c)) \<and>
    VerifiedEmail i = VerifiedEmail (conn_identity (conns w c)) \<and>
    conn_identity (conns w' c) = conn_identity (conns w c) \<and>
    \<not> authLeaseExpired w c \<and> leaseDeadline (conns w' c) = Some (ExpiresAt i)"
proof -
  obtain i w1 where i: "verdict = Inr i" "ValidateBinding q i (clock w) = None"
    "ID i = ID (conn_identity (conns w c))" "ClientID i = ClientID (conn_identity (conns w c))"
    "VerifiedEmail i = VerifiedEmail (conn_identity (conns w c))"
    and l: "replaceLease previous (ExpiresAt i) c w = (True, w1)" and q: "only_queues w1 w'"
    using assms by (rule reauth_Handled)
  have "conn_identity (conns w1 c) = conn_identity (conns w c)"
    using l by (auto simp: replaceLease_def installLeaseLocked_def Let_def split: if_splits)
  with i replaceLease_live [OF l] only_queues_conn [OF q, of c] show ?thesis
    by (auto simp: ValidateBinding_None)
qed

theorem reauthentication_sound_witness:
  "leaseDeadline (conns (snd (completeReauth sampleCodec 5
      (reauthRequest (conns sampleWorld 1) ''token'') (Some 1000)
      (Inr (sampleIdentity 1 ''u'' [])) 1 (leased sampleWorld))) 1) = Some 1000000000000"
proof -
  have "completeReauth sampleCodec 5 (reauthRequest (conns sampleWorld 1) ''token'') (Some 1000)
      (Inr (sampleIdentity 1 ''u'' [])) 1 (leased sampleWorld) =
    (Handled, snd (completeReauth sampleCodec 5 (reauthRequest (conns sampleWorld 1) ''token'')
      (Some 1000) (Inr (sampleIdentity 1 ''u'' [])) 1 (leased sampleWorld)))"
    by (rule fst_eqD) code_simp
  from reauthentication_sound [OF this] show ?thesis by (auto simp: sampleIdentity_def)
qed

text \<open>C28. A lease timer that fires after its lease was replaced does nothing, and a lease that ran out
  is never replaced.\<close>
theorem lease_timer_stale:
  assumes "replaceLease previous expiresAt c w = (True, w')" "g \<le> leaseGeneration (conns w c)"
  shows "expireLease P g c w' = w' \<and> \<not> leaseExpired (conns w c)"
  using stale_timer [OF assms] expired_final [of w c previous expiresAt] assms(1) by auto

theorem lease_timer_stale_witness:
  "expireLease sampleCodec 0 1 (snd (replaceLease (Some 1000) 2000 1 (leased sampleWorld))) =
     snd (replaceLease (Some 1000) 2000 1 (leased sampleWorld))"
proof -
  have "replaceLease (Some 1000) 2000 1 (leased sampleWorld) =
      (True, snd (replaceLease (Some 1000) 2000 1 (leased sampleWorld)))"
    by (rule fst_eqD) code_simp
  from lease_timer_stale [OF this, of 0 sampleCodec] show ?thesis by simp
qed

text \<open>C29. One answer per request. A request that is new is recorded as in flight by its frame, whatever
  its handler does, and it stays in flight over every step of the relay but one: the writer of its
  connection writing the message that carries its answer, which ends it. As long as it is in flight, a
  frame that repeats its identifier is answered with an error and handled no further.\<close>
theorem duplicate_request_refused:
  assumes "opcodeByte P (Opcode f) < 128" "requestIdentifier f" "firstInteger f = Some r"
  shows "(r \<notin> set (requestIDs (conns w c)) \<longrightarrow>
      r \<in> set (requestIDs (conns (snd (frameStep P verify received c f w)) c))) \<and>
    (r \<in> set (requestIDs (conns w c)) \<longrightarrow>
      frameStep P verify received c f w =
        enqueue P (errorFrame r (opcodeByte P (Opcode f)) (applicationError codeDuplicateRequest False
          ''request identifier is already in flight'' closeConflict)) True c w \<and>
      (relay_step P N w w' \<longrightarrow> r \<in> set (requestIDs (conns w' c)) \<or>
        (\<exists>m ms. queue (conns w c) = m # ms \<and> afterWrite m = Some r \<and> w' = writeStep True c w))) \<and>
    (\<forall>m ms. queue (conns w c) = m # ms \<longrightarrow> afterWrite m = Some r \<longrightarrow> closeStatus m = 0 \<longrightarrow>
      r \<notin> set (requestIDs (conns (writeStep True c w) c)))"
proof (intro conjI impI allI)
  show "r \<in> set (requestIDs (conns (snd (frameStep P verify received c f w)) c))"
    if "r \<notin> set (requestIDs (conns w c))"
    using frame_records_request [OF assms that] .
  show "frameStep P verify received c f w =
      enqueue P (errorFrame r (opcodeByte P (Opcode f)) (applicationError codeDuplicateRequest False
        ''request identifier is already in flight'' closeConflict)) True c w"
    if "r \<in> set (requestIDs (conns w c))"
    using duplicate_frame [OF assms that] .
  show "r \<in> set (requestIDs (conns w' c)) \<or>
      (\<exists>m ms. queue (conns w c) = m # ms \<and> afterWrite m = Some r \<and> w' = writeStep True c w)"
    if "r \<in> set (requestIDs (conns w c))" "relay_step P N w w'"
    using step_keeps_request [OF that(2,1)] .
  show "r \<notin> set (requestIDs (conns (writeStep True c w) c))"
    if "queue (conns w c) = m # ms" "afterWrite m = Some r" "closeStatus m = 0" for m ms
    using write_ends_request [OF that] by simp
qed

theorem duplicate_request_refused_witness:
  "5 \<in> set (requestIDs (conns (snd (frameStep sampleCodec (\<lambda>_. Inl OtherFailure) 0 0 sampleSet sampleWorld)) 0)) \<and>
   frameStep sampleCodec (\<lambda>_. Inl OtherFailure) 0 0 sampleSet (inFlight sampleWorld) =
     enqueue sampleCodec (errorFrame 5 1 (applicationError codeDuplicateRequest False
        ''request identifier is already in flight'' closeConflict)) True 0 (inFlight sampleWorld)"
proof -
  have f: "opcodeByte sampleCodec (Opcode sampleSet) < 128" "requestIdentifier sampleSet"
    "firstInteger sampleSet = Some 5"
    by (simp_all add: sampleSet_def requestIdentifier_def requestOpcodes_def firstInteger_def)
  have i: "5 \<notin> set (requestIDs (conns sampleWorld 0))" "5 \<in> set (requestIDs (conns (inFlight sampleWorld) 0))"
    by (simp_all add: sample_defs inFlight_def)
  note D = duplicate_request_refused [OF f, where c = 0 and received = 0 and verify = "\<lambda>_. Inl OtherFailure"]
  have "5 \<in> set (requestIDs (conns (snd (frameStep sampleCodec (\<lambda>_. Inl OtherFailure) 0 0 sampleSet sampleWorld)) 0))"
    using D [where w = sampleWorld, THEN conjunct1] i(1) by (rule mp)
  moreover have "frameStep sampleCodec (\<lambda>_. Inl OtherFailure) 0 0 sampleSet (inFlight sampleWorld) =
     enqueue sampleCodec (errorFrame 5 1 (applicationError codeDuplicateRequest False
        ''request identifier is already in flight'' closeConflict)) True 0 (inFlight sampleWorld)"
    using D [where w = "inFlight sampleWorld", THEN conjunct2, THEN conjunct1, THEN mp, OF i(2), THEN conjunct1]
    unfolding sample_codec(2) .
  ultimately show ?thesis ..
qed

section \<open>Coordinators and connections\<close>

text \<open>C30. A replaced coordinator is fenced. Once a connection is attached as a coordinator, every other
  connection under that name is answered that its generation was replaced.\<close>
theorem replaced_coordinator_fenced:
  assumes "attachCoordinator h c w = (Inr reg, w')" "d \<noteq> c"
    and "nameOf (conns w d) = nameOf (conns w c)"
  shows "activeCoordinatorLocked w' h d b = Some generationReplaced"
  using assms by (rule attach_replaces)

theorem replaced_coordinator_fenced_witness:
  "activeCoordinatorLocked (snd (attachCoordinator 0 2 secondCoordinator)) 0 0 False =
     Some generationReplaced"
proof -
  have n: "\<not> isl (fst (attachCoordinator 0 2 secondCoordinator))" by code_simp
  obtain reg where "attachCoordinator 0 2 secondCoordinator =
      (Inr reg, snd (attachCoordinator 0 2 secondCoordinator))"
    using Inr_pair [OF n] by blast
  moreover have "nameOf (conns secondCoordinator 0) = nameOf (conns secondCoordinator 2)" by code_simp
  moreover have "(0::nat) \<noteq> 2" by simp
  ultimately show ?thesis by (metis replaced_coordinator_fenced)
qed

text \<open>C31. Failing a connection. In every reachable state, a failure with a close code of a connection
  that is neither failed nor closed ends it with its FATAL frame: the frame is the last of its queue
  whenever the process has room for it beside what the other connections have queued, and only without
  that room the connection is closed at once. Every later frame is refused without any effect.\<close>
theorem failure_silences:
  assumes "codec_bounded P" "Validate P url_parse configuration = None"
    and "reachable_from P N (newRelay configuration seed) w"
    and "\<not> fatalOnce (conns w c)" "\<not> closeOnce (conns w c)" "\<not> queueClosed (conns w c)"
    and "closeCode e \<noteq> 0" "EncodeFrame P (fatalFrame op e) = Some b" "EncodeFrame P f \<noteq> None"
  shows "(if adm_queuedBytes (admission w) - queuedBytes (conns w c) + int (length b)
        \<le> MaxAggregateQueuedBytes (cfg w)
      then \<not> queueClosed (conns (fail P op e c w) c) \<and> queue (conns (fail P op e c w) c) \<noteq> [] \<and>
        last (queue (conns (fail P op e c w) c)) = fatalMessage b e
      else queueClosed (conns (fail P op e c w) c) \<and> queue (conns (fail P op e c w) c) = [] \<and>
        socketClosed (conns (fail P op e c w) c) = Some (closeInternal, ''aggregate_queue_exhausted'')) \<and>
    enqueue P f priority c (fail P op e c w) = (False, fail P op e c w)"
proof -
  have "queues_ok P w"
    using assms(3) new_relay_ok [OF assms(1) Validate_ok [OF assms(2)]]
    by (rule queue_system.I_reachable)
  from fail_exact [OF this assms(4-6,8)] show ?thesis
    using silenced_enqueue [OF fail_ends assms(9)] assms(4-7) by (simp add: others_bytes_def)
qed

theorem failure_silences_witness:
  "last (queue (conns (fail sampleCodec 0 tokenExpired 0 freshRelay) 0)) = fatalMessage [0] tokenExpired \<and>
   enqueue sampleCodec sampleSet True 0 (fail sampleCodec 0 tokenExpired 0 freshRelay) =
     (False, fail sampleCodec 0 tokenExpired 0 freshRelay)"
proof -
  have c: "\<not> fatalOnce (conns freshRelay 0)" "\<not> closeOnce (conns freshRelay 0)"
    "\<not> queueClosed (conns freshRelay 0)" by code_simp+
  have e: "closeCode tokenExpired \<noteq> 0" "EncodeFrame sampleCodec sampleSet \<noteq> None"
    by (simp_all add: tokenExpired_def fatalError_def applicationError_def closeAuth_def)
  have "adm_queuedBytes (admission freshRelay) - queuedBytes (conns freshRelay 0) + int (length [0 :: byte])
      \<le> MaxAggregateQueuedBytes (cfg freshRelay)" by code_simp
  then show ?thesis
    using failure_silences [OF sample_bounded sample_validated sample_reachable c e(1) sample_codec(1) e(2),
        where op = 0 and priority = True] by (simp only: if_True)
qed

text \<open>C32. Order of the queue. A frame that is accepted is the last of the queue; without priority
  everything before it stays, with priority only droppable messages may go, the oldest first, and
  nothing else is reordered.\<close>
theorem queue_order:
  assumes "enqueue P f priority c w = (True, w')"
  shows "\<exists>b k. EncodeFrame P f = Some b \<and>
    queue (conns w' c) = filter (\<lambda>m. \<not> droppableStream m) (take k (queue (conns w c))) @
      drop k (queue (conns w c)) @ [plainMessage f b] \<and>
    (\<not> priority \<longrightarrow> queue (conns w' c) = queue (conns w c) @ [plainMessage f b]) \<and>
    (\<forall>d. d \<noteq> c \<longrightarrow> conns w' d = conns w d)"
proof -
  have "conns w' d = conns w d" if "d \<noteq> c" for d
    using enqueue_other [OF that, of P f priority w] assms by simp
  moreover obtain b k where "EncodeFrame P f = Some b"
    "queue (conns w' c) = filter (\<lambda>m. \<not> droppableStream m) (take k (queue (conns w c))) @
       drop k (queue (conns w c)) @ [plainMessage f b]"
    "\<not> priority \<longrightarrow> queue (conns w' c) = queue (conns w c) @ [plainMessage f b]"
    using enqueue_ok [OF assms] unfolding appended_def by (metis append.assoc)
  ultimately show ?thesis by blast
qed

theorem queue_order_witness:
  "\<exists>b. queue (conns (snd (enqueue sampleCodec sampleSet False 0 sampleWorld)) 0) = [plainMessage sampleSet b]"
proof -
  have "enqueue sampleCodec sampleSet False 0 sampleWorld =
      (True, snd (enqueue sampleCodec sampleSet False 0 sampleWorld))"
    by (rule fst_eqD) code_simp
  from queue_order [OF this] show ?thesis by (auto simp: sample_defs)
qed

section \<open>The process\<close>

text \<open>C33. The door. A WebSocket request is let through only from a source it can name, as a GET of
  the relay's subprotocol, with no Origin header or with one that is configured; it touches no
  session. A refused one leaves the number of admitted connections as it was.\<close>
theorem websocket_door:
  assumes "serveWebSocket N q w = (res, w')"
  shows "conns w' = conns w \<and>
    (\<forall>source. res = Inr source \<longrightarrow> http_method q = ''GET'' \<and>
       hasSubprotocol (Protocols q) ''miakapp'' \<and>
       (Origins q = [] \<or> (\<exists>origin \<in> set (AllowedOrigins (cfg w)). Origins q = [origin])) \<and>
       canonicalRemoteIP N (RemoteAddr q) = Inr source) \<and>
    (\<forall>reply. res = Inl reply \<longrightarrow> admitted w \<longrightarrow>
       activeConnections (admission w') = activeConnections (admission w))"
proof (cases res)
  case (Inl reply)
  with assms have r: "serveWebSocket N q w = (Inl reply, w')" by simp
  have "conns w' = conns w"
    using r by (auto simp: serveWebSocket_def Let_def split: sum.splits prod.splits if_splits)
  then show ?thesis using serve_refused(1) [OF r] Inl by simp
next
  case (Inr source)
  with assms have "serveWebSocket N q w = (Inr source, w')" by simp
  from serve_admitted [OF this] Inr show ?thesis by simp
qed

theorem websocket_door_witness:
  "activeConnections (admission (snd (serveWebSocket sampleNet upgradePost (newRelay Default 0)))) = 0"
proof -
  let ?r = "serveWebSocket sampleNet upgradePost (newRelay Default 0)"
  have "isl (fst ?r)" by code_simp
  then obtain reply where "?r = (Inl reply, snd ?r)" by (metis Inl_pair)
  moreover have "admitted (newRelay Default 0)"
    by (rule new_relay_admitted [OF sample_bounded sample_config])
  moreover have "activeConnections (admission (newRelay Default 0)) = 0"
    by (simp add: newRelay_def newAdmissionController_def)
  ultimately show ?thesis using websocket_door [of sampleNet upgradePost "newRelay Default 0"] by fastforce
qed

text \<open>C34. The rate limit. Whatever happens within the window of a source, connections of that
  source are granted at most as often as its remaining attempts allow.\<close>
theorem connection_rate_bounded:
  assumes "admission_ok configuration A" "get (sources A) s = Some cur"
    and "\<forall>e \<in> set es. inWindow (windowStartedAt cur) e"
  shows "int (granted configuration N s es A) \<le> ConnectionAttemptsPerMinute configuration - attempts cur"
  using assms by (rule granted_bound)

theorem connection_rate_bounded_witness:
  "int (granted Default sampleNet (IPv4 1) (replicate 300 (Acquire 5 ''x'')) onceAdmitted) \<le> 119"
proof -
  have "admission_ok Default onceAdmitted"
    by (simp add: admission_ok_def admission_inv_def source_ok_def onceAdmitted_def onceSource_def newAdmissionController_def Default_def
        config_limits)
  moreover have "get (sources onceAdmitted) (IPv4 1) = Some onceSource" by (simp add: onceAdmitted_def)
  moreover have "\<forall>e \<in> set (replicate 300 (Acquire 5 ''x'')). inWindow (windowStartedAt onceSource) e"
    by (simp add: onceSource_def inWindow_def connectionAttemptWindow_def second_def)
  ultimately have "int (granted Default sampleNet (IPv4 1) (replicate 300 (Acquire 5 ''x'')) onceAdmitted) \<le>
      ConnectionAttemptsPerMinute Default - attempts onceSource"
    by (rule connection_rate_bounded)
  then show ?thesis by (simp add: onceSource_def Default_def)
qed

text \<open>C40. Draining is announced once, and spent before login. \<open>Drain\<close> takes from a live connection that
  has not authenticated its one announcement, and does nothing else to it: it is not told. In every
  state the relay reaches from there the announcement stays spent: \<open>startDraining\<close> does nothing for the
  connection, and when it authenticates it does not begin to drain.\<close>
theorem drain_spent_before_login:
  assumes "\<not> closed w" "\<not> draining w" "c \<in> set (live w)" "phase (conns w c) \<noteq> phaseActive"
  shows "conns (Drain P a b w) c = (conns w c)\<lparr>drainOnce := True\<rparr> \<and>
    (\<forall>v. reachable_from P N (Drain P a b w) v \<longrightarrow> drainOnce (conns v c) \<and>
      startDraining P a' b' c v = v \<and>
      (\<forall>v'. completeAuthentication P random q verdict c v = (None, v') \<longrightarrow>
         phase (conns v' c) \<noteq> phaseDraining))"
proof -
  note D = Drain_waiting [OF assms, of P a b]
  then have "drainOnce (conns (Drain P a b w) c)" by simp
  then have "drainOnce (conns v c)" if "reachable_from P N (Drain P a b w) v" for v
    using that by (intro drain_system.I_reachable [OF that])
  with D show ?thesis using drain_once.act_fired login_after_drain by blast
qed

theorem drain_spent_before_login_witness:
  "queue (conns (Drain sampleCodec 5 1 freshRelay) 0) = [] \<and>
   startDraining sampleCodec 6 2 0 (Drain sampleCodec 5 1 freshRelay) = Drain sampleCodec 5 1 freshRelay \<and>
   phase (conns (snd (helloStep sampleCodec coordinatorVerdict (Some [7]) 0 (Decoded helloCoordinator)
     (Drain sampleCodec 5 1 freshRelay))) 0) = phaseActive"
proof (intro conjI)
  have "\<not> closed freshRelay" "\<not> draining freshRelay" "0 \<in> set (live freshRelay)"
    "phase (conns freshRelay 0) \<noteq> phaseActive" by code_simp+
  note D = drain_spent_before_login [OF this, of sampleCodec 5 1]
  have "queue (conns freshRelay 0) = []" by code_simp
  then show "queue (conns (Drain sampleCodec 5 1 freshRelay) 0) = []" using D by simp
  show "startDraining sampleCodec 6 2 0 (Drain sampleCodec 5 1 freshRelay) = Drain sampleCodec 5 1 freshRelay"
    using D reachable_from.start by blast
  show "phase (conns (snd (helloStep sampleCodec coordinatorVerdict (Some [7]) 0 (Decoded helloCoordinator)
     (Drain sampleCodec 5 1 freshRelay))) 0) = phaseActive" by code_simp
qed

text \<open>C39. A loaded configuration. Whatever the environment says, a configuration that is loaded has
  positive durations, limits in the relations the relay relies on, and only canonical origins.\<close>
theorem loaded_configuration:
  assumes "Load P url_parse parse_duration env = Inr configuration"
  shows "config_ok P configuration \<and> (\<forall>d \<in> set (configDurations configuration). 0 < snd d) \<and>
    (\<forall>origin \<in> set (AllowedOrigins configuration). canonical_origin url_parse origin)"
  using Validate_ok Validate_durations Load_Validate [OF assms] Load_origins [OF assms] by blast

theorem loaded_configuration_witness:
  "Load sampleCodec (\<lambda>_. None) (\<lambda>_. None) (\<lambda>_. None) = Inr Default \<and> config_ok sampleCodec Default"
proof -
  have "Load sampleCodec (\<lambda>_. None) (\<lambda>_. None) (\<lambda>_. None) = Inr Default"
    by (rule Load_defaults) (simp_all add: defaultMaxQueuedBytes_def)
  then show ?thesis using loaded_configuration by blast
qed

section \<open>Platform authentication\<close>

text \<open>C12. From token to session. When the relay authenticates a session with the platform verifier, and
  the verifier asks the key cache in whatever states it has reached, the identity of the session is
  that of an access token that the contract verified, for the role the client asked for, under a
  set of checked keys; and it is bound to the request.\<close>
theorem platform_session:
  assumes "cache_reachable json_parse mime_parse s" "cacheTasks s i = Returned current"
    and "cache_reachable json_parse mime_parse s'" "cacheTasks s' j = Returned refreshed"
    and "completeAuthentication P random q
      (PlatformVerify verify con t1 t2 current refreshed q) c w = (None, w')"
  shows "\<exists>ks verified t profile. key_set ks \<and> verify t con (Token q) profile ks = Inr verified \<and>
    (req_Role q, profile) \<in> {(RoleCoordinator, ''coordinator''), (RoleCLI, ''cli''), (RoleUser, ''user'')} \<and>
    grants verified profile (conn_identity (conns w' c)) \<and>
    bound_identity q (conn_identity (conns w' c)) (clock w)"
proof -
  obtain x where x: "PlatformVerify verify con t1 t2 current refreshed q = Inr x"
    "ValidateBinding q x (clock w) = None" "conn_identity (conns w' c) = x"
    using assms(5) by (rule authentication_Inr)
  have "served_checked s" "served_checked s'"
    using checked.I_reachable assms(1,3) by (auto simp: tags_sent_def)
  then have k: "key_set ks" if "current = Inr ks \<or> refreshed = Inr ks" for ks
    using that assms(2,4) by (auto simp: served_checked_def)
  from x(1) show ?thesis
  proof (rule verified_access)
    fix ks verified t profile
    assume "current = Inr ks \<or> refreshed = Inr ks" "verify t con (Token q) profile ks = Inr verified"
      "(req_Role q, profile) \<in> {(RoleCoordinator, ''coordinator''), (RoleCLI, ''cli''), (RoleUser, ''user'')}"
      "grants verified profile x"
    then show ?thesis using k x(2,3) ValidateBinding_None by blast
  qed
qed

theorem platform_session_witness:
  "\<exists>verified. grants verified ''user''
     (conn_identity (conns (snd (completeAuthentication sampleCodec (Some [7]) sampleRequest
       (Inr (sampleIdentity 1 ''u'' [])) 0 relayOpened)) 0))"
proof -
  let ?w = "snd (completeAuthentication sampleCodec (Some [7]) sampleRequest
       (Inr (sampleIdentity 1 ''u'' [])) 0 relayOpened)"
  have "completeAuthentication sampleCodec (Some [7]) sampleRequest
      (Inr (sampleIdentity 1 ''u'' [])) 0 relayOpened = (None, ?w)"
    by (rule fst_eqD) code_simp
  from platform_session [OF served_reachable served_keys served_reachable served_keys
      this [folded sample_verdict]]
  obtain verified profile where "(req_Role sampleRequest, profile) \<in>
      {(RoleCoordinator, ''coordinator''), (RoleCLI, ''cli''), (RoleUser, ''user'')}"
    "grants verified profile (conn_identity (conns ?w 0))"
    unfolding sample_verdict by blast
  then show ?thesis
    by (auto simp: sampleRequest_def RoleCoordinator_def RoleCLI_def RoleUser_def)
qed

text \<open>C13. One fetch at a time. In every state the callers of the key cache reach, the cache is
  refreshing exactly while one of them fetches, no second one does, and one that waits either waits
  for that fetch or can go on.\<close>
theorem cache_single_flight:
  assumes "cache_reachable json_parse mime_parse s"
  shows "(refreshing (keyStore s) \<longleftrightarrow> (\<exists>i. is_fetching (cacheTasks s i))) \<and>
    (is_fetching (cacheTasks s i) \<and> is_fetching (cacheTasks s j) \<longrightarrow> i = j) \<and>
    (cacheTasks s k = Waiting ch \<longrightarrow> (\<exists>j. is_fetching (cacheTasks s j)) \<or>
       cache_step json_parse mime_parse s (setTask k (Entering False) s))"
proof -
  have f: "single_flight s" using assms by (rule flight.I_reachable)
  then show ?thesis using no_lost_wakeup [OF f, of k ch] by (auto simp: single_flight_def)
qed

theorem cache_single_flight_witness: "\<exists>i. is_fetching (cacheTasks waitingSystem i)"
  using cache_single_flight [OF waiting_reachable] waiting_flight by blast

text \<open>C14. Only checked keys. Whatever the endpoint answers, a caller of the cache that gets keys gets a
  set that is not empty, not too long, without a repeated identifier, and each of them of the pinned
  profile.\<close>
theorem served_keys_checked:
  assumes "cache_reachable json_parse mime_parse s" "cacheTasks s i = Returned (Inr ks)"
  shows "ks \<noteq> [] \<and> length ks \<le> maximumPublicKeys \<and> distinct (map KID ks) \<and>
    (\<forall>k \<in> set ks. key_profile k)"
proof -
  have "tags_sent s" using assms(1) by (rule checked.I_reachable)
  then show ?thesis using assms(2) by (simp add: tags_sent_def served_checked_def key_set_def)
qed

theorem served_keys_checked_witness: "key_profile sampleKey"
  using served_keys_checked [OF served_reachable served_keys] by simp

text \<open>C35. Pauses between fetches. After a fetch that failed the cache starts no other for a second from
  its start; after one for an unknown key identifier it answers for ten seconds from the keys it
  has, as long as they are fresh. Nothing else changes the cache meanwhile.\<close>
theorem fetch_pauses:
  assumes "enterLoad force t K = (Fetch tag, K1)" "finishLoad force res t1 t2 K1 = (r, K2)"
    and "enterLoad f t' K2 = (d, K3)"
  shows "(lastFailure K2 \<noteq> None \<and> t' < t + failedFetchRetryDelay \<longrightarrow>
      K3 = K2 \<and> (\<forall>tag'. d \<noteq> Fetch tag')) \<and>
    (force \<and> keysFresh t' K2 \<and> t' < t + unknownKIDRefreshDelay \<longrightarrow>
      K3 = K2 \<and> d = Serve (cachedKeys K2))"
proof (rule conjI; rule impI)
  assume "lastFailure K2 \<noteq> None \<and> t' < t + failedFetchRetryDelay"
  then have n: "d \<noteq> Fetch tag'" for tag'
    using failure_pause [OF assms(1,2), of t' f tag' K3] assms(3) by auto
  then show "K3 = K2 \<and> (\<forall>tag'. d \<noteq> Fetch tag')" using not_fetch_same [OF assms(3)] by blast
next
  assume a: "force \<and> keysFresh t' K2 \<and> t' < t + unknownKIDRefreshDelay"
  then have "enterLoad f t' K2 = (Serve (cachedKeys K2), K2)"
    using unknown_pause [of t K tag K1 res t1 t2 r K2 t' f] assms(1,2) by simp
  then show "K3 = K2 \<and> d = Serve (cachedKeys K2)" using assms(3) by simp
qed

theorem fetch_pauses_witness:
  "fst (enterLoad True 500 (snd (finishLoad False (Inl RequestError) 5 5
     (snd (enterLoad False 0 newKeyCache))))) \<noteq> Fetch []"
proof -
  let ?K1 = "snd (enterLoad False 0 newKeyCache)"
  let ?K2 = "snd (finishLoad False (Inl RequestError) 5 5 ?K1)"
  have "enterLoad False 0 newKeyCache = (Fetch [], ?K1)" by (rule fst_eqD) code_simp
  moreover have "lastFailure ?K2 \<noteq> None" by code_simp
  moreover have "(500::int) < 0 + failedFetchRetryDelay"
    by (simp add: failedFetchRetryDelay_def second_def)
  ultimately show ?thesis
    using fetch_pauses [of False 0 newKeyCache "[]" ?K1 "Inl RequestError" 5 5
        "fst (finishLoad False (Inl RequestError) 5 5 ?K1)" ?K2 True 500
        "fst (enterLoad True 500 ?K2)" "snd (enterLoad True 500 ?K2)"]
    unfolding prod.collapse by blast
qed

text \<open>C36. The cache policy. A response of the key endpoint is usable exactly when the parts of its
  Cache-Control headers that are not empty say three directives, each once and in any order: max-age of
  sixty seconds, public and must-revalidate, both without a value. A part says a directive with the
  name before its equals sign, whatever the case and the space around it, and a value that is bare or in
  double quotes. It is usable for what its Age, if it has one, leaves of that minute.\<close>
theorem cache_policy:
  "responseCacheTTL vs ageText = Some t \<longleftrightarrow>
    (\<exists>ds v age. list_all2 directive_says
         (filter (\<lambda>p. p \<noteq> []) (map TrimSpace (concat (map (splitOn CHR '','') vs)))) ds \<and>
       distinct (map fst ds) \<and> set ds = {(''max-age'', v), (''public'', []), (''must-revalidate'', [])} \<and>
       ParseInt v = Some 60 \<and> (if ageText = [] then Some 0 else ParseInt ageText) = Some age \<and>
       0 \<le> age \<and> age < 60 \<and> t = (60 - age) * second)"
  by (rule responseCacheTTL_spec)

text \<open>C37. Surrogates. The check for unpaired surrogate escapes, which counts backslashes backwards at
  every quote and every escape, agrees with one pass that carries their parity along.\<close>
theorem surrogates_one_pass:
  "rejectUnpairedSurrogateEscapes body_bytes \<longleftrightarrow> \<not> surrogateScan False False body_bytes"
  by (rule reject_scan)

text \<open>C38. Public keys are canonical. The member x of a key is accepted exactly when it is the encoding
  of 32 bytes, and then of one such list only.\<close>
theorem public_key_canonical:
  "canonicalX x \<longleftrightarrow> (\<exists>!bs. bytes_ok bs \<and> length bs = 32 \<and> x = EncodeToString bs)"
  by (rule canonicalX_iff)

theorem public_key_canonical_witness:
  "\<exists>!bs. bytes_ok bs \<and> length bs = 32 \<and> replicate 43 CHR ''A'' = EncodeToString bs"
proof -
  have "canonicalX (replicate 43 CHR ''A'')" by code_simp
  then show ?thesis by (rule public_key_canonical [THEN iffD1])
qed

end
